theory Spec2Isabelle
  imports Complex_Main
begin

section \<open>JavaScript numbers\<close>

text \<open>
  The repository holds two implementations of the same arcade shooter: the flat object-list
  class \<^verbatim>\<open>Game\<close> of \<^verbatim>\<open>src/unnamed/part_000\<close> and the entity-component class
  \<^verbatim>\<open>Game\<close> of \<^verbatim>\<open>src/app/page.tsx\<close>. Both are embedded here. Names of the flat version
  carry the suffix \<open>0\<close>; names of the entity-component version are the source's.

  Coordinates and velocities are JavaScript numbers, and not all of them are finite: the
  pointer position that \<^verbatim>\<open>getCanvasCoordinates\<close> computes divides by the width and the
  height of the canvas's layout box, so it can be \<^verbatim>\<open>Infinity\<close>, \<^verbatim>\<open>-Infinity\<close> or
  \<^verbatim>\<open>NaN\<close>, and from the input snapshot such a value reaches the velocity and the
  position of the player. A \<open>number\<close> is therefore a real, one of the two infinities, or
  NaN, with the arithmetic and the comparisons of IEEE 754 on the special values: NaN
  propagates through every operation and every comparison with NaN is false. On finite
  values the arithmetic is exact (rounding and overflow are not modelled) and zero carries
  no sign, so a non-zero finite number divided by zero is the infinity of the sign of the
  dividend.
\<close>

datatype number = Fin real | PInf | NInf | NaN

instantiation number :: "{uminus, plus, minus, times, inverse, ord}"
begin

fun uminus_number :: "number \<Rightarrow> number" where
  "uminus_number (Fin a) = Fin (- a)"
| "uminus_number PInf = NInf"
| "uminus_number NInf = PInf"
| "uminus_number NaN = NaN"

fun plus_number :: "number \<Rightarrow> number \<Rightarrow> number" where
  "plus_number (Fin a) (Fin b) = Fin (a + b)"
| "plus_number NaN _ = NaN"
| "plus_number _ NaN = NaN"
| "plus_number PInf NInf = NaN"
| "plus_number NInf PInf = NaN"
| "plus_number PInf _ = PInf"
| "plus_number _ PInf = PInf"
| "plus_number NInf _ = NInf"
| "plus_number _ NInf = NInf"

definition minus_number :: "number \<Rightarrow> number \<Rightarrow> number" where
  "minus_number a b = a + (- b)"

fun times_number :: "number \<Rightarrow> number \<Rightarrow> number" where
  "times_number (Fin a) (Fin b) = Fin (a * b)"
| "times_number NaN _ = NaN"
| "times_number _ NaN = NaN"
| "times_number PInf (Fin b) = (if b = 0 then NaN else if 0 < b then PInf else NInf)"
| "times_number NInf (Fin b) = (if b = 0 then NaN else if 0 < b then NInf else PInf)"
| "times_number (Fin a) PInf = (if a = 0 then NaN else if 0 < a then PInf else NInf)"
| "times_number (Fin a) NInf = (if a = 0 then NaN else if 0 < a then NInf else PInf)"
| "times_number PInf PInf = PInf"
| "times_number PInf NInf = NInf"
| "times_number NInf PInf = NInf"
| "times_number NInf NInf = PInf"

fun divide_number :: "number \<Rightarrow> number \<Rightarrow> number" where
  "divide_number (Fin a) (Fin b) =
     (if b = 0 then (if a = 0 then NaN else if 0 < a then PInf else NInf) else Fin (a / b))"
| "divide_number NaN _ = NaN"
| "divide_number _ NaN = NaN"
| "divide_number (Fin a) _ = Fin 0"
| "divide_number PInf (Fin b) = (if 0 \<le> b then PInf else NInf)"
| "divide_number NInf (Fin b) = (if 0 \<le> b then NInf else PInf)"
| "divide_number _ _ = NaN"

definition inverse_number :: "number \<Rightarrow> number" where
  "inverse_number a = divide (Fin 1) a"

fun less_number :: "number \<Rightarrow> number \<Rightarrow> bool" where
  "less_number (Fin a) (Fin b) = (a < b)"
| "less_number NaN _ = False"
| "less_number _ NaN = False"
| "less_number _ NInf = False"
| "less_number NInf _ = True"
| "less_number PInf _ = False"
| "less_number _ PInf = True"

fun less_eq_number :: "number \<Rightarrow> number \<Rightarrow> bool" where
  "less_eq_number (Fin a) (Fin b) = (a \<le> b)"
| "less_eq_number NaN _ = False"
| "less_eq_number _ NaN = False"
| "less_eq_number NInf _ = True"
| "less_eq_number _ PInf = True"
| "less_eq_number _ _ = False"

instance ..

end

text \<open>
  \<^verbatim>\<open>Math.sqrt\<close>, \<^verbatim>\<open>Math.hypot\<close> (which is \<^verbatim>\<open>Infinity\<close> as soon as one argument is
  infinite, even if the other is NaN), \<^verbatim>\<open>Math.min\<close> and \<^verbatim>\<open>Math.max\<close> (which are NaN
  as soon as one argument is).
\<close>

fun Math_sqrt :: "number \<Rightarrow> number" where
  "Math_sqrt (Fin a) = (if a < 0 then NaN else Fin (sqrt a))"
| "Math_sqrt PInf = PInf"
| "Math_sqrt NInf = NaN"
| "Math_sqrt NaN = NaN"

definition Math_hypot :: "number \<Rightarrow> number \<Rightarrow> number" where
  "Math_hypot a b = (if a = PInf \<or> a = NInf \<or> b = PInf \<or> b = NInf then PInf
                     else Math_sqrt (a * a + b * b))"

definition Math_min :: "number \<Rightarrow> number \<Rightarrow> number" where
  "Math_min a b = (if a = NaN \<or> b = NaN then NaN else if b < a then b else a)"

definition Math_max :: "number \<Rightarrow> number \<Rightarrow> number" where
  "Math_max a b = (if a = NaN \<or> b = NaN then NaN else if a < b then b else a)"

section \<open>Shared vocabulary of the two implementations\<close>

text \<open>
  Positions, velocities and the pointer position are pairs of numbers. JavaScript numbers
  that only ever hold small integers (\<^verbatim>\<open>score\<close>, \<^verbatim>\<open>hp\<close>, the millisecond clock,
  the frame time \<^verbatim>\<open>dtMs\<close>, entity ids) are \<open>int\<close> or \<open>nat\<close>. The named constants, the
  sizes, the brightness of a star, the \<^verbatim>\<open>width\<close> and \<^verbatim>\<open>height\<close> fields and the draws
  of \<^verbatim>\<open>Math.random()\<close> are only ever assigned from literals and from draws in [0, 1),
  so they are \<open>real\<close>, and \<open>Fin\<close> embeds them where they meet a coordinate.
  \<^verbatim>\<open>Date.now()\<close> and every \<^verbatim>\<open>Math.random()\<close> draw are inputs of the step: the
  environment record supplies one value per call site.
\<close>

record Vec2 =
  vec_x :: number
  vec_y :: number

datatype GameState = Playing | GameOver

definition GAME_WIDTH :: real where "GAME_WIDTH = 320"
definition GAME_HEIGHT :: real where "GAME_HEIGHT = 568"
definition PLAYER_SIZE :: real where "PLAYER_SIZE = 20"
definition PLAYER_SPEED :: real where "PLAYER_SPEED = 4.5"
definition BULLET_SIZE :: real where "BULLET_SIZE = 4"
definition BULLET_SPEED :: real where "BULLET_SPEED = 7"
definition ENEMY_SIZE :: real where "ENEMY_SIZE = 16"
definition ENEMY_SPEED :: real where "ENEMY_SPEED = 1.5"
definition STAR_COUNT :: nat where "STAR_COUNT = 50"
definition ENEMY_SPAWN_RATE :: real where "ENEMY_SPAWN_RATE = 0.015"
definition BULLET_FIRE_RATE :: int where "BULLET_FIRE_RATE = 120"

definition createVector2 :: "number \<Rightarrow> number \<Rightarrow> Vec2" where
  "createVector2 a b = \<lparr>vec_x = a, vec_y = b\<rparr>"

text \<open>
  \<^verbatim>\<open>distance\<close> is \<^verbatim>\<open>Math.hypot(a.x - b.x, a.y - b.y)\<close> in page.tsx and
  \<^verbatim>\<open>Math.sqrt((a.x - b.x) ** 2 + (a.y - b.y) ** 2)\<close> in part_000; \<^verbatim>\<open>v ** 2\<close> is
  \<open>v * v\<close> for every number of the model.
\<close>

definition distance :: "Vec2 \<Rightarrow> Vec2 \<Rightarrow> number" where
  "distance a b = Math_hypot (vec_x a - vec_x b) (vec_y a - vec_y b)"

definition distance0 :: "Vec2 \<Rightarrow> Vec2 \<Rightarrow> number" where
  "distance0 a b = Math_sqrt ((vec_x a - vec_x b) * (vec_x a - vec_x b)
                              + (vec_y a - vec_y b) * (vec_y a - vec_y b))"

definition clamp :: "number \<Rightarrow> number \<Rightarrow> number \<Rightarrow> number" where
  "clamp v mn mx = Math_max mn (Math_min mx v)"

definition lerp :: "number \<Rightarrow> number \<Rightarrow> number \<Rightarrow> number" where
  "lerp a b t = a + (b - a) * t"

text \<open>The input snapshot written by the event handlers.\<close>

record Input =
  left :: bool
  right :: bool
  up :: bool
  down :: bool
  shoot :: bool
  touching :: bool
  mousePos :: Vec2

text \<open>
  Both \<^verbatim>\<open>update\<close> (part_000, lines 88-109) and \<^verbatim>\<open>system_InputToPlayer\<close>
  (page.tsx, lines 173-195) compute the target velocity with the same statements: the
  keyboard axes first, then the pointer pursuit, which overrides them only beyond the
  dead zone of 8 units. The two differ in how they take the length of a vector, \<open>len\<close>:
  part_000 writes \<^verbatim>\<open>Math.sqrt(dx * dx + dy * dy)\<close>, page.tsx \<^verbatim>\<open>Math.hypot(dx, dy)\<close>.
\<close>

definition targetVelBy :: "(number \<Rightarrow> number \<Rightarrow> number) \<Rightarrow> 'a Input_scheme \<Rightarrow> Vec2 \<Rightarrow> Vec2" where
  "targetVelBy len inp pos =
     (let kx = Fin ((0 - (if left inp then PLAYER_SPEED else 0)) + (if right inp then PLAYER_SPEED else 0));
          ky = Fin ((0 - (if up inp then PLAYER_SPEED else 0)) + (if down inp then PLAYER_SPEED else 0))
      in if touching inp then
           (let dx = vec_x (mousePos inp) - vec_x pos;
                dy = vec_y (mousePos inp) - vec_y pos;
                dist = len dx dy
            in if dist > Fin 8 then
                 (let factor = Math_min (Fin 1) (dist / Fin 60);
                      tx = dx * Fin 0.15 * factor;
                      ty = dy * Fin 0.15 * factor;
                      speed = len tx ty
                  in if speed > Fin PLAYER_SPEED
                     then createVector2 ((tx / speed) * Fin PLAYER_SPEED) ((ty / speed) * Fin PLAYER_SPEED)
                     else createVector2 tx ty)
               else createVector2 kx ky)
         else createVector2 kx ky)"

definition targetVel0 :: "'a Input_scheme \<Rightarrow> Vec2 \<Rightarrow> Vec2" where
  "targetVel0 = targetVelBy (\<lambda>a b. Math_sqrt (a * a + b * b))"

definition targetVel :: "'a Input_scheme \<Rightarrow> Vec2 \<Rightarrow> Vec2" where
  "targetVel = targetVelBy Math_hypot"


text \<open>
  One tick's draws from the outside world: the clock read by the firing code, the
  spawn roll and spawn abscissa, and the two draws of a recycled star (indexed by the
  star's place in the list, or by its entity id).
\<close>

record Env =
  now :: int
  spawnRoll :: real
  spawnX :: real
  starX :: "nat \<Rightarrow> real"
  starVy :: "nat \<Rightarrow> real"

definition unit_draw :: "real \<Rightarrow> bool" where
  "unit_draw r = (0 \<le> r \<and> r < 1)"

definition env_ok :: "Env \<Rightarrow> bool" where
  "env_ok e = (unit_draw (spawnRoll e) \<and> unit_draw (spawnX e)
               \<and> (\<forall>i. unit_draw (starX e i)) \<and> (\<forall>i. unit_draw (starVy e i)))"

text \<open>The draws of a star field (re)generation, and the clock read by \<^verbatim>\<open>reset\<close>.\<close>

record ResetEnv =
  resetNow :: int
  rBright :: "nat \<Rightarrow> real"
  rPosX :: "nat \<Rightarrow> real"
  rPosY :: "nat \<Rightarrow> real"
  rVelY :: "nat \<Rightarrow> real"
  rSize :: "nat \<Rightarrow> real"

definition renv_ok :: "ResetEnv \<Rightarrow> bool" where
  "renv_ok r = (\<forall>i. unit_draw (rBright r i) \<and> unit_draw (rPosX r i) \<and> unit_draw (rPosY r i)
                  \<and> unit_draw (rVelY r i) \<and> unit_draw (rSize r i))"

section \<open>The flat implementation (part_000)\<close>

record GameObject =
  position :: Vec2
  velocity :: Vec2
  osize :: real
  color :: string
  active :: bool

record Player = GameObject +
  health :: int

datatype EnemyType = Basic

record Enemy = GameObject +
  etype :: EnemyType

datatype Owner = OwnerPlayer | OwnerEnemy

record Bullet = GameObject +
  owner :: Owner

record Star = GameObject +
  brightness :: real

record Input0 = Input +
  targetPos :: Vec2

record Game0 =
  score0 :: int
  hp0 :: int
  gameState0 :: GameState
  player0 :: Player
  bullets0 :: "Bullet list"
  enemies0 :: "Enemy list"
  stars0 :: "Star list"
  input0 :: Input0
  lastFireTime0 :: int

definition isColliding :: "'a GameObject_scheme \<Rightarrow> 'b GameObject_scheme \<Rightarrow> bool" where
  "isColliding a b = (distance0 (position a) (position b) < Fin ((osize a + osize b) / 2))"

definition newPlayer0 :: Player where
  "newPlayer0 = \<lparr>position = createVector2 (Fin (GAME_WIDTH / 2)) (Fin (GAME_HEIGHT - 60)),
                 velocity = createVector2 (Fin 0) (Fin 0), osize = PLAYER_SIZE, color = ''#00ff88'',
                 active = True, health = 3\<rparr>"

definition initStars0 :: "ResetEnv \<Rightarrow> Star list" where
  "initStars0 r = map (\<lambda>i. \<lparr>position = createVector2 (Fin (rPosX r i * GAME_WIDTH)) (Fin (rPosY r i * GAME_HEIGHT)),
                            velocity = createVector2 (Fin 0) (Fin (rVelY r i * 1.5 + 0.3)),
                            osize = rSize r i * 2 + 0.5, color = ''#fff'', active = True,
                            brightness = rBright r i * 0.8 + 0.2\<rparr>) [0..<STAR_COUNT]"

definition initInput0 :: Input0 where
  "initInput0 = \<lparr>left = False, right = False, up = False, down = False, shoot = False,
                  touching = False, mousePos = createVector2 (Fin (GAME_WIDTH / 2)) (Fin (GAME_HEIGHT / 2)),
                  targetPos = createVector2 (Fin (GAME_WIDTH / 2)) (Fin (GAME_HEIGHT - 60))\<rparr>"

text \<open>The field initialisers and the constructor (lines 37-67).\<close>

definition construct0 :: "ResetEnv \<Rightarrow> Game0" where
  "construct0 r = \<lparr>score0 = 0, hp0 = 3, gameState0 = Playing, player0 = newPlayer0,
                    bullets0 = [], enemies0 = [], stars0 = initStars0 r,
                    input0 = initInput0, lastFireTime0 = 0\<rparr>"

text \<open>\<^verbatim>\<open>reset\<close> (lines 286-301): the input snapshot and the fire time are left alone.\<close>

definition reset0 :: "ResetEnv \<Rightarrow> Game0 \<Rightarrow> Game0" where
  "reset0 r g = g\<lparr>player0 := newPlayer0, bullets0 := [], enemies0 := [], score0 := 0,
                   hp0 := 3, gameState0 := Playing, stars0 := initStars0 r\<rparr>"

subsection \<open>One call of \<^verbatim>\<open>update\<close>, phase by phase\<close>

text \<open>
  Lines 88-115: target velocity, exponential smoothing, integration and clamping of the
  player.
\<close>

definition movePlayer0 :: "Game0 \<Rightarrow> Game0" where
  "movePlayer0 g =
     (let p = player0 g;
          tv = targetVel0 (input0 g) (position p);
          v = createVector2 (lerp (vec_x (velocity p)) (vec_x tv) (Fin 0.15))
                            (lerp (vec_y (velocity p)) (vec_y tv) (Fin 0.15));
          px = clamp (vec_x (position p) + vec_x v) (Fin (osize p / 2)) (Fin (GAME_WIDTH - osize p / 2));
          py = clamp (vec_y (position p) + vec_y v) (Fin (osize p / 2)) (Fin (GAME_HEIGHT - osize p / 2))
      in g\<lparr>player0 := p\<lparr>velocity := v, position := createVector2 px py\<rparr>\<rparr>)"

text \<open>Lines 117-128: the cooldown test is strict.\<close>

definition fires0 :: "Env \<Rightarrow> Game0 \<Rightarrow> bool" where
  "fires0 e g = (shoot (input0 g) \<and> now e - lastFireTime0 g > BULLET_FIRE_RATE)"

definition fire0 :: "Env \<Rightarrow> Game0 \<Rightarrow> Game0" where
  "fire0 e g =
     (if fires0 e g
      then g\<lparr>bullets0 := bullets0 g @
                 [\<lparr>position = position (player0 g), velocity = createVector2 (Fin 0) (Fin (- BULLET_SPEED)),
                   osize = BULLET_SIZE, color = ''#ffff00'', active = True, owner = OwnerPlayer\<rparr>],
              lastFireTime0 := now e\<rparr>
      else g)"

text \<open>Lines 132-139: a star past the bottom margin is recycled with two fresh draws.\<close>

definition stepStar0 :: "Env \<Rightarrow> nat \<Rightarrow> Star \<Rightarrow> Star" where
  "stepStar0 e i s =
     (let y' = vec_y (position s) + vec_y (velocity s)
      in if y' > Fin (GAME_HEIGHT + 5)
         then s\<lparr>position := createVector2 (Fin (starX e i * GAME_WIDTH)) (Fin (- 5)),
                velocity := (velocity s)\<lparr>vec_y := Fin (starVy e i * 1.5 + 0.3)\<rparr>\<rparr>
         else s\<lparr>position := (position s)\<lparr>vec_y := y'\<rparr>\<rparr>)"

definition moveStars0 :: "Env \<Rightarrow> Game0 \<Rightarrow> Game0" where
  "moveStars0 e g = g\<lparr>stars0 := map (\<lambda>(i, s). stepStar0 e i s) (enumerate 0 (stars0 g))\<rparr>"

text \<open>Lines 142-145: bullets and enemies move, then are filtered on their ordinate only.\<close>

definition advance :: "'a GameObject_scheme \<Rightarrow> 'a GameObject_scheme" where
  "advance b = b\<lparr>position := (position b)\<lparr>vec_y := vec_y (position b) + vec_y (velocity b)\<rparr>\<rparr>"

definition bulletKept0 :: "Bullet \<Rightarrow> bool" where
  "bulletKept0 b = (vec_y (position b) > Fin (- 20) \<and> vec_y (position b) < Fin (GAME_HEIGHT + 20))"

definition enemyKept0 :: "Enemy \<Rightarrow> bool" where
  "enemyKept0 e = (vec_y (position e) < Fin (GAME_HEIGHT + osize e + 10))"

definition moveBullets0 :: "Game0 \<Rightarrow> Game0" where
  "moveBullets0 g = g\<lparr>bullets0 := filter bulletKept0 (map advance (bullets0 g))\<rparr>"

definition moveEnemies0 :: "Game0 \<Rightarrow> Game0" where
  "moveEnemies0 g = g\<lparr>enemies0 := filter enemyKept0 (map advance (enemies0 g))\<rparr>"

text \<open>Lines 148-157.\<close>

definition spawnEnemy0 :: "Env \<Rightarrow> Game0 \<Rightarrow> Game0" where
  "spawnEnemy0 e g =
     (if spawnRoll e < ENEMY_SPAWN_RATE
      then g\<lparr>enemies0 := enemies0 g @
                 [\<lparr>position = createVector2 (Fin (spawnX e * (GAME_WIDTH - ENEMY_SIZE))) (Fin (- ENEMY_SIZE)),
                   velocity = createVector2 (Fin 0) (Fin ENEMY_SPEED), osize = ENEMY_SIZE,
                   color = ''#ff4444'', active = True, etype = Basic\<rparr>]\<rparr>
      else g)"

text \<open>
  Lines 163-170, the inner \<^verbatim>\<open>filter\<close> over the enemies for one bullet: every enemy
  that overlaps the bullet is dropped, sets the flag and adds 100; the scan never stops
  early. The pair carried along is the flag \<^verbatim>\<open>hit\<close> and \<^verbatim>\<open>this.score\<close>.
\<close>

fun scanEnemies0 :: "Bullet \<Rightarrow> Enemy list \<Rightarrow> bool \<times> int \<Rightarrow> (bool \<times> int) \<times> Enemy list" where
  "scanEnemies0 b [] acc = (acc, [])"
| "scanEnemies0 b (e # es) acc =
     (if isColliding b e then scanEnemies0 b es (True, snd acc + 100)
      else (case scanEnemies0 b es acc of (acc', kept) \<Rightarrow> (acc', e # kept)))"

text \<open>
  Lines 160-174, the outer \<^verbatim>\<open>filter\<close> over the bullets: the result is the list of
  bullets kept, with the enemies and the score as the callbacks leave them.
\<close>

fun bulletPass0 :: "Bullet list \<Rightarrow> Game0 \<Rightarrow> Bullet list \<times> Game0" where
  "bulletPass0 [] g = ([], g)"
| "bulletPass0 (b # bs) g =
     (if owner b = OwnerPlayer then
        (case scanEnemies0 b (enemies0 g) (False, score0 g) of
           ((hit, sc), es) \<Rightarrow>
             (case bulletPass0 bs (g\<lparr>enemies0 := es, score0 := sc\<rparr>) of
                (kept, g') \<Rightarrow> (if hit then kept else b # kept, g')))
      else (case bulletPass0 bs g of (kept, g') \<Rightarrow> (b # kept, g')))"

definition bulletHits0 :: "Game0 \<Rightarrow> Game0" where
  "bulletHits0 g = (case bulletPass0 (bullets0 g) g of (kept, g') \<Rightarrow> g'\<lparr>bullets0 := kept\<rparr>)"

text \<open>
  Lines 176-185: every enemy that overlaps the player is dropped and takes one hit
  point; the phase changes once \<^verbatim>\<open>hp <= 0\<close>, and \<^verbatim>\<open>hp\<close> is not floored.
\<close>

fun playerPass0 :: "Player \<Rightarrow> Enemy list \<Rightarrow> int \<times> GameState \<Rightarrow> (int \<times> GameState) \<times> Enemy list" where
  "playerPass0 p [] acc = (acc, [])"
| "playerPass0 p (e # es) acc =
     (if isColliding p e
      then playerPass0 p es (fst acc - 1, if fst acc - 1 \<le> 0 then GameOver else snd acc)
      else (case playerPass0 p es acc of (acc', kept) \<Rightarrow> (acc', e # kept)))"

definition playerHits0 :: "Game0 \<Rightarrow> Game0" where
  "playerHits0 g =
     (case playerPass0 (player0 g) (enemies0 g) (hp0 g, gameState0 g) of
        ((h, st), kept) \<Rightarrow> g\<lparr>enemies0 := kept, hp0 := h, gameState0 := st\<rparr>)"

text \<open>\<^verbatim>\<open>update\<close> (lines 82-186): nothing at all happens once the game is over.\<close>

definition update0 :: "Env \<Rightarrow> Game0 \<Rightarrow> Game0" where
  "update0 e g =
     (if gameState0 g = GameOver then g
      else playerHits0 (bulletHits0 (spawnEnemy0 e (moveEnemies0 (moveBullets0
             (moveStars0 e (fire0 e (movePlayer0 g))))))))"

text \<open>
  The states a session can be in: the constructor's, and whatever ticks, restarts and
  input events lead to. The event handlers write the input snapshot between ticks.
\<close>

inductive reachable0 :: "Game0 \<Rightarrow> bool" where
  r0_init: "renv_ok r \<Longrightarrow> reachable0 (construct0 r)"
| r0_tick: "reachable0 g \<Longrightarrow> env_ok e \<Longrightarrow> reachable0 (update0 e g)"
| r0_reset: "reachable0 g \<Longrightarrow> renv_ok r \<Longrightarrow> reachable0 (reset0 r g)"
| r0_input: "reachable0 g \<Longrightarrow> reachable0 (g\<lparr>input0 := i\<rparr>)"

text \<open>A run of ticks with no restart in between: one session.\<close>

fun run0 :: "Env list \<Rightarrow> Game0 \<Rightarrow> Game0" where
  "run0 [] g = g"
| "run0 (e # es) g = run0 es (update0 e g)"

section \<open>The entity-component implementation (page.tsx)\<close>

text \<open>
  An entity is an id and a \<^verbatim>\<open>Map\<close> from component names to component objects. The
  code uses nine names, so the map is a record of nine optional components. The render
  component always carries a size where it is created, so the defaults of
  \<^verbatim>\<open>r.size ?? ...\<close> only matter where the whole render component may be missing.
\<close>

record Render =
  rcolor :: string
  rsize :: real

record BulletC =
  bowner :: string
  damage :: int

record Entity =
  eid :: nat
  c_position :: "Vec2 option"
  c_velocity :: "Vec2 option"
  c_render :: "Render option"
  c_player :: "int option"
  c_bullet :: "BulletC option"
  c_enemy :: "string option"
  c_star :: "real option"
  c_input :: "Input option"
  c_lifetime :: "int option"

datatype CName = C_POSITION | C_VELOCITY | C_RENDER | C_PLAYER | C_BULLET | C_ENEMY | C_STAR
  | C_INPUT | C_LIFETIME

fun has :: "Entity \<Rightarrow> CName \<Rightarrow> bool" where
  "has e C_POSITION = (c_position e \<noteq> None)"
| "has e C_VELOCITY = (c_velocity e \<noteq> None)"
| "has e C_RENDER = (c_render e \<noteq> None)"
| "has e C_PLAYER = (c_player e \<noteq> None)"
| "has e C_BULLET = (c_bullet e \<noteq> None)"
| "has e C_ENEMY = (c_enemy e \<noteq> None)"
| "has e C_STAR = (c_star e \<noteq> None)"
| "has e C_INPUT = (c_input e \<noteq> None)"
| "has e C_LIFETIME = (c_lifetime e \<noteq> None)"

text \<open>
  \<^verbatim>\<open>entities\<close> is a \<^verbatim>\<open>Map\<close> keyed by id, iterated in insertion order: a list of
  entities in that order. \<^verbatim>\<open>createEntity\<close> always inserts under the fresh key
  \<^verbatim>\<open>nextId++\<close>, so insertion appends; \<^verbatim>\<open>destroyEntity\<close> deletes by key.
\<close>

record Game =
  nextId :: nat
  entities :: "Entity list"
  score :: int
  hp :: int
  gameState :: GameState
  lastFireTime :: int
  width :: real
  height :: real

definition blank :: "nat \<Rightarrow> Entity" where
  "blank i = \<lparr>eid = i, c_position = None, c_velocity = None, c_render = None, c_player = None,
              c_bullet = None, c_enemy = None, c_star = None, c_input = None, c_lifetime = None\<rparr>"

text \<open>\<^verbatim>\<open>createEntity\<close> followed by the chain of \<^verbatim>\<open>add\<close> calls \<open>build\<close>.\<close>

definition createEntity :: "(Entity \<Rightarrow> Entity) \<Rightarrow> Game \<Rightarrow> Game" where
  "createEntity build g = g\<lparr>nextId := nextId g + 1, entities := entities g @ [build (blank (nextId g))]\<rparr>"

definition destroyEntity :: "Entity \<Rightarrow> Game \<Rightarrow> Game" where
  "destroyEntity e g = g\<lparr>entities := filter (\<lambda>x. eid x \<noteq> eid e) (entities g)\<rparr>"

definition findAllWith :: "Game \<Rightarrow> CName list \<Rightarrow> Entity list" where
  "findAllWith g cs = filter (\<lambda>e. list_all (has e) cs) (entities g)"

definition initInput :: "Game \<Rightarrow> Input" where
  "initInput g = \<lparr>left = False, right = False, up = False, down = False, shoot = False,
                  touching = False, mousePos = createVector2 (Fin (width g / 2)) (Fin (height g - 60))\<rparr>"

definition buildPlayer :: "Game \<Rightarrow> Entity \<Rightarrow> Entity" where
  "buildPlayer g e = e\<lparr>c_position := Some (createVector2 (Fin (width g / 2)) (Fin (height g - 60))),
                       c_velocity := Some (createVector2 (Fin 0) (Fin 0)),
                       c_render := Some \<lparr>rcolor = ''#00ff88'', rsize = PLAYER_SIZE\<rparr>,
                       c_player := Some 3\<rparr>"

definition buildStar :: "Game \<Rightarrow> ResetEnv \<Rightarrow> nat \<Rightarrow> Entity \<Rightarrow> Entity" where
  "buildStar g r i e = e\<lparr>c_star := Some (rBright r i * 0.8 + 0.2),
                         c_position := Some (createVector2 (Fin (rPosX r i * width g)) (Fin (rPosY r i * height g))),
                         c_velocity := Some (createVector2 (Fin 0) (Fin (rVelY r i * 1.5 + 0.3))),
                         c_render := Some \<lparr>rcolor = ''#fff'', rsize = rSize r i * 2 + 0.5\<rparr>\<rparr>"

text \<open>\<^verbatim>\<open>reset(skipScore)\<close> (lines 115-157).\<close>

definition reset :: "bool \<Rightarrow> ResetEnv \<Rightarrow> Game \<Rightarrow> Game" where
  "reset skipScore r g =
     (let g1 = g\<lparr>entities := [], nextId := 1\<rparr>;
          g2 = (if \<not> skipScore then g1\<lparr>score := 0, hp := 3, gameState := Playing\<rparr>
                else g1\<lparr>score := 0, hp := 3\<rparr>);
          g3 = createEntity (buildPlayer g2) g2;
          g4 = createEntity (\<lambda>e. e\<lparr>c_input := Some (initInput g3)\<rparr>) g3;
          g5 = fold (\<lambda>i h. createEntity (buildStar h r i) h) [0..<STAR_COUNT] g4
      in g5\<lparr>lastFireTime := resetNow r\<rparr>)"

text \<open>The field initialisers and the constructor, which calls \<^verbatim>\<open>reset(true)\<close>.\<close>

definition construct :: "ResetEnv \<Rightarrow> Game" where
  "construct r = reset True r \<lparr>nextId = 1, entities = [], score = 0, hp = 3, gameState = Playing,
                               lastFireTime = 0, width = GAME_WIDTH, height = GAME_HEIGHT\<rparr>"

subsection \<open>The systems\<close>

text \<open>
  \<^verbatim>\<open>system_InputToPlayer\<close> (lines 162-202). The \<^verbatim>\<open>forEach\<close> mutates the velocity
  object of every entity that has the player, position and velocity components.
\<close>

definition steer :: "Input \<Rightarrow> Entity \<Rightarrow> Entity" where
  "steer inp p =
     (case (c_position p, c_velocity p) of
        (Some pos, Some vel) \<Rightarrow>
          (let tv = targetVel inp pos
           in p\<lparr>c_velocity := Some (createVector2 (lerp (vec_x vel) (vec_x tv) (Fin 0.15))
                                                   (lerp (vec_y vel) (vec_y tv) (Fin 0.15)))\<rparr>)
      | _ \<Rightarrow> p)"

definition system_InputToPlayer :: "Game \<Rightarrow> Game" where
  "system_InputToPlayer g =
     (case findAllWith g [C_INPUT] of
        [] \<Rightarrow> g
      | ie # _ \<Rightarrow>
          (case c_input ie of
             None \<Rightarrow> g
           | Some inp \<Rightarrow>
               g\<lparr>entities := map (\<lambda>p. if list_all (has p) [C_PLAYER, C_POSITION, C_VELOCITY]
                                        then steer inp p else p) (entities g)\<rparr>))"

text \<open>
  \<^verbatim>\<open>system_Movement\<close> (lines 205-238). One iteration of the loop touches only the
  entity it visits: it integrates the position, recycles a star, counts the lifetime
  down, and deletes the entity's own key once the lifetime is used up. \<open>moveEntity\<close> is
  the in-place part of an iteration, \<open>expired\<close> the test that follows it.
\<close>

definition moveEntity :: "Env \<Rightarrow> int \<Rightarrow> real \<Rightarrow> real \<Rightarrow> Entity \<Rightarrow> Entity" where
  "moveEntity env dt w h e =
     (let e1 = (case (c_position e, c_velocity e) of
                  (Some pos, Some vel) \<Rightarrow>
                    e\<lparr>c_position := Some (createVector2 (vec_x pos + vec_x vel) (vec_y pos + vec_y vel))\<rparr>
                | _ \<Rightarrow> e);
          e2 = (case (c_star e1, c_position e1, c_velocity e1) of
                  (Some _, Some pos, Some vel) \<Rightarrow>
                    (if vec_y pos > Fin (h + 5)
                     then e1\<lparr>c_position := Some (createVector2 (Fin (starX env (eid e) * w)) (Fin (- 5))),
                             c_velocity := Some (vel\<lparr>vec_y := Fin (starVy env (eid e) * 1.5 + 0.3)\<rparr>)\<rparr>
                     else e1)
                | _ \<Rightarrow> e1)
      in (case c_lifetime e2 of
            Some t \<Rightarrow> e2\<lparr>c_lifetime := Some (t - dt)\<rparr>
          | None \<Rightarrow> e2))"

definition expired :: "Entity \<Rightarrow> bool" where
  "expired e = (case c_lifetime e of Some t \<Rightarrow> t \<le> 0 | None \<Rightarrow> False)"

definition clampPlayer :: "real \<Rightarrow> real \<Rightarrow> Entity \<Rightarrow> Entity" where
  "clampPlayer w h p =
     (case (c_position p, c_render p) of
        (Some pos, Some r) \<Rightarrow>
          (let half = rsize r / 2
           in p\<lparr>c_position := Some (createVector2 (clamp (vec_x pos) (Fin half) (Fin (w - half)))
                                                   (clamp (vec_y pos) (Fin half) (Fin (h - half))))\<rparr>)
      | _ \<Rightarrow> p)"

definition system_Movement :: "Env \<Rightarrow> int \<Rightarrow> Game \<Rightarrow> Game" where
  "system_Movement env dt g =
     (let g1 = g\<lparr>entities := map (moveEntity env dt (width g) (height g)) (entities g)\<rparr>;
          g2 = fold (\<lambda>e h. if expired e then destroyEntity e h else h) (entities g1) g1
      in g2\<lparr>entities := map (\<lambda>p. if list_all (has p) [C_PLAYER, C_POSITION, C_RENDER]
                                   then clampPlayer (width g2) (height g2) p else p) (entities g2)\<rparr>)"

text \<open>\<^verbatim>\<open>system_Shooting\<close> (lines 241-261): the cooldown test is strict.\<close>

definition buildBullet :: "Vec2 \<Rightarrow> Entity \<Rightarrow> Entity" where
  "buildBullet ppos e = e\<lparr>c_position := Some (createVector2 (vec_x ppos) (vec_y ppos)),
                          c_velocity := Some (createVector2 (Fin 0) (Fin (- BULLET_SPEED))),
                          c_render := Some \<lparr>rcolor = ''#ffff00'', rsize = BULLET_SIZE\<rparr>,
                          c_bullet := Some \<lparr>bowner = ''player'', damage = 1\<rparr>,
                          c_lifetime := Some 3000\<rparr>"

definition fires :: "Env \<Rightarrow> Game \<Rightarrow> bool" where
  "fires env g =
     (case findAllWith g [C_INPUT] of
        [] \<Rightarrow> False
      | ie # _ \<Rightarrow>
          (case c_input ie of
             None \<Rightarrow> False
           | Some inp \<Rightarrow>
               findAllWith g [C_PLAYER, C_POSITION] \<noteq> []
               \<and> shoot inp \<and> now env - lastFireTime g > BULLET_FIRE_RATE))"

definition system_Shooting :: "Env \<Rightarrow> Game \<Rightarrow> Game" where
  "system_Shooting env g =
     (if fires env g then
        (case findAllWith g [C_PLAYER, C_POSITION] of
           [] \<Rightarrow> g
         | player # _ \<Rightarrow>
             (case c_position player of
                None \<Rightarrow> g
              | Some ppos \<Rightarrow> (createEntity (buildBullet ppos) g)\<lparr>lastFireTime := now env\<rparr>))
      else g)"

text \<open>\<^verbatim>\<open>system_EnemySpawn\<close> (lines 264-273).\<close>

definition buildEnemy :: "Game \<Rightarrow> Env \<Rightarrow> Entity \<Rightarrow> Entity" where
  "buildEnemy g env e =
     e\<lparr>c_position := Some (createVector2 (Fin (spawnX env * (width g - ENEMY_SIZE) + ENEMY_SIZE / 2))
                                         (Fin (- ENEMY_SIZE))),
       c_velocity := Some (createVector2 (Fin 0) (Fin ENEMY_SPEED)),
       c_render := Some \<lparr>rcolor = ''#ff4444'', rsize = ENEMY_SIZE\<rparr>,
       c_enemy := Some ''basic''\<rparr>"

definition system_EnemySpawn :: "Env \<Rightarrow> Game \<Rightarrow> Game" where
  "system_EnemySpawn env g =
     (if spawnRoll env < ENEMY_SPAWN_RATE then createEntity (buildEnemy g env) g else g)"

text \<open>\<^verbatim>\<open>system_Cleanup\<close> (lines 276-288).\<close>

definition outOfBounds :: "real \<Rightarrow> real \<Rightarrow> Entity \<Rightarrow> bool" where
  "outOfBounds w h e =
     ((has e C_BULLET \<or> has e C_ENEMY) \<and>
      (case c_position e of
         None \<Rightarrow> False
       | Some pos \<Rightarrow>
           (let margin = (case c_render e of None \<Rightarrow> 16 | Some r \<Rightarrow> rsize r) + 20
            in vec_y pos < Fin (- margin) \<or> vec_y pos > Fin (h + margin)
               \<or> vec_x pos < Fin (- margin) \<or> vec_x pos > Fin (w + margin))))"

definition system_Cleanup :: "Game \<Rightarrow> Game" where
  "system_Cleanup g =
     fold (\<lambda>e h. if outOfBounds (width g) (height g) e then destroyEntity e h else h) (entities g) g"

text \<open>
  \<^verbatim>\<open>system_Collision\<close> (lines 291-332). The three arrays are taken once, before the
  loops: an enemy deleted from the map by the first loop is still in \<^verbatim>\<open>enemies\<close>
  when the second loop scans it.
\<close>

definition overlap :: "Entity \<Rightarrow> Entity \<Rightarrow> bool" where
  "overlap a b =
     (case (c_position a, c_render a, c_position b, c_render b) of
        (Some pa, Some ra, Some pb, Some rb) \<Rightarrow> distance pa pb < Fin ((rsize ra + rsize rb) / 2)
      | _ \<Rightarrow> False)"

definition takeHit :: "Game \<Rightarrow> Game" where
  "takeHit g = (let g1 = g\<lparr>hp := hp g - 1\<rparr>
                in if hp g1 \<le> 0 then g1\<lparr>gameState := GameOver, hp := 0\<rparr> else g1)"

definition playerLoop :: "Entity list \<Rightarrow> Entity list \<Rightarrow> Game \<Rightarrow> Game" where
  "playerLoop enemies players g =
     fold (\<lambda>enemy. fold (\<lambda>player h. if overlap enemy player
                                       then takeHit (destroyEntity enemy h) else h) players)
          enemies g"

fun scanEnemies :: "Entity \<Rightarrow> Entity list \<Rightarrow> Game \<Rightarrow> Game" where
  "scanEnemies bullet [] g = g"
| "scanEnemies bullet (enemy # es) g =
     (if overlap bullet enemy
      then destroyEntity bullet (destroyEntity enemy (g\<lparr>score := score g + 100\<rparr>))
      else scanEnemies bullet es g)"

definition bulletLoop :: "Entity list \<Rightarrow> Entity list \<Rightarrow> Game \<Rightarrow> Game" where
  "bulletLoop bullets enemies g = fold (\<lambda>bullet. scanEnemies bullet enemies) bullets g"

definition system_Collision :: "Game \<Rightarrow> Game" where
  "system_Collision g =
     (let bullets = findAllWith g [C_BULLET, C_POSITION, C_RENDER];
          enemies = findAllWith g [C_ENEMY, C_POSITION, C_RENDER];
          players = findAllWith g [C_PLAYER, C_POSITION, C_RENDER]
      in bulletLoop bullets enemies (playerLoop enemies players g))"

text \<open>
  \<^verbatim>\<open>updateAndRender\<close> (lines 447-463). \<^verbatim>\<open>system_Render\<close> only reads the game and
  draws, so it is the identity on the state and left out.
\<close>

definition updateAndRender :: "Env \<Rightarrow> int \<Rightarrow> Game \<Rightarrow> Game" where
  "updateAndRender env dtMs g =
     (if gameState g = GameOver then system_Movement env dtMs g
      else system_Cleanup (system_Collision (system_Movement env dtMs
             (system_EnemySpawn env (system_Shooting env (system_InputToPlayer g))))))"

text \<open>
  \<^verbatim>\<open>setInput\<close> (lines 466-471): \<^verbatim>\<open>Object.assign\<close> overwrites the fields the
  partial update carries, on the first entity that has an input component.
\<close>

record InputUpdate =
  u_left :: "bool option"
  u_right :: "bool option"
  u_up :: "bool option"
  u_down :: "bool option"
  u_shoot :: "bool option"
  u_touching :: "bool option"
  u_mousePos :: "Vec2 option"

definition assign :: "Input \<Rightarrow> InputUpdate \<Rightarrow> Input" where
  "assign inp u =
     \<lparr>left = (case u_left u of None \<Rightarrow> left inp | Some b \<Rightarrow> b),
      right = (case u_right u of None \<Rightarrow> right inp | Some b \<Rightarrow> b),
      up = (case u_up u of None \<Rightarrow> up inp | Some b \<Rightarrow> b),
      down = (case u_down u of None \<Rightarrow> down inp | Some b \<Rightarrow> b),
      shoot = (case u_shoot u of None \<Rightarrow> shoot inp | Some b \<Rightarrow> b),
      touching = (case u_touching u of None \<Rightarrow> touching inp | Some b \<Rightarrow> b),
      mousePos = (case u_mousePos u of None \<Rightarrow> mousePos inp | Some v \<Rightarrow> v)\<rparr>"

fun assignFirst :: "InputUpdate \<Rightarrow> Entity list \<Rightarrow> Entity list" where
  "assignFirst u [] = []"
| "assignFirst u (e # es) =
     (case c_input e of
        Some inp \<Rightarrow> e\<lparr>c_input := Some (assign inp u)\<rparr> # es
      | None \<Rightarrow> e # assignFirst u es)"

definition setInput :: "InputUpdate \<Rightarrow> Game \<Rightarrow> Game" where
  "setInput u g = g\<lparr>entities := assignFirst u (entities g)\<rparr>"

inductive reachable :: "Game \<Rightarrow> bool" where
  r_init: "renv_ok r \<Longrightarrow> reachable (construct r)"
| r_tick: "reachable g \<Longrightarrow> env_ok e \<Longrightarrow> reachable (updateAndRender e dt g)"
| r_reset: "reachable g \<Longrightarrow> renv_ok r \<Longrightarrow> reachable (reset False r g)"
| r_input: "reachable g \<Longrightarrow> reachable (setInput u g)"

text \<open>A run of ticks with no restart in between; each tick has its draws and its \<^verbatim>\<open>dtMs\<close>.\<close>

fun run :: "(Env \<times> int) list \<Rightarrow> Game \<Rightarrow> Game" where
  "run [] g = g"
| "run ((e, dt) # es) g = run es (updateAndRender e dt g)"

section \<open>Predicates used in the theorems\<close>

text \<open>
  A coordinate lies in the interval from \<open>lo\<close> to \<open>hi\<close> (which NaN never does), and a
  coordinate lies there unless it is NaN.
\<close>

definition inRange :: "real \<Rightarrow> real \<Rightarrow> number \<Rightarrow> bool" where
  "inRange lo hi v = (Fin lo \<le> v \<and> v \<le> Fin hi)"

definition inRangeOrNaN :: "real \<Rightarrow> real \<Rightarrow> number \<Rightarrow> bool" where
  "inRangeOrNaN lo hi v = (v = NaN \<or> inRange lo hi v)"

text \<open>The player of the flat implementation lies fully inside the playfield.\<close>

definition inField0 :: "Player \<Rightarrow> bool" where
  "inField0 p = (inRange (osize p / 2) (GAME_WIDTH - osize p / 2) (vec_x (position p))
               \<and> inRange (osize p / 2) (GAME_HEIGHT - osize p / 2) (vec_y (position p)))"

definition nearField0 :: "Player \<Rightarrow> bool" where
  "nearField0 p = (inRangeOrNaN (osize p / 2) (GAME_WIDTH - osize p / 2) (vec_x (position p))
                 \<and> inRangeOrNaN (osize p / 2) (GAME_HEIGHT - osize p / 2) (vec_y (position p)))"

text \<open>What holds in every reachable state of the flat implementation.\<close>

definition inv0 :: "Game0 \<Rightarrow> bool" where
  "inv0 g = (0 \<le> score0 g \<and> 100 dvd score0 g \<and> hp0 g \<le> 3
             \<and> osize (player0 g) = PLAYER_SIZE \<and> nearField0 (player0 g)
             \<and> list_all bulletKept0 (bullets0 g) \<and> list_all enemyKept0 (enemies0 g)
             \<and> length (stars0 g) = STAR_COUNT)"

text \<open>The hit points are in range and tell the phase.\<close>

definition hpOK :: "Game \<Rightarrow> bool" where
  "hpOK g = (0 \<le> hp g \<and> hp g \<le> 3 \<and> (hp g = 0 \<longleftrightarrow> gameState g = GameOver))"

text \<open>The star entities that \<^verbatim>\<open>reset\<close> creates: ids 3 to 52, after the player and the input.\<close>

definition starsOf :: "Game \<Rightarrow> ResetEnv \<Rightarrow> Entity list" where
  "starsOf g r = map (\<lambda>i. buildStar g r i (blank (3 + i))) [0..<STAR_COUNT]"

text \<open>Draws and ticks used to instantiate the theorems: every draw 0, and a tick on which no enemy spawns.\<close>

definition zeroDraws :: ResetEnv where
  "zeroDraws = \<lparr>resetNow = 0, rBright = (\<lambda>_. 0), rPosX = (\<lambda>_. 0), rPosY = (\<lambda>_. 0),
                 rVelY = (\<lambda>_. 0), rSize = (\<lambda>_. 0)\<rparr>"

definition quiet :: "int \<Rightarrow> Env" where
  "quiet t = \<lparr>now = t, spawnRoll = 1 / 2, spawnX = 0, starX = (\<lambda>_. 0), starVy = (\<lambda>_. 0)\<rparr>"

text \<open>The clamping step of \<^verbatim>\<open>system_Movement\<close> on one entity.\<close>

definition clampIf :: "real \<Rightarrow> real \<Rightarrow> Entity \<Rightarrow> Entity" where
  "clampIf w h p = (if list_all (has p) [C_PLAYER, C_POSITION, C_RENDER] then clampPlayer w h p else p)"

text \<open>
  The number of bullets that the collision system run on \<open>g\<close> finds overlapping an
  enemy, and the state on which the collision system of a playing tick runs.
\<close>

definition hits :: "Game \<Rightarrow> nat" where
  "hits g = length (filter (\<lambda>b. list_ex (overlap b) (findAllWith g [C_ENEMY, C_POSITION, C_RENDER]))
                          (findAllWith g [C_BULLET, C_POSITION, C_RENDER]))"

text \<open>
  The enemies that the bullet pass of the flat version, run on \<open>g\<close>, finds overlapped
  by a bullet of the player, and the other enemies.
\<close>

definition struck0 :: "Game0 \<Rightarrow> Enemy list" where
  "struck0 g = filter (\<lambda>e. list_ex (\<lambda>b. owner b = OwnerPlayer \<and> isColliding b e) (bullets0 g))
                      (enemies0 g)"

definition spared0 :: "Game0 \<Rightarrow> Enemy list" where
  "spared0 g = filter (\<lambda>e. \<not> list_ex (\<lambda>b. owner b = OwnerPlayer \<and> isColliding b e) (bullets0 g))
                      (enemies0 g)"

definition beforeCollision :: "Env \<Rightarrow> int \<Rightarrow> Game \<Rightarrow> Game" where
  "beforeCollision env dt g =
     system_Movement env dt (system_EnemySpawn env (system_Shooting env (system_InputToPlayer g)))"

definition beforeCollision0 :: "Env \<Rightarrow> Game0 \<Rightarrow> Game0" where
  "beforeCollision0 e g =
     spawnEnemy0 e (moveEnemies0 (moveBullets0 (moveStars0 e (fire0 e (movePlayer0 g)))))"







text \<open>
  From \<open>g\<close> to \<open>h\<close> nothing was created and the only change to the store is that some keys
  of the entities in \<open>D\<close> were deleted.
\<close>

definition destroys :: "Entity set \<Rightarrow> Game \<Rightarrow> Game \<Rightarrow> bool" where
  "destroys D g h = (nextId h = nextId g
                     \<and> (\<exists>S. S \<subseteq> eid ` D \<and> entities h = filter (\<lambda>x. eid x \<notin> S) (entities g)))"

section \<open>Firing over a run of ticks\<close>







section \<open>Concrete sessions of the flat implementation\<close>

text \<open>
  The star field after one tick, an enemy and a bullet as the code creates them, and the
  state of a session in which the player has not moved from the start position, nothing
  was hit yet, and no key is held.
\<close>

definition starsStep0 :: "Env \<Rightarrow> Star list \<Rightarrow> Star list" where
  "starsStep0 e S = map (\<lambda>(i, s). stepStar0 e i s) (enumerate 0 S)"

definition enemyAt :: "real \<Rightarrow> real \<Rightarrow> Enemy" where
  "enemyAt ex ey = \<lparr>position = createVector2 (Fin ex) (Fin ey),
                    velocity = createVector2 (Fin 0) (Fin ENEMY_SPEED),
                    osize = ENEMY_SIZE, color = ''#ff4444'', active = True, etype = Basic\<rparr>"

definition bulletAt :: "real \<Rightarrow> real \<Rightarrow> Bullet" where
  "bulletAt bx by = \<lparr>position = createVector2 (Fin bx) (Fin by),
                     velocity = createVector2 (Fin 0) (Fin (- BULLET_SPEED)),
                     osize = BULLET_SIZE, color = ''#ffff00'', active = True, owner = OwnerPlayer\<rparr>"

definition idle0 :: "Star list \<Rightarrow> int \<Rightarrow> Bullet list \<Rightarrow> Enemy list \<Rightarrow> Game0" where
  "idle0 S t bs es = \<lparr>score0 = 0, hp0 = 3, gameState0 = Playing, player0 = newPlayer0,
                      bullets0 = bs, enemies0 = es, stars0 = S, input0 = initInput0,
                      lastFireTime0 = t\<rparr>"

text \<open>A tick at clock \<open>t\<close> on which an enemy spawns, with spawn draw \<open>r\<close>.\<close>

definition spawning :: "int \<Rightarrow> real \<Rightarrow> Env" where
  "spawning t r = \<lparr>now = t, spawnRoll = 1 / 100, spawnX = r, starX = (\<lambda>_. 0), starVy = (\<lambda>_. 0)\<rparr>"

text \<open>The enemy a tick spawns, if any.\<close>

definition spawned0 :: "Env \<Rightarrow> Enemy list" where
  "spawned0 e = (if spawnRoll e < ENEMY_SPAWN_RATE
                 then [enemyAt (spawnX e * (GAME_WIDTH - ENEMY_SIZE)) (- ENEMY_SIZE)] else [])"

text \<open>
  \<open>n\<close> ticks on which nothing spawns, from the \<open>a\<close>-th tick of the session on; the
  \<open>k\<close>-th tick reads the clock at \<open>1000 + 17 k\<close> ms.
\<close>

definition ticks :: "nat \<Rightarrow> nat \<Rightarrow> Env list" where
  "ticks a n = map (\<lambda>k. quiet (1000 + 17 * int k)) [a ..< a + n]"

text \<open>
  Session 1: four enemies spawn on the first four ticks, left and right of the idle
  player; 337 ticks later they are just outside its reach, and tick 342 brings all four
  within reach at once.
\<close>

definition spawns1 :: "Env list" where
  "spawns1 = [spawning 1017 (31 / 64), spawning 1034 (9 / 16), spawning 1051 (1 / 2),
              spawning 1068 (17 / 32)]"

definition session1 :: "Env list" where
  "session1 = spawns1 @ ticks 5 337 @ ticks 342 1"

text \<open>
  Session 2: the player fires once on the first tick, on which an enemy spawns straight
  above it; a second enemy spawns on the second tick at the same abscissa. After 60
  ticks the bullet is just below the two enemies.
\<close>

definition shootHeld0 :: Input0 where
  "shootHeld0 = initInput0\<lparr>shoot := True\<rparr>"

definition session2_fired :: Game0 where
  "session2_fired = update0 (spawning 1017 (10 / 19)) ((construct0 zeroDraws)\<lparr>input0 := shootHeld0\<rparr>)"

definition session2_before :: Game0 where
  "session2_before = run0 (spawning 1034 (10 / 19) # ticks 3 58) (session2_fired\<lparr>input0 := initInput0\<rparr>)"

section \<open>Concrete sessions of the entity-component implementation\<close>

text \<open>
  The player entity at the start position and at rest, the input entity, an enemy and a
  bullet as the systems create them, and the state of a session in which the player has
  not moved: the store holds the player, the input, the stars \<open>S\<close> and then whatever
  was created since, \<open>E\<close>.
\<close>

definition pilot :: Entity where
  "pilot = (blank 1)\<lparr>c_position := Some (createVector2 (Fin 160) (Fin 508)),
                      c_velocity := Some (createVector2 (Fin 0) (Fin 0)),
                      c_render := Some \<lparr>rcolor = ''#00ff88'', rsize = PLAYER_SIZE\<rparr>,
                      c_player := Some 3\<rparr>"

definition console :: "Input \<Rightarrow> Entity" where
  "console inp = (blank 2)\<lparr>c_input := Some inp\<rparr>"

definition enemyE :: "nat \<Rightarrow> real \<Rightarrow> real \<Rightarrow> Entity" where
  "enemyE i ex ey = (blank i)\<lparr>c_position := Some (createVector2 (Fin ex) (Fin ey)),
                               c_velocity := Some (createVector2 (Fin 0) (Fin ENEMY_SPEED)),
                               c_render := Some \<lparr>rcolor = ''#ff4444'', rsize = ENEMY_SIZE\<rparr>,
                               c_enemy := Some ''basic''\<rparr>"

definition bulletE :: "nat \<Rightarrow> real \<Rightarrow> real \<Rightarrow> int \<Rightarrow> Entity" where
  "bulletE i bx by ttl = (blank i)\<lparr>c_position := Some (createVector2 (Fin bx) (Fin by)),
                                    c_velocity := Some (createVector2 (Fin 0) (Fin (- BULLET_SPEED))),
                                    c_render := Some \<lparr>rcolor = ''#ffff00'', rsize = BULLET_SIZE\<rparr>,
                                    c_bullet := Some \<lparr>bowner = ''player'', damage = 1\<rparr>,
                                    c_lifetime := Some ttl\<rparr>"

definition arena :: "nat \<Rightarrow> Input \<Rightarrow> Entity list \<Rightarrow> Entity list \<Rightarrow> int \<Rightarrow> int \<Rightarrow> GameState \<Rightarrow> int \<Rightarrow> Game" where
  "arena n inp S E sc h st t =
     \<lparr>nextId = n, entities = pilot # console inp # S @ E, score = sc, hp = h, gameState = st,
      lastFireTime = t, width = GAME_WIDTH, height = GAME_HEIGHT\<rparr>"

text \<open>Stars are nothing but stars, under the keys 3 to 52; what is created later has a key from 53 on.\<close>

definition starsOK :: "Entity list \<Rightarrow> bool" where
  "starsOK S = list_all (\<lambda>e. c_star e \<noteq> None \<and> c_player e = None \<and> c_bullet e = None \<and> c_enemy e = None
                               \<and> c_input e = None \<and> c_lifetime e = None \<and> 3 \<le> eid e \<and> eid e < 53) S"

definition foesOK :: "Entity list \<Rightarrow> bool" where
  "foesOK E = list_all (\<lambda>e. c_star e = None \<and> c_player e = None \<and> c_input e = None \<and> 53 \<le> eid e) E"

text \<open>No movement intent in the input: the player stays at rest.\<close>

definition still :: "Input \<Rightarrow> bool" where
  "still inp = (\<not> left inp \<and> \<not> right inp \<and> \<not> up inp \<and> \<not> down inp \<and> \<not> touching inp)"

definition idleInput :: Input where
  "idleInput = \<lparr>left = False, right = False, up = False, down = False, shoot = False,
                touching = False, mousePos = createVector2 (Fin 160) (Fin 508)\<rparr>"

text \<open>The movement of an entity that is not a star does not depend on the draws.\<close>

definition glide :: "int \<Rightarrow> Entity \<Rightarrow> Entity" where
  "glide dt = moveEntity (quiet 0) dt GAME_WIDTH GAME_HEIGHT"

definition starsMove :: "Env \<Rightarrow> int \<Rightarrow> Entity list \<Rightarrow> Entity list" where
  "starsMove env dt S = map (moveEntity env dt GAME_WIDTH GAME_HEIGHT) S"

text \<open>What the shooting and the spawning system append to the store on a tick.\<close>

definition firedE :: "Env \<Rightarrow> Input \<Rightarrow> int \<Rightarrow> nat \<Rightarrow> Entity list" where
  "firedE env inp t n = (if shoot inp \<and> now env - t > BULLET_FIRE_RATE then [bulletE n 160 508 3000] else [])"

definition spawnedE :: "Env \<Rightarrow> nat \<Rightarrow> Entity list" where
  "spawnedE env n = (if spawnRoll env < ENEMY_SPAWN_RATE
                     then [enemyE n (spawnX env * 304 + 8) (- 16)] else [])"

text \<open>
  \<open>n\<close> ticks on which nothing spawns, from the \<open>a\<close>-th tick of the session on, each with
  \<^verbatim>\<open>dtMs\<close> = 17; and the stars after a run of ticks.
\<close>

definition eticks :: "nat \<Rightarrow> nat \<Rightarrow> (Env \<times> int) list" where
  "eticks a n = map (\<lambda>k. (quiet (1000 + 17 * int k), 17)) [a ..< a + n]"

definition starsRun :: "(Env \<times> int) list \<Rightarrow> Entity list \<Rightarrow> Entity list" where
  "starsRun envs S = fold (\<lambda>(e, d). starsMove e d) envs S"

text \<open>
  Session 3: three enemies spawn straight above the idle player on the first three
  ticks and a fourth at the left edge on the fourth tick. The three reach the player on
  ticks 338, 339 and 340, which ends the game; the fourth drifts on and is 37 units below
  the playfield after tick 417.
\<close>

definition spawns3 :: "(Env \<times> int) list" where
  "spawns3 = [(spawning 1017 (1 / 2), 17), (spawning 1034 (1 / 2), 17), (spawning 1051 (1 / 2), 17),
              (spawning 1068 0, 17)]"

definition session3 :: "(Env \<times> int) list" where
  "session3 = spawns3 @ eticks 5 333 @ eticks 338 3 @ eticks 341 77"

text \<open>The star entities of the constructor's \<^verbatim>\<open>reset(true)\<close>.\<close>

definition firstStars :: "ResetEnv \<Rightarrow> Entity list" where
  "firstStars r = starsOf \<lparr>nextId = 1, entities = [], score = 0, hp = 3, gameState = Playing,
                            lastFireTime = 0, width = GAME_WIDTH, height = GAME_HEIGHT\<rparr> r"





section \<open>Pointer events, and sessions whose pointer positions are finite\<close>



text \<open>\<^verbatim>\<open>Number.isFinite\<close>, on a number and on both coordinates of a vector.\<close>

fun isFinite :: "number \<Rightarrow> bool" where
  "isFinite (Fin r) = True"
| "isFinite PInf = False"
| "isFinite NInf = False"
| "isFinite NaN = False"

definition finiteVec :: "Vec2 \<Rightarrow> bool" where
  "finiteVec v = (isFinite (vec_x v) \<and> isFinite (vec_y v))"














section \<open>Sessions that lead to an eviction\<close>

text \<open>
  Sessions 7 (entity-component version) and 8 (flat version): an enemy spawns at the left
  edge on the first tick, nothing else ever spawns and no key is held. The enemy passes
  the idle player; after 413 ticks (session 7) and 407 ticks (session 8) it is one tick
  away from the eviction bound of its version.
\<close>

definition session7 :: "(Env \<times> int) list" where
  "session7 = (spawning 1017 0, 17) # eticks 2 412"

definition session8 :: "Env list" where
  "session8 = spawning 1017 0 # ticks 2 406"


section \<open>Arithmetic on finite numbers\<close>

lemma minus_number [simp]: "(a :: number) - b = a + (- b)"
  by (simp add: minus_number_def)

lemma squares_not_negative [simp]: "\<not> (a :: real) * a + b * b < 0"
  by (simp add: not_less)

lemma Math_sqrt_squares [simp]: "Math_sqrt (Fin (a * a + b * b)) = Fin (sqrt (a * a + b * b))"
  by simp

lemma Math_hypot_Fin [simp]: "Math_hypot (Fin a) (Fin b) = Fin (sqrt (a * a + b * b))"
  by (simp add: Math_hypot_def)

lemma Math_min_Fin [simp]: "Math_min (Fin a) (Fin b) = Fin (min a b)"
  by (simp add: Math_min_def min_def)

lemma Math_max_Fin [simp]: "Math_max (Fin a) (Fin b) = Fin (max a b)"
  by (simp add: Math_max_def max_def)

lemma clamp_Fin [simp]: "clamp (Fin v) (Fin mn) (Fin mx) = Fin (max mn (min mx v))"
  by (simp add: clamp_def)

lemma lerp_Fin [simp]: "lerp (Fin a) (Fin b) (Fin t) = Fin (a + (b - a) * t)"
  by (simp add: lerp_def)

lemma distance0_Fin [simp]:
  "distance0 \<lparr>vec_x = Fin a, vec_y = Fin b\<rparr> \<lparr>vec_x = Fin c, vec_y = Fin d\<rparr>
     = Fin (sqrt ((a - c) * (a - c) + (b - d) * (b - d)))"
  by (simp add: distance0_def)

lemma distance_Fin [simp]:
  "distance \<lparr>vec_x = Fin a, vec_y = Fin b\<rparr> \<lparr>vec_x = Fin c, vec_y = Fin d\<rparr>
     = Fin (sqrt ((a - c) * (a - c) + (b - d) * (b - d)))"
  by (simp add: distance_def)

text \<open>Clamping between finite bounds: the result is NaN or lies between the bounds.\<close>

lemma clamp_cases:
  assumes "mn \<le> mx"
  shows "clamp v (Fin mn) (Fin mx) = (if v = NaN then NaN else Fin (case v of Fin r \<Rightarrow> max mn (min mx r) | PInf \<Rightarrow> mx | _ \<Rightarrow> mn))"
  using assms by (cases v) (simp_all add: clamp_def Math_min_def Math_max_def max_def min_def)

lemma clamp_inRangeOrNaN: "mn \<le> mx \<Longrightarrow> inRangeOrNaN mn mx (clamp v (Fin mn) (Fin mx))"
  by (cases v) (simp_all add: clamp_cases inRangeOrNaN_def inRange_def)

section \<open>Lemmas about the flat implementation\<close>

subsection \<open>The two collision passes in closed form\<close>

lemma scanEnemies0_eq:
  "scanEnemies0 b es acc =
     ((fst acc \<or> list_ex (isColliding b) es,
       snd acc + 100 * int (length (filter (isColliding b) es))),
      filter (\<lambda>e. \<not> isColliding b e) es)"
  by (induction es arbitrary: acc) (auto split: prod.splits)

lemma playerPass0_eq:
  "playerPass0 p es acc =
     ((fst acc - int (length (filter (isColliding p) es)),
       if list_ex (isColliding p) es \<and> fst acc - int (length (filter (isColliding p) es)) \<le> 0
       then GameOver else snd acc),
      filter (\<lambda>e. \<not> isColliding p e) es)"
proof (induction es arbitrary: acc)
  case Nil
  then show ?case by simp
next
  case (Cons e es)
  show ?case
  proof (cases "isColliding p e")
    case True
    then show ?thesis using Cons.IH[of "(fst acc - 1, if fst acc - 1 \<le> 0 then GameOver else snd acc)"]
      by (auto simp: list_ex_iff)
  next
    case False
    then show ?thesis using Cons.IH[of acc] by (auto split: prod.splits)
  qed
qed

lemma bulletPass0_Cons:
  "bulletPass0 (b # bs) g =
     (if owner b = OwnerPlayer
      then (let r = bulletPass0 bs (g\<lparr>enemies0 := filter (\<lambda>e. \<not> isColliding b e) (enemies0 g),
                                      score0 := score0 g + 100 * int (length (filter (isColliding b) (enemies0 g)))\<rparr>)
            in (if list_ex (isColliding b) (enemies0 g) then fst r else b # fst r, snd r))
      else (b # fst (bulletPass0 bs g), snd (bulletPass0 bs g)))"
  by (simp add: scanEnemies0_eq Let_def split: prod.splits)

lemma bulletPass0_hp [simp]: "hp0 (snd (bulletPass0 bs g)) = hp0 g"
  by (induction bs arbitrary: g) (simp_all add: bulletPass0_Cons Let_def del: bulletPass0.simps(2))

lemma bulletPass0_gameState [simp]: "gameState0 (snd (bulletPass0 bs g)) = gameState0 g"
  by (induction bs arbitrary: g) (simp_all add: bulletPass0_Cons Let_def del: bulletPass0.simps(2))

lemma bulletPass0_player [simp]: "player0 (snd (bulletPass0 bs g)) = player0 g"
  by (induction bs arbitrary: g) (simp_all add: bulletPass0_Cons Let_def del: bulletPass0.simps(2))

lemma bulletPass0_stars [simp]: "stars0 (snd (bulletPass0 bs g)) = stars0 g"
  by (induction bs arbitrary: g) (simp_all add: bulletPass0_Cons Let_def del: bulletPass0.simps(2))

lemma bulletPass0_input [simp]: "input0 (snd (bulletPass0 bs g)) = input0 g"
  by (induction bs arbitrary: g) (simp_all add: bulletPass0_Cons Let_def del: bulletPass0.simps(2))

lemma bulletPass0_lastFire [simp]: "lastFireTime0 (snd (bulletPass0 bs g)) = lastFireTime0 g"
  by (induction bs arbitrary: g) (simp_all add: bulletPass0_Cons Let_def del: bulletPass0.simps(2))

lemma bulletPass0_kept: "set (fst (bulletPass0 bs g)) \<subseteq> set bs"
  by (induction bs arbitrary: g) (auto simp: bulletPass0_Cons Let_def simp del: bulletPass0.simps(2))

lemma bulletPass0_enemies: "set (enemies0 (snd (bulletPass0 bs g))) \<subseteq> set (enemies0 g)"
proof (induction bs arbitrary: g)
  case Nil
  show ?case by simp
next
  case (Cons b bs)
  let ?g1 = "g\<lparr>enemies0 := filter (\<lambda>e. \<not> isColliding b e) (enemies0 g),
               score0 := score0 g + 100 * int (length (filter (isColliding b) (enemies0 g)))\<rparr>"
  have "set (enemies0 (snd (bulletPass0 bs ?g1))) \<subseteq> set (enemies0 g)"
    using Cons.IH[of ?g1] by auto
  with Cons.IH[of g] show ?case
    by (simp add: bulletPass0_Cons Let_def del: bulletPass0.simps(2))
qed

lemma length_filter_split:
  "int (length (filter P xs)) = int (length xs) - int (length (filter (\<lambda>x. \<not> P x) xs))"
  using sum_length_filter_compl[of P xs] by linarith

lemma bulletPass0_score:
  "score0 (snd (bulletPass0 bs g)) =
     score0 g + 100 * (int (length (enemies0 g)) - int (length (enemies0 (snd (bulletPass0 bs g)))))
   \<and> length (enemies0 (snd (bulletPass0 bs g))) \<le> length (enemies0 g)"
proof (induction bs arbitrary: g)
  case Nil
  show ?case by simp
next
  case (Cons b bs)
  let ?g1 = "g\<lparr>enemies0 := filter (\<lambda>e. \<not> isColliding b e) (enemies0 g),
               score0 := score0 g + 100 * int (length (filter (isColliding b) (enemies0 g)))\<rparr>"
  show ?case
  proof (cases "owner b = OwnerPlayer")
    case True
    then have eq: "snd (bulletPass0 (b # bs) g) = snd (bulletPass0 bs ?g1)"
      by (simp add: bulletPass0_Cons Let_def del: bulletPass0.simps(2))
    have le: "length (filter (\<lambda>e. \<not> isColliding b e) (enemies0 g)) \<le> length (enemies0 g)"
      by (rule length_filter_le)
    show ?thesis
      unfolding eq using Cons.IH[of ?g1] le length_filter_split[of "isColliding b" "enemies0 g"]
      by simp
  next
    case False
    then have eq: "snd (bulletPass0 (b # bs) g) = snd (bulletPass0 bs g)"
      by (simp add: bulletPass0_Cons del: bulletPass0.simps(2))
    show ?thesis unfolding eq by (rule Cons.IH)
  qed
qed

lemma bulletHits0_alt: "bulletHits0 g = (snd (bulletPass0 (bullets0 g) g))\<lparr>bullets0 := fst (bulletPass0 (bullets0 g) g)\<rparr>"
  by (simp add: bulletHits0_def split: prod.splits)

lemma bulletHits0_fields [simp]:
  "hp0 (bulletHits0 g) = hp0 g" "gameState0 (bulletHits0 g) = gameState0 g"
  "player0 (bulletHits0 g) = player0 g" "stars0 (bulletHits0 g) = stars0 g"
  "input0 (bulletHits0 g) = input0 g" "lastFireTime0 (bulletHits0 g) = lastFireTime0 g"
  by (simp_all add: bulletHits0_alt)

lemma bulletHits0_score:
  "score0 (bulletHits0 g) =
     score0 g + 100 * (int (length (enemies0 g)) - int (length (enemies0 (bulletHits0 g))))"
  "length (enemies0 (bulletHits0 g)) \<le> length (enemies0 g)"
  using bulletPass0_score[of "bullets0 g" g] by (simp_all add: bulletHits0_alt)

lemma bulletHits0_subset:
  "set (bullets0 (bulletHits0 g)) \<subseteq> set (bullets0 g)"
  "set (enemies0 (bulletHits0 g)) \<subseteq> set (enemies0 g)"
  using bulletPass0_kept[of "bullets0 g" g] bulletPass0_enemies[of "bullets0 g" g]
  by (simp_all add: bulletHits0_alt)

subsection \<open>What each phase of \<^verbatim>\<open>update\<close> leaves alone\<close>

lemma playerHits0_fields [simp]:
  "score0 (playerHits0 g) = score0 g" "player0 (playerHits0 g) = player0 g"
  "stars0 (playerHits0 g) = stars0 g" "input0 (playerHits0 g) = input0 g"
  "lastFireTime0 (playerHits0 g) = lastFireTime0 g" "bullets0 (playerHits0 g) = bullets0 g"
  "enemies0 (playerHits0 g) = filter (\<lambda>e. \<not> isColliding (player0 g) e) (enemies0 g)"
  "hp0 (playerHits0 g) = hp0 g - int (length (filter (isColliding (player0 g)) (enemies0 g)))"
  by (simp_all add: playerHits0_def playerPass0_eq)

lemma playerHits0_state:
  "gameState0 (playerHits0 g) =
     (if list_ex (isColliding (player0 g)) (enemies0 g) \<and> hp0 (playerHits0 g) \<le> 0
      then GameOver else gameState0 g)"
  by (simp add: playerHits0_def playerPass0_eq)

lemma update0_gameOver: "gameState0 g = GameOver \<Longrightarrow> update0 e g = g"
  by (simp add: update0_def)

lemma movePlayer0_fields [simp]:
  "score0 (movePlayer0 g) = score0 g" "hp0 (movePlayer0 g) = hp0 g"
  "gameState0 (movePlayer0 g) = gameState0 g" "bullets0 (movePlayer0 g) = bullets0 g"
  "enemies0 (movePlayer0 g) = enemies0 g" "stars0 (movePlayer0 g) = stars0 g"
  "input0 (movePlayer0 g) = input0 g" "lastFireTime0 (movePlayer0 g) = lastFireTime0 g"
  by (simp_all add: movePlayer0_def Let_def)

lemma fire0_fields [simp]:
  "score0 (fire0 e g) = score0 g" "hp0 (fire0 e g) = hp0 g"
  "gameState0 (fire0 e g) = gameState0 g" "player0 (fire0 e g) = player0 g"
  "enemies0 (fire0 e g) = enemies0 g" "stars0 (fire0 e g) = stars0 g"
  "input0 (fire0 e g) = input0 g"
  by (simp_all add: fire0_def)

lemma moveStars0_fields [simp]:
  "score0 (moveStars0 e g) = score0 g" "hp0 (moveStars0 e g) = hp0 g"
  "gameState0 (moveStars0 e g) = gameState0 g" "player0 (moveStars0 e g) = player0 g"
  "bullets0 (moveStars0 e g) = bullets0 g" "enemies0 (moveStars0 e g) = enemies0 g"
  "input0 (moveStars0 e g) = input0 g" "lastFireTime0 (moveStars0 e g) = lastFireTime0 g"
  by (simp_all add: moveStars0_def)

lemma moveBullets0_fields [simp]:
  "score0 (moveBullets0 g) = score0 g" "hp0 (moveBullets0 g) = hp0 g"
  "gameState0 (moveBullets0 g) = gameState0 g" "player0 (moveBullets0 g) = player0 g"
  "enemies0 (moveBullets0 g) = enemies0 g" "stars0 (moveBullets0 g) = stars0 g"
  "input0 (moveBullets0 g) = input0 g" "lastFireTime0 (moveBullets0 g) = lastFireTime0 g"
  by (simp_all add: moveBullets0_def)

lemma moveEnemies0_fields [simp]:
  "score0 (moveEnemies0 g) = score0 g" "hp0 (moveEnemies0 g) = hp0 g"
  "gameState0 (moveEnemies0 g) = gameState0 g" "player0 (moveEnemies0 g) = player0 g"
  "bullets0 (moveEnemies0 g) = bullets0 g" "stars0 (moveEnemies0 g) = stars0 g"
  "input0 (moveEnemies0 g) = input0 g" "lastFireTime0 (moveEnemies0 g) = lastFireTime0 g"
  by (simp_all add: moveEnemies0_def)

lemma spawnEnemy0_fields [simp]:
  "score0 (spawnEnemy0 e g) = score0 g" "hp0 (spawnEnemy0 e g) = hp0 g"
  "gameState0 (spawnEnemy0 e g) = gameState0 g" "player0 (spawnEnemy0 e g) = player0 g"
  "bullets0 (spawnEnemy0 e g) = bullets0 g" "stars0 (spawnEnemy0 e g) = stars0 g"
  "input0 (spawnEnemy0 e g) = input0 g" "lastFireTime0 (spawnEnemy0 e g) = lastFireTime0 g"
  by (simp_all add: spawnEnemy0_def)

text \<open>The state on which the two collision passes of a playing tick run.\<close>

lemma update0_playing:
  "gameState0 g \<noteq> GameOver \<Longrightarrow>
     update0 e g = playerHits0 (bulletHits0 (spawnEnemy0 e (moveEnemies0 (moveBullets0
                     (moveStars0 e (fire0 e (movePlayer0 g)))))))"
  by (simp add: update0_def)

lemma update0_score_mono: "score0 g \<le> score0 (update0 e g)"
proof (cases "gameState0 g = GameOver")
  case True
  then show ?thesis by (simp add: update0_gameOver)
next
  case False
  let ?h = "spawnEnemy0 e (moveEnemies0 (moveBullets0 (moveStars0 e (fire0 e (movePlayer0 g)))))"
  have "score0 ?h = score0 g" by simp
  with bulletHits0_score[of ?h] show ?thesis
    by (simp add: update0_playing[OF False])
qed

lemma update0_score_step: "100 dvd (score0 (update0 e g) - score0 g)"
proof (cases "gameState0 g = GameOver")
  case True
  then show ?thesis by (simp add: update0_gameOver)
next
  case False
  let ?h = "spawnEnemy0 e (moveEnemies0 (moveBullets0 (moveStars0 e (fire0 e (movePlayer0 g)))))"
  have "score0 ?h = score0 g" by simp
  with bulletHits0_score(1)[of ?h] show ?thesis
    by (simp add: update0_playing[OF False])
qed

lemma update0_hp: "hp0 (update0 e g) \<le> hp0 g"
  by (cases "gameState0 g = GameOver") (simp_all add: update0_gameOver update0_playing)

subsection \<open>Invariants of the flat implementation\<close>

lemma movePlayer0_player:
  "osize (player0 (movePlayer0 g)) = osize (player0 g)"
  "osize (player0 g) = PLAYER_SIZE \<Longrightarrow> nearField0 (player0 (movePlayer0 g))"
  by (simp_all add: movePlayer0_def Let_def nearField0_def createVector2_def clamp_inRangeOrNaN
        PLAYER_SIZE_def GAME_WIDTH_def GAME_HEIGHT_def)

lemma update0_player_size: "osize (player0 (update0 e g)) = osize (player0 g)"
  by (cases "gameState0 g = GameOver")
     (simp_all add: update0_gameOver update0_playing movePlayer0_player)

lemma update0_player_clamped:
  "gameState0 g \<noteq> GameOver \<Longrightarrow> osize (player0 g) = PLAYER_SIZE \<Longrightarrow> nearField0 (player0 (update0 e g))"
  by (simp add: update0_playing movePlayer0_player)

lemma update0_bullets_kept:
  assumes "gameState0 g \<noteq> GameOver"
  shows "\<forall>b \<in> set (bullets0 (update0 e g)). bulletKept0 b"
proof -
  let ?m = "moveStars0 e (fire0 e (movePlayer0 g))"
  let ?h = "spawnEnemy0 e (moveEnemies0 (moveBullets0 ?m))"
  have "set (bullets0 (update0 e g)) \<subseteq> set (bullets0 ?h)"
    using bulletHits0_subset(1)[of ?h] by (simp add: update0_playing[OF assms])
  moreover have "bullets0 ?h = filter bulletKept0 (map advance (bullets0 ?m))"
    by (simp add: moveBullets0_def)
  ultimately show ?thesis by auto
qed

lemma spawnEnemy0_kept:
  "\<forall>x \<in> set (enemies0 g). enemyKept0 x \<Longrightarrow> \<forall>x \<in> set (enemies0 (spawnEnemy0 e g)). enemyKept0 x"
  by (simp add: spawnEnemy0_def enemyKept0_def createVector2_def ENEMY_SIZE_def GAME_HEIGHT_def)

lemma update0_enemies_kept:
  assumes "gameState0 g \<noteq> GameOver"
  shows "\<forall>x \<in> set (enemies0 (update0 e g)). enemyKept0 x"
proof -
  let ?m = "moveBullets0 (moveStars0 e (fire0 e (movePlayer0 g)))"
  let ?h = "spawnEnemy0 e (moveEnemies0 ?m)"
  have "\<forall>x \<in> set (enemies0 (moveEnemies0 ?m)). enemyKept0 x"
    by (simp add: moveEnemies0_def)
  then have k: "\<forall>x \<in> set (enemies0 ?h). enemyKept0 x" by (rule spawnEnemy0_kept)
  have "set (enemies0 (update0 e g)) \<subseteq> set (enemies0 (bulletHits0 ?h))"
    by (auto simp add: update0_playing[OF assms])
  with bulletHits0_subset(2)[of ?h] k show ?thesis by blast
qed

lemma length_initStars0: "length (initStars0 r) = STAR_COUNT"
  by (simp add: initStars0_def)

lemma update0_stars: "length (stars0 (update0 e g)) = length (stars0 g)"
  by (cases "gameState0 g = GameOver")
     (simp_all add: update0_gameOver update0_playing moveStars0_def)

lemma newPlayer0_inField: "inField0 newPlayer0" "osize newPlayer0 = PLAYER_SIZE" "nearField0 newPlayer0"
  by (simp_all add: inField0_def nearField0_def inRangeOrNaN_def inRange_def newPlayer0_def
        createVector2_def PLAYER_SIZE_def GAME_WIDTH_def GAME_HEIGHT_def)

lemma inv0_update0: assumes "inv0 g" shows "inv0 (update0 e g)"
proof (cases "gameState0 g = GameOver")
  case True
  with assms show ?thesis by (simp add: update0_gameOver)
next
  case False
  have "100 dvd (score0 (update0 e g) - score0 g) + score0 g"
    using assms update0_score_step[of e g] by (intro dvd_add) (simp_all add: inv0_def)
  then have s: "0 \<le> score0 (update0 e g)" "100 dvd score0 (update0 e g)"
    using assms update0_score_mono[of g e] by (simp_all add: inv0_def)
  have h: "hp0 (update0 e g) \<le> 3" using assms update0_hp[of e g] by (simp add: inv0_def)
  have p: "osize (player0 (update0 e g)) = PLAYER_SIZE" "nearField0 (player0 (update0 e g))"
    using assms False by (simp_all add: inv0_def update0_player_size update0_player_clamped)
  have k: "list_all bulletKept0 (bullets0 (update0 e g))" "list_all enemyKept0 (enemies0 (update0 e g))"
    using update0_bullets_kept[OF False, of e] update0_enemies_kept[OF False, of e]
    by (simp_all add: list_all_iff)
  have l: "length (stars0 (update0 e g)) = STAR_COUNT"
    using assms by (simp add: inv0_def update0_stars)
  from s h p k l show ?thesis by (simp add: inv0_def)
qed

lemma reachable0_inv0: "reachable0 g \<Longrightarrow> inv0 g"
proof (induction rule: reachable0.induct)
  case (r0_init r)
  show ?case by (simp add: inv0_def construct0_def newPlayer0_inField length_initStars0)
next
  case (r0_tick g e)
  then show ?case by (simp add: inv0_update0)
next
  case (r0_reset g r)
  then show ?case by (simp add: inv0_def reset0_def newPlayer0_inField length_initStars0)
next
  case (r0_input g i)
  then show ?case by (simp add: inv0_def)
qed

section \<open>Lemmas about the entity-component implementation\<close>

subsection \<open>What each system leaves alone\<close>

lemma destroyEntity_fields [simp]:
  "score (destroyEntity e g) = score g" "hp (destroyEntity e g) = hp g"
  "gameState (destroyEntity e g) = gameState g" "lastFireTime (destroyEntity e g) = lastFireTime g"
  "nextId (destroyEntity e g) = nextId g" "width (destroyEntity e g) = width g"
  "height (destroyEntity e g) = height g"
  "entities (destroyEntity e g) = filter (\<lambda>x. eid x \<noteq> eid e) (entities g)"
  by (simp_all add: destroyEntity_def)

lemma createEntity_fields [simp]:
  "score (createEntity b g) = score g" "hp (createEntity b g) = hp g"
  "gameState (createEntity b g) = gameState g" "lastFireTime (createEntity b g) = lastFireTime g"
  "nextId (createEntity b g) = nextId g + 1" "width (createEntity b g) = width g"
  "height (createEntity b g) = height g"
  "entities (createEntity b g) = entities g @ [b (blank (nextId g))]"
  by (simp_all add: createEntity_def)

text \<open>A loop that deletes the keys of the entities a test selects.\<close>

lemma fold_destroy:
  "fold (\<lambda>e h. if P e then destroyEntity e h else h) xs g =
     g\<lparr>entities := filter (\<lambda>x. \<not> list_ex (\<lambda>e. P e \<and> eid x = eid e) xs) (entities g)\<rparr>"
proof (induction xs arbitrary: g)
  case Nil
  show ?case by simp
next
  case (Cons a xs)
  show ?case
    by (auto simp add: Cons.IH destroyEntity_def intro!: filter_cong)
qed

lemma system_Cleanup_eq:
  "system_Cleanup g =
     g\<lparr>entities := filter (\<lambda>x. \<not> list_ex (\<lambda>e. outOfBounds (width g) (height g) e \<and> eid x = eid e)
                                   (entities g)) (entities g)\<rparr>"
  by (simp add: system_Cleanup_def fold_destroy)

lemma system_Movement_eq:
  "system_Movement env dt g =
     (let m = map (moveEntity env dt (width g) (height g)) (entities g)
      in g\<lparr>entities := map (\<lambda>p. if list_all (has p) [C_PLAYER, C_POSITION, C_RENDER]
                                  then clampPlayer (width g) (height g) p else p)
                            (filter (\<lambda>x. \<not> list_ex (\<lambda>e. expired e \<and> eid x = eid e) m) m)\<rparr>)"
  by (simp add: system_Movement_def fold_destroy Let_def)

lemma system_Movement_fields [simp]:
  "score (system_Movement env dt g) = score g" "hp (system_Movement env dt g) = hp g"
  "gameState (system_Movement env dt g) = gameState g"
  "lastFireTime (system_Movement env dt g) = lastFireTime g"
  "nextId (system_Movement env dt g) = nextId g" "width (system_Movement env dt g) = width g"
  "height (system_Movement env dt g) = height g"
  by (simp_all add: system_Movement_eq Let_def)

lemma system_Cleanup_fields [simp]:
  "score (system_Cleanup g) = score g" "hp (system_Cleanup g) = hp g"
  "gameState (system_Cleanup g) = gameState g" "lastFireTime (system_Cleanup g) = lastFireTime g"
  "nextId (system_Cleanup g) = nextId g" "width (system_Cleanup g) = width g"
  "height (system_Cleanup g) = height g"
  by (simp_all add: system_Cleanup_eq)

lemma system_InputToPlayer_fields [simp]:
  "score (system_InputToPlayer g) = score g" "hp (system_InputToPlayer g) = hp g"
  "gameState (system_InputToPlayer g) = gameState g"
  "lastFireTime (system_InputToPlayer g) = lastFireTime g"
  "nextId (system_InputToPlayer g) = nextId g" "width (system_InputToPlayer g) = width g"
  "height (system_InputToPlayer g) = height g"
  by (simp_all add: system_InputToPlayer_def split: list.splits option.splits)

lemma system_Shooting_fields [simp]:
  "score (system_Shooting env g) = score g" "hp (system_Shooting env g) = hp g"
  "gameState (system_Shooting env g) = gameState g"
  "width (system_Shooting env g) = width g" "height (system_Shooting env g) = height g"
  by (simp_all add: system_Shooting_def split: list.splits option.splits)

lemma system_EnemySpawn_fields [simp]:
  "score (system_EnemySpawn env g) = score g" "hp (system_EnemySpawn env g) = hp g"
  "gameState (system_EnemySpawn env g) = gameState g"
  "lastFireTime (system_EnemySpawn env g) = lastFireTime g"
  "width (system_EnemySpawn env g) = width g" "height (system_EnemySpawn env g) = height g"
  by (simp_all add: system_EnemySpawn_def)

lemma setInput_fields [simp]:
  "score (setInput u g) = score g" "hp (setInput u g) = hp g"
  "gameState (setInput u g) = gameState g" "lastFireTime (setInput u g) = lastFireTime g"
  "nextId (setInput u g) = nextId g" "width (setInput u g) = width g"
  "height (setInput u g) = height g"
  by (simp_all add: setInput_def)

text \<open>A loop whose every iteration keeps a property keeps it.\<close>

lemma fold_keeps: "(\<And>x h. I h \<Longrightarrow> I (f x h)) \<Longrightarrow> I g \<Longrightarrow> I (fold f xs g)"
  by (induction xs arbitrary: g) simp_all

lemma takeHit_fields [simp]:
  "score (takeHit g) = score g" "lastFireTime (takeHit g) = lastFireTime g"
  "nextId (takeHit g) = nextId g" "width (takeHit g) = width g" "height (takeHit g) = height g"
  "entities (takeHit g) = entities g"
  by (simp_all add: takeHit_def Let_def)

lemma playerLoop_keeps:
  fixes I :: "Game \<Rightarrow> 'a"
  assumes d: "\<And>h e. I (destroyEntity e h) = I h" and t: "\<And>h. I (takeHit h) = I h"
  shows "I (playerLoop es ps g) = I g"
proof -
  have inner: "I (fold (\<lambda>player h. if overlap enemy player then takeHit (destroyEntity enemy h) else h) ps h) = I h"
    for enemy h
    by (induction ps arbitrary: h) (simp_all add: d t)
  show ?thesis
    unfolding playerLoop_def by (induction es arbitrary: g) (simp_all add: inner)
qed

lemma playerLoop_fields [simp]:
  "score (playerLoop es ps g) = score g" "lastFireTime (playerLoop es ps g) = lastFireTime g"
  "nextId (playerLoop es ps g) = nextId g" "width (playerLoop es ps g) = width g"
  "height (playerLoop es ps g) = height g"
  by (rule playerLoop_keeps; simp)+

lemma scanEnemies_fields [simp]:
  "hp (scanEnemies b es g) = hp g" "gameState (scanEnemies b es g) = gameState g"
  "lastFireTime (scanEnemies b es g) = lastFireTime g"
  "nextId (scanEnemies b es g) = nextId g" "width (scanEnemies b es g) = width g"
  "height (scanEnemies b es g) = height g"
  by (induction es) simp_all

lemma bulletLoop_fields [simp]:
  "hp (bulletLoop bs es g) = hp g" "gameState (bulletLoop bs es g) = gameState g"
  "lastFireTime (bulletLoop bs es g) = lastFireTime g"
  "nextId (bulletLoop bs es g) = nextId g" "width (bulletLoop bs es g) = width g"
  "height (bulletLoop bs es g) = height g"
  unfolding bulletLoop_def
  by (induction bs arbitrary: g) simp_all

lemma system_Collision_fields [simp]:
  "lastFireTime (system_Collision g) = lastFireTime g"
  "nextId (system_Collision g) = nextId g" "width (system_Collision g) = width g"
  "height (system_Collision g) = height g"
  by (simp_all add: system_Collision_def Let_def)

subsection \<open>Hit points and score through a tick\<close>

lemma takeHit_hpOK: "hpOK g \<Longrightarrow> hpOK (takeHit g)"
  by (cases "gameState g") (auto simp: hpOK_def takeHit_def Let_def)

lemma destroyEntity_hpOK [simp]: "hpOK (destroyEntity e g) = hpOK g"
  by (simp add: hpOK_def)

lemma playerLoop_hpOK: "hpOK g \<Longrightarrow> hpOK (playerLoop es ps g)"
  unfolding playerLoop_def
proof (induction es arbitrary: g)
  case Nil
  then show ?case by simp
next
  case (Cons en es)
  have "hpOK h \<Longrightarrow> hpOK (fold (\<lambda>player h. if overlap en player then takeHit (destroyEntity en h) else h) ps h)" for h
    by (induction ps arbitrary: h) (simp_all add: takeHit_hpOK)
  with Cons show ?case by simp
qed

lemma takeHit_hp_le: "0 \<le> hp g \<Longrightarrow> hp (takeHit g) \<le> hp g \<and> 0 \<le> hp (takeHit g)"
  by (simp add: takeHit_def Let_def)

lemma playerLoop_hp_le: "0 \<le> hp g \<Longrightarrow> hp (playerLoop es ps g) \<le> hp g \<and> 0 \<le> hp (playerLoop es ps g)"
  unfolding playerLoop_def
proof (induction es arbitrary: g)
  case Nil
  then show ?case by simp
next
  case (Cons en es)
  have inner: "0 \<le> hp h \<Longrightarrow>
      hp (fold (\<lambda>player h. if overlap en player then takeHit (destroyEntity en h) else h) ps h) \<le> hp h
      \<and> 0 \<le> hp (fold (\<lambda>player h. if overlap en player then takeHit (destroyEntity en h) else h) ps h)" for h
  proof (induction ps arbitrary: h)
    case Nil
    then show ?case by simp
  next
    case (Cons p ps)
    show ?case
    proof (cases "overlap en p")
      case True
      have "0 \<le> hp (destroyEntity en h)" using Cons.prems by simp
      from takeHit_hp_le[OF this] Cons.IH[of "takeHit (destroyEntity en h)"] True
      show ?thesis by simp
    next
      case False
      with Cons show ?thesis by simp
    qed
  qed
  from inner[OF Cons.prems] Cons.IH[of "fold (\<lambda>player h. if overlap en player then takeHit (destroyEntity en h) else h) ps g"]
  show ?case by simp
qed

lemma scanEnemies_score:
  "score (scanEnemies b es g) = score g + (if list_ex (overlap b) es then 100 else 0)"
  by (induction es) simp_all

lemma bulletLoop_score:
  "score (bulletLoop bs es g) = score g + 100 * int (length (filter (\<lambda>b. list_ex (overlap b) es) bs))"
  unfolding bulletLoop_def
  by (induction bs arbitrary: g) (simp_all add: scanEnemies_score)

lemma system_Collision_score:
  "score (system_Collision g) =
     score g + 100 * int (length (filter (\<lambda>b. list_ex (overlap b) (findAllWith g [C_ENEMY, C_POSITION, C_RENDER]))
                                        (findAllWith g [C_BULLET, C_POSITION, C_RENDER])))"
  by (simp add: system_Collision_def Let_def bulletLoop_score)

lemma system_Collision_hpOK: "hpOK g \<Longrightarrow> hpOK (system_Collision g)"
  using playerLoop_hpOK[of g] by (simp add: system_Collision_def Let_def hpOK_def)

lemma system_Collision_hp_le: "0 \<le> hp g \<Longrightarrow> hp (system_Collision g) \<le> hp g"
  using playerLoop_hp_le[of g] by (simp add: system_Collision_def Let_def)

text \<open>The state on which the collision system of a playing tick runs.\<close>

lemma updateAndRender_gameOver:
  "gameState g = GameOver \<Longrightarrow> updateAndRender env dt g = system_Movement env dt g"
  by (simp add: updateAndRender_def)

lemma updateAndRender_playing:
  "gameState g \<noteq> GameOver \<Longrightarrow>
     updateAndRender env dt g =
       system_Cleanup (system_Collision (system_Movement env dt
         (system_EnemySpawn env (system_Shooting env (system_InputToPlayer g)))))"
  by (simp add: updateAndRender_def)

lemma hpOK_cong: "hp h = hp g \<Longrightarrow> gameState h = gameState g \<Longrightarrow> hpOK h = hpOK g"
  by (simp add: hpOK_def)

lemma updateAndRender_hpOK: assumes "hpOK g" shows "hpOK (updateAndRender env dt g)"
proof (cases "gameState g = GameOver")
  case True
  with assms show ?thesis
    by (simp add: updateAndRender_gameOver hpOK_cong[of "system_Movement env dt g" g])
next
  case False
  let ?m = "system_Movement env dt (system_EnemySpawn env (system_Shooting env (system_InputToPlayer g)))"
  have "hpOK ?m" using assms by (simp add: hpOK_cong[of ?m g])
  then have "hpOK (system_Collision ?m)" by (rule system_Collision_hpOK)
  then show ?thesis
    by (simp add: updateAndRender_playing[OF False] hpOK_cong[of "system_Cleanup (system_Collision ?m)" "system_Collision ?m"])
qed

lemma updateAndRender_hp_le: assumes "0 \<le> hp g" shows "hp (updateAndRender env dt g) \<le> hp g"
proof (cases "gameState g = GameOver")
  case True
  then show ?thesis by (simp add: updateAndRender_gameOver)
next
  case False
  let ?m = "system_Movement env dt (system_EnemySpawn env (system_Shooting env (system_InputToPlayer g)))"
  have "hp ?m = hp g" by simp
  with system_Collision_hp_le[of ?m] assms show ?thesis
    by (simp add: updateAndRender_playing[OF False])
qed

lemma updateAndRender_score:
  "score g \<le> score (updateAndRender env dt g)" "100 dvd (score (updateAndRender env dt g) - score g)"
proof -
  let ?m = "system_Movement env dt (system_EnemySpawn env (system_Shooting env (system_InputToPlayer g)))"
  have "score ?m = score g" by simp
  then show "score g \<le> score (updateAndRender env dt g)" "100 dvd (score (updateAndRender env dt g) - score g)"
    by (simp_all add: updateAndRender_def system_Collision_score)
qed

lemma updateAndRender_dims [simp]:
  "width (updateAndRender env dt g) = width g" "height (updateAndRender env dt g) = height g"
  by (simp_all add: updateAndRender_def)

subsection \<open>\<^verbatim>\<open>reset\<close> in closed form, and the scalar invariant\<close>

lemma buildStar_dims: "width h = width g \<Longrightarrow> height h = height g \<Longrightarrow> buildStar h = buildStar g"
  by (simp add: buildStar_def fun_eq_iff)

lemma fold_stars:
  "fold (\<lambda>i h. createEntity (buildStar h r i) h) [0..<n] g =
     g\<lparr>nextId := nextId g + n,
       entities := entities g @ map (\<lambda>i. buildStar g r i (blank (nextId g + i))) [0..<n]\<rparr>"
proof (induction n)
  case 0
  show ?case by simp
next
  case (Suc n)
  let ?h = "g\<lparr>nextId := nextId g + n,
              entities := entities g @ map (\<lambda>i. buildStar g r i (blank (nextId g + i))) [0..<n]\<rparr>"
  have b: "buildStar ?h = buildStar g" by (rule buildStar_dims) simp_all
  have "fold (\<lambda>i h. createEntity (buildStar h r i) h) [0..<Suc n] g = createEntity (buildStar ?h r n) ?h"
    by (simp add: Suc)
  also have "\<dots> = g\<lparr>nextId := nextId g + Suc n,
       entities := entities g @ map (\<lambda>i. buildStar g r i (blank (nextId g + i))) [0..<Suc n]\<rparr>"
    by (simp add: b createEntity_def)
  finally show ?case .
qed

lemma reset_eq:
  "reset sk r g =
     g\<lparr>nextId := 3 + STAR_COUNT,
       entities := buildPlayer g (blank 1) # (blank 2)\<lparr>c_input := Some (initInput g)\<rparr> # starsOf g r,
       score := 0, hp := 3, gameState := (if sk then gameState g else Playing),
       lastFireTime := resetNow r\<rparr>"
  unfolding reset_def Let_def fold_stars
  by (cases sk) (simp_all add: createEntity_def starsOf_def buildStar_def buildPlayer_def initInput_def
        numeral_2_eq_2 numeral_3_eq_3)

lemma reset_fields [simp]:
  "score (reset sk r g) = 0" "hp (reset sk r g) = 3"
  "gameState (reset sk r g) = (if sk then gameState g else Playing)"
  "lastFireTime (reset sk r g) = resetNow r" "nextId (reset sk r g) = 3 + STAR_COUNT"
  "width (reset sk r g) = width g" "height (reset sk r g) = height g"
  by (simp_all add: reset_eq)

lemma construct_fields [simp]:
  "score (construct r) = 0" "hp (construct r) = 3" "gameState (construct r) = Playing"
  "width (construct r) = GAME_WIDTH" "height (construct r) = GAME_HEIGHT"
  "lastFireTime (construct r) = resetNow r"
  by (simp_all add: construct_def)

lemma reachable_scalars:
  "reachable g \<Longrightarrow> hpOK g \<and> 0 \<le> score g \<and> 100 dvd score g
                     \<and> width g = GAME_WIDTH \<and> height g = GAME_HEIGHT"
proof (induction rule: reachable.induct)
  case (r_init r)
  show ?case by (simp add: hpOK_def)
next
  case (r_tick g e dt)
  have "100 dvd (score (updateAndRender e dt g) - score g) + score g"
    using r_tick.IH updateAndRender_score(2)[of e dt g] by (intro dvd_add) simp_all
  then show ?case
    using r_tick.IH updateAndRender_score(1)[of g e dt] by (simp add: updateAndRender_hpOK)
next
  case (r_reset g r)
  then show ?case by (simp add: hpOK_def)
next
  case (r_input g u)
  then show ?case by (simp add: hpOK_def)
qed

subsection \<open>What the per-entity steps keep\<close>

lemma zeroDraws_ok: "renv_ok zeroDraws"
  by (simp add: renv_ok_def zeroDraws_def unit_draw_def)

lemma quiet_ok: "env_ok (quiet t)"
  by (simp add: env_ok_def quiet_def unit_draw_def)

lemma moveEntity_same [simp]:
  "eid (moveEntity env dt w h e) = eid e"
  "c_render (moveEntity env dt w h e) = c_render e"
  "c_player (moveEntity env dt w h e) = c_player e"
  "c_bullet (moveEntity env dt w h e) = c_bullet e"
  "c_enemy (moveEntity env dt w h e) = c_enemy e"
  "c_star (moveEntity env dt w h e) = c_star e"
  "c_input (moveEntity env dt w h e) = c_input e"
  "c_lifetime (moveEntity env dt w h e) = map_option (\<lambda>t. t - dt) (c_lifetime e)"
  "(c_position (moveEntity env dt w h e) = None) = (c_position e = None)"
  "(c_velocity (moveEntity env dt w h e) = None) = (c_velocity e = None)"
  by (simp_all add: moveEntity_def Let_def split: option.splits)

lemma clampPlayer_same [simp]:
  "eid (clampPlayer w h e) = eid e"
  "c_render (clampPlayer w h e) = c_render e"
  "c_player (clampPlayer w h e) = c_player e"
  "c_bullet (clampPlayer w h e) = c_bullet e"
  "c_enemy (clampPlayer w h e) = c_enemy e"
  "c_star (clampPlayer w h e) = c_star e"
  "c_input (clampPlayer w h e) = c_input e"
  "c_lifetime (clampPlayer w h e) = c_lifetime e"
  "c_velocity (clampPlayer w h e) = c_velocity e"
  "(c_position (clampPlayer w h e) = None) = (c_position e = None)"
  by (simp_all add: clampPlayer_def Let_def split: option.splits)

lemma steer_same [simp]:
  "eid (steer inp e) = eid e"
  "c_render (steer inp e) = c_render e"
  "c_player (steer inp e) = c_player e"
  "c_bullet (steer inp e) = c_bullet e"
  "c_enemy (steer inp e) = c_enemy e"
  "c_star (steer inp e) = c_star e"
  "c_input (steer inp e) = c_input e"
  "c_lifetime (steer inp e) = c_lifetime e"
  "c_position (steer inp e) = c_position e"
  "(c_velocity (steer inp e) = None) = (c_velocity e = None)"
  by (simp_all add: steer_def Let_def split: option.splits)

lemma has_moveEntity [simp]: "has (moveEntity env dt w h e) c = has e c"
  by (cases c) simp_all

lemma has_clampPlayer [simp]: "has (clampPlayer w h e) c = has e c"
  by (cases c) simp_all

lemma has_steer [simp]: "has (steer inp e) c = has e c"
  by (cases c) simp_all

lemma expired_moveEntity:
  "expired (moveEntity env dt w h e) = (case c_lifetime e of None \<Rightarrow> False | Some t \<Rightarrow> t - dt \<le> 0)"
  by (simp add: expired_def split: option.splits)

lemma clampIf_same [simp]:
  "eid (clampIf w h e) = eid e"
  "c_render (clampIf w h e) = c_render e"
  "c_player (clampIf w h e) = c_player e"
  "c_bullet (clampIf w h e) = c_bullet e"
  "c_enemy (clampIf w h e) = c_enemy e"
  "c_star (clampIf w h e) = c_star e"
  "c_input (clampIf w h e) = c_input e"
  "c_lifetime (clampIf w h e) = c_lifetime e"
  "c_velocity (clampIf w h e) = c_velocity e"
  "(c_position (clampIf w h e) = None) = (c_position e = None)"
  "has (clampIf w h e) c = has e c"
  by (simp_all add: clampIf_def)

lemma system_Movement_entities:
  "entities (system_Movement env dt g) =
     map (clampIf (width g) (height g))
       (filter (\<lambda>x. \<not> list_ex (\<lambda>e. expired e \<and> eid x = eid e)
                          (map (moveEntity env dt (width g) (height g)) (entities g)))
          (map (moveEntity env dt (width g) (height g)) (entities g)))"
  by (simp add: system_Movement_eq Let_def clampIf_def[abs_def])

lemma system_Movement_ids:
  "eid ` set (entities (system_Movement env dt g)) \<subseteq> eid ` set (entities g)"
  by (auto simp: system_Movement_entities)

lemma system_Movement_survivor:
  assumes "x \<in> set (entities g)"
    and "\<forall>y \<in> set (entities g). eid y = eid x \<longrightarrow> (case c_lifetime y of None \<Rightarrow> True | Some t \<Rightarrow> 0 < t - dt)"
  shows "clampIf (width g) (height g) (moveEntity env dt (width g) (height g) x)
           \<in> set (entities (system_Movement env dt g))"
proof -
  let ?mv = "moveEntity env dt (width g) (height g)"
  have "\<not> list_ex (\<lambda>e. expired e \<and> eid (?mv x) = eid e) (map ?mv (entities g))"
    using assms(2) by (auto simp: list_ex_iff expired_moveEntity split: option.splits)
  with assms(1) show ?thesis
    by (simp add: system_Movement_entities)
qed

subsection \<open>The star field of a reset\<close>

lemma starsOf_has:
  "e \<in> set (starsOf g r) \<Longrightarrow>
     has e C_STAR \<and> \<not> has e C_PLAYER \<and> \<not> has e C_BULLET \<and> \<not> has e C_ENEMY \<and> \<not> has e C_INPUT
     \<and> \<not> has e C_LIFETIME"
  by (auto simp: starsOf_def buildStar_def blank_def)

lemma length_starsOf: "length (starsOf g r) = STAR_COUNT"
  by (simp add: starsOf_def)

lemma filter_starsOf:
  "filter (\<lambda>e. has e C_STAR) (starsOf g r) = starsOf g r"
  "filter (\<lambda>e. has e C_PLAYER) (starsOf g r) = []"
  "filter (\<lambda>e. has e C_BULLET) (starsOf g r) = []"
  "filter (\<lambda>e. has e C_ENEMY) (starsOf g r) = []"
  "filter (\<lambda>e. has e C_INPUT) (starsOf g r) = []"
  using starsOf_has[of _ g r] by (simp_all add: filter_empty_conv filter_id_conv)

lemma entities_reset:
  "entities (reset sk r g) =
     buildPlayer g (blank 1) # (blank 2)\<lparr>c_input := Some (initInput g)\<rparr> # starsOf g r"
  by (simp add: reset_eq)

subsection \<open>The store stays a map with one player\<close>








subsection \<open>Every system keeps the store well formed\<close>

lemma destroys_refl: "destroys D g g"
  unfolding destroys_def by (intro conjI exI[of _ "{}"]) simp_all

lemma destroys_destroy:
  assumes "destroys D g h" and "d \<in> D"
  shows "destroys D g (destroyEntity d h)"
proof -
  from assms(1) obtain S where S: "S \<subseteq> eid ` D" "entities h = filter (\<lambda>x. eid x \<notin> S) (entities g)"
    and n: "nextId h = nextId g"
    by (auto simp: destroys_def)
  have "entities (destroyEntity d h) = filter (\<lambda>x. eid x \<notin> insert (eid d) S) (entities g)"
    by (auto simp: S(2) intro!: filter_cong)
  moreover have "insert (eid d) S \<subseteq> eid ` D" using S(1) assms(2) by auto
  ultimately show ?thesis using n unfolding destroys_def by (intro conjI exI[of _ "insert (eid d) S"]) simp_all
qed

lemma destroys_cong:
  "destroys D g h \<Longrightarrow> entities h' = entities h \<Longrightarrow> nextId h' = nextId h \<Longrightarrow> destroys D g h'"
  by (simp add: destroys_def)

lemma playerLoop_destroys:
  "set es \<subseteq> D \<Longrightarrow> destroys D g h \<Longrightarrow> destroys D g (playerLoop es ps h)"
  unfolding playerLoop_def
proof (induction es arbitrary: h)
  case Nil
  then show ?case by simp
next
  case (Cons en es)
  have en: "en \<in> D" using Cons.prems(1) by simp
  have "destroys D g k \<Longrightarrow>
        destroys D g (fold (\<lambda>player h. if overlap en player then takeHit (destroyEntity en h) else h) ps k)" for k
  proof (induction ps arbitrary: k)
    case Nil
    then show ?case by simp
  next
    case (Cons p ps)
    have "destroys D g (takeHit (destroyEntity en k))"
      by (rule destroys_cong[OF destroys_destroy[OF Cons.prems en]]) simp_all
    with Cons show ?case by simp
  qed
  with Cons show ?case by simp
qed

lemma scanEnemies_destroys:
  "set es \<subseteq> D \<Longrightarrow> b \<in> D \<Longrightarrow> destroys D g h \<Longrightarrow> destroys D g (scanEnemies b es h)"
proof (induction es)
  case Nil
  then show ?case by simp
next
  case (Cons en es)
  have "destroys D g (destroyEntity b (destroyEntity en (h\<lparr>score := score h + 100\<rparr>)))"
  proof (rule destroys_destroy[OF destroys_destroy])
    show "destroys D g (h\<lparr>score := score h + 100\<rparr>)"
      by (rule destroys_cong[OF Cons.prems(3)]) simp_all
    show "en \<in> D" using Cons.prems(1) by simp
    show "b \<in> D" by (rule Cons.prems(2))
  qed
  with Cons show ?case by simp
qed

lemma bulletLoop_destroys:
  "set es \<subseteq> D \<Longrightarrow> set bs \<subseteq> D \<Longrightarrow> destroys D g h \<Longrightarrow> destroys D g (bulletLoop bs es h)"
  unfolding bulletLoop_def
  by (induction bs arbitrary: h) (simp_all add: scanEnemies_destroys)

text \<open>The collision system only deletes keys of the enemies and bullets it looked at.\<close>

lemma system_Collision_destroys:
  "destroys (set (findAllWith g [C_ENEMY, C_POSITION, C_RENDER])
             \<union> set (findAllWith g [C_BULLET, C_POSITION, C_RENDER])) g (system_Collision g)"
  unfolding system_Collision_def Let_def
  by (intro bulletLoop_destroys playerLoop_destroys destroys_refl) simp_all

lemma destroys_subset: "destroys D g h \<Longrightarrow> set (entities h) \<subseteq> set (entities g)"
  by (auto simp: destroys_def)



lemma system_Cleanup_subset: "set (entities (system_Cleanup g)) \<subseteq> set (entities g)"
  by (auto simp: system_Cleanup_eq)



















subsection \<open>The player after the movement system\<close>




lemma system_Collision_subset: "set (entities (system_Collision g)) \<subseteq> set (entities g)"
  by (rule destroys_subset[OF system_Collision_destroys])

text \<open>What is in the store after a tick came out of the movement system of that tick.\<close>

lemma updateAndRender_from_Movement:
  "set (entities (updateAndRender env dt g))
     \<subseteq> set (entities (system_Movement env dt (if gameState g = GameOver then g
            else system_EnemySpawn env (system_Shooting env (system_InputToPlayer g)))))"
proof (cases "gameState g = GameOver")
  case True
  then show ?thesis by (simp add: updateAndRender_gameOver)
next
  case False
  then show ?thesis
    using system_Cleanup_subset system_Collision_subset
    by (auto simp add: updateAndRender_playing)
qed




subsection \<open>What the store holds after a tick\<close>

lemma system_Cleanup_clean:
  "x \<in> set (entities (system_Cleanup g)) \<Longrightarrow> \<not> outOfBounds (width g) (height g) x"
  by (auto simp: system_Cleanup_eq list_ex_iff)

lemma system_Movement_alive:
  "x \<in> set (entities (system_Movement env dt g)) \<Longrightarrow> \<not> expired x"
  by (auto simp: system_Movement_entities list_ex_iff expired_def)

lemma updateAndRender_alive:
  "x \<in> set (entities (updateAndRender env dt g)) \<Longrightarrow> \<not> expired x"
  using updateAndRender_from_Movement[of env dt g] system_Movement_alive by blast

lemma updateAndRender_clean:
  assumes "gameState g \<noteq> GameOver" and "x \<in> set (entities (updateAndRender env dt g))"
  shows "\<not> outOfBounds (width g) (height g) x"
proof -
  let ?c = "system_Collision (system_Movement env dt
              (system_EnemySpawn env (system_Shooting env (system_InputToPlayer g))))"
  have "x \<in> set (entities (system_Cleanup ?c))"
    using assms by (simp add: updateAndRender_playing)
  from system_Cleanup_clean[OF this] show ?thesis by simp
qed

subsection \<open>Runs of ticks\<close>

lemma run_hpOK: "hpOK g \<Longrightarrow> hpOK (run es g) \<and> hp (run es g) \<le> hp g"
proof (induction es arbitrary: g)
  case Nil
  then show ?case by simp
next
  case (Cons a es)
  obtain e dt where a: "a = (e, dt)" by (cases a)
  have 1: "hpOK (updateAndRender e dt g)" using Cons.prems by (rule updateAndRender_hpOK)
  have 2: "hp (updateAndRender e dt g) \<le> hp g"
    using Cons.prems by (intro updateAndRender_hp_le) (simp add: hpOK_def)
  from Cons.IH[OF 1] 2 show ?case by (simp add: a)
qed

lemma run0_hp: "hp0 (run0 es g) \<le> hp0 g"
proof (induction es arbitrary: g)
  case Nil
  show ?case by simp
next
  case (Cons e es)
  from Cons.IH[of "update0 e g"] update0_hp[of e g] show ?case by simp
qed

lemma run_score: "score g \<le> score (run es g)"
proof (induction es arbitrary: g)
  case Nil
  show ?case by simp
next
  case (Cons a es)
  obtain e dt where a: "a = (e, dt)" by (cases a)
  from Cons.IH[of "updateAndRender e dt g"] updateAndRender_score(1)[of g e dt]
  show ?case by (simp add: a)
qed

lemma run0_score: "score0 g \<le> score0 (run0 es g)"
proof (induction es arbitrary: g)
  case Nil
  show ?case by simp
next
  case (Cons e es)
  from Cons.IH[of "update0 e g"] update0_score_mono[of g e] show ?case by simp
qed

lemma reachable_construct: "reachable (construct zeroDraws)"
  by (rule r_init) (rule zeroDraws_ok)

lemma reachable0_construct0: "reachable0 (construct0 zeroDraws)"
  by (rule r0_init) (rule zeroDraws_ok)

subsection \<open>The scan of one bullet stops at the first enemy it overlaps\<close>

lemma scanEnemies_first:
  "scanEnemies b es g =
     (case find (overlap b) es of
        None \<Rightarrow> g
      | Some e \<Rightarrow> destroyEntity b (destroyEntity e (g\<lparr>score := score g + 100\<rparr>)))"
  by (induction es) simp_all

lemma scanEnemies_at_most_once:
  "score (scanEnemies b es g) = score g \<or> score (scanEnemies b es g) = score g + 100"
  by (simp add: scanEnemies_score)

section \<open>Tracing concrete sessions of the flat implementation\<close>

lemma sqrt_less_iff: "0 \<le> r \<Longrightarrow> (sqrt u < r) = (u < r\<^sup>2)"
  by (metis real_sqrt_less_iff real_sqrt_abs abs_of_nonneg)

lemma isColliding_iff:
  assumes "0 \<le> osize a + osize b"
    and "position a = \<lparr>vec_x = Fin ax, vec_y = Fin ay\<rparr>"
    and "position b = \<lparr>vec_x = Fin bx, vec_y = Fin by\<rparr>"
  shows "isColliding a b =
           ((ax - bx) * (ax - bx) + (ay - by) * (ay - by) < ((osize a + osize b) / 2)\<^sup>2)"
proof -
  have "(sqrt ((ax - bx) * (ax - bx) + (ay - by) * (ay - by)) < (osize a + osize b) / 2)
          = ((ax - bx) * (ax - bx) + (ay - by) * (ay - by) < ((osize a + osize b) / 2)\<^sup>2)"
    by (rule sqrt_less_iff) (use assms(1) in simp)
  then show ?thesis by (simp add: isColliding_def assms(2,3))
qed

lemma bulletPass0_miss:
  "\<forall>b \<in> set bs. \<forall>e \<in> set (enemies0 g). \<not> isColliding b e \<Longrightarrow> bulletPass0 bs g = (bs, g)"
proof (induction bs)
  case Nil
  show ?case by simp
next
  case (Cons b bs)
  have f: "filter (\<lambda>e. \<not> isColliding b e) (enemies0 g) = enemies0 g"
       "filter (isColliding b) (enemies0 g) = []"
       "\<not> list_ex (isColliding b) (enemies0 g)"
    using Cons.prems by (auto simp: filter_id_conv filter_empty_conv list_ex_iff)
  have "bulletPass0 bs g = (bs, g)" using Cons by simp
  then show ?case
    by (simp add: bulletPass0_Cons f Let_def del: bulletPass0.simps(2))
qed

lemma bulletHits0_miss:
  "\<forall>b \<in> set (bullets0 g). \<forall>e \<in> set (enemies0 g). \<not> isColliding b e \<Longrightarrow> bulletHits0 g = g"
  by (simp add: bulletHits0_def bulletPass0_miss)

lemma playerHits0_miss:
  "\<forall>e \<in> set (enemies0 g). \<not> isColliding (player0 g) e \<Longrightarrow> playerHits0 g = g"
  by (simp add: playerHits0_def playerPass0_eq filter_id_conv filter_empty_conv list_ex_iff)

lemma movePlayer0_idle: "movePlayer0 (idle0 S t bs es) = idle0 S t bs es"
  by (simp add: movePlayer0_def idle0_def Let_def targetVel0_def targetVelBy_def initInput0_def
        newPlayer0_def createVector2_def PLAYER_SIZE_def GAME_WIDTH_def GAME_HEIGHT_def)

lemma fire0_idle: "fire0 e (idle0 S t bs es) = idle0 S t bs es"
  by (simp add: fire0_def fires0_def idle0_def initInput0_def)

lemma spawnEnemy0_spawned: "spawnEnemy0 e g = g\<lparr>enemies0 := enemies0 g @ spawned0 e\<rparr>"
  by (simp add: spawnEnemy0_def spawned0_def enemyAt_def)

text \<open>A tick on which nothing is hit and nothing leaves the playfield.\<close>

lemma update0_idle:
  assumes b: "\<forall>b \<in> set bs. bulletKept0 (advance b)"
    and e: "\<forall>x \<in> set es. enemyKept0 (advance x)"
    and h: "\<forall>b \<in> set bs. \<forall>x \<in> set (map advance es @ spawned0 e). \<not> isColliding (advance b) x"
    and p: "\<forall>x \<in> set (map advance es @ spawned0 e). \<not> isColliding newPlayer0 x"
  shows "update0 e (idle0 S t bs es)
           = idle0 (starsStep0 e S) t (map advance bs) (map advance es @ spawned0 e)"
proof -
  let ?h = "idle0 (starsStep0 e S) t (map advance bs) (map advance es @ spawned0 e)"
  have fb: "filter bulletKept0 (map advance bs) = map advance bs"
    using b by (simp add: filter_id_conv)
  have fe: "filter enemyKept0 (map advance es) = map advance es"
    using e by (simp add: filter_id_conv)
  have 1: "spawnEnemy0 e (moveEnemies0 (moveBullets0 (moveStars0 e (fire0 e (movePlayer0 (idle0 S t bs es))))))
           = ?h"
    by (simp add: movePlayer0_idle fire0_idle spawnEnemy0_spawned)
       (simp add: idle0_def moveStars0_def moveBullets0_def moveEnemies0_def starsStep0_def fb fe)
  have 2: "bulletHits0 ?h = ?h"
    by (rule bulletHits0_miss) (use h in \<open>simp add: idle0_def\<close>)
  have 3: "playerHits0 ?h = ?h"
    by (rule playerHits0_miss) (use p in \<open>simp add: idle0_def\<close>)
  have "gameState0 (idle0 S t bs es) \<noteq> GameOver" by (simp add: idle0_def)
  from update0_playing[OF this] 1 2 3 show ?thesis by simp
qed

lemma run0_append: "run0 (xs @ ys) g = run0 ys (run0 xs g)"
  by (induction xs arbitrary: g) simp_all

lemma reachable0_run0: "reachable0 g \<Longrightarrow> list_all env_ok es \<Longrightarrow> reachable0 (run0 es g)"
  by (induction es arbitrary: g) (simp_all add: r0_tick)

lemma spawning_ok: "0 \<le> r \<Longrightarrow> r < 1 \<Longrightarrow> env_ok (spawning t r)"
  by (simp add: env_ok_def spawning_def unit_draw_def)

lemma ticks_ok: "list_all env_ok (ticks a n)"
  by (simp add: ticks_def list_all_iff quiet_ok)

lemma spawned0_quiet: "spawned0 (quiet t) = []"
  by (simp add: spawned0_def quiet_def ENEMY_SPAWN_RATE_def)

lemma spawned0_spawning: "spawned0 (spawning t r) = [enemyAt (r * 304) (- 16)]"
  by (simp add: spawned0_def spawning_def ENEMY_SPAWN_RATE_def GAME_WIDTH_def ENEMY_SIZE_def)

lemma advance_enemyAt: "advance (enemyAt ex ey) = enemyAt ex (ey + 3 / 2)"
  by (simp add: advance_def enemyAt_def createVector2_def ENEMY_SPEED_def)

lemma advance_bulletAt: "advance (bulletAt bx by) = bulletAt bx (by - 7)"
  by (simp add: advance_def bulletAt_def createVector2_def BULLET_SPEED_def)

lemma advance_n_enemyAt: "(advance ^^ n) (enemyAt ex ey) = enemyAt ex (ey + 3 / 2 * real n)"
proof (induction n)
  case 0
  show ?case by simp
next
  case (Suc n)
  have "(advance ^^ Suc n) (enemyAt ex ey) = enemyAt ex (ey + 3 / 2 * real n + 3 / 2)"
    using Suc by (simp add: advance_enemyAt)
  also have "ey + 3 / 2 * real n + 3 / 2 = ey + 3 / 2 * real (Suc n)" by (simp add: algebra_simps)
  finally show ?case .
qed

lemma advance_n_bulletAt: "(advance ^^ n) (bulletAt bx by) = bulletAt bx (by - 7 * real n)"
proof (induction n)
  case 0
  show ?case by simp
next
  case (Suc n)
  have "(advance ^^ Suc n) (bulletAt bx by) = bulletAt bx (by - 7 * real n - 7)"
    using Suc by (simp add: advance_bulletAt)
  also have "by - 7 * real n - 7 = by - 7 * real (Suc n)" by (simp add: algebra_simps)
  finally show ?case .
qed

text \<open>A stretch of ticks on which nothing spawns, nothing is hit and nothing leaves.\<close>

lemma run0_idle:
  assumes "\<forall>e \<in> set envs. spawned0 e = []"
    and "\<forall>k < length envs. \<forall>b \<in> set bs. bulletKept0 ((advance ^^ Suc k) b)"
    and "\<forall>k < length envs. \<forall>x \<in> set es. enemyKept0 ((advance ^^ Suc k) x)
                                          \<and> \<not> isColliding newPlayer0 ((advance ^^ Suc k) x)"
    and "\<forall>k < length envs. \<forall>b \<in> set bs. \<forall>x \<in> set es.
           \<not> isColliding ((advance ^^ Suc k) b) ((advance ^^ Suc k) x)"
  shows "run0 envs (idle0 S t bs es)
           = idle0 (fold starsStep0 envs S) t (map (advance ^^ length envs) bs)
                   (map (advance ^^ length envs) es)"
  using assms
proof (induction envs arbitrary: S bs es)
  case Nil
  show ?case by simp
next
  case (Cons e envs)
  have sp: "spawned0 e = []" using Cons.prems(1) by simp
  have 0: "0 < length (e # envs)" by simp
  have step: "update0 e (idle0 S t bs es) = idle0 (starsStep0 e S) t (map advance bs) (map advance es)"
    using update0_idle[of bs es e S t] Cons.prems(2)[rule_format, OF 0]
      Cons.prems(3)[rule_format, OF 0] Cons.prems(4)[rule_format, OF 0]
    by (simp add: sp)
  have sh: "(advance ^^ Suc k) (advance z) = (advance ^^ Suc (Suc k)) z" for k and z :: "'z GameObject_scheme"
    by (simp add: funpow_swap1)
  have "run0 envs (idle0 (starsStep0 e S) t (map advance bs) (map advance es))
          = idle0 (fold starsStep0 envs (starsStep0 e S)) t
              (map (advance ^^ length envs) (map advance bs))
              (map (advance ^^ length envs) (map advance es))"
  proof (rule Cons.IH)
    show "\<forall>e\<in>set envs. spawned0 e = []" using Cons.prems(1) by simp
    show "\<forall>k<length envs. \<forall>b\<in>set (map advance bs). bulletKept0 ((advance ^^ Suc k) b)"
      using Cons.prems(2) by (auto simp: sh simp del: funpow.simps)
    show "\<forall>k<length envs. \<forall>x\<in>set (map advance es). enemyKept0 ((advance ^^ Suc k) x)
             \<and> \<not> isColliding newPlayer0 ((advance ^^ Suc k) x)"
      using Cons.prems(3) by (auto simp: sh simp del: funpow.simps)
    show "\<forall>k<length envs. \<forall>b\<in>set (map advance bs). \<forall>x\<in>set (map advance es).
             \<not> isColliding ((advance ^^ Suc k) b) ((advance ^^ Suc k) x)"
      using Cons.prems(4) by (auto simp: sh simp del: funpow.simps)
  qed
  then show ?case
    by (simp add: step funpow_swap1 comp_def)
qed

lemma beforeCollision0_idle:
  assumes b: "\<forall>b \<in> set bs. bulletKept0 (advance b)"
    and e: "\<forall>x \<in> set es. enemyKept0 (advance x)"
  shows "beforeCollision0 e (idle0 S t bs es)
           = idle0 (starsStep0 e S) t (map advance bs) (map advance es @ spawned0 e)"
proof -
  have fb: "filter bulletKept0 (map advance bs) = map advance bs"
    using b by (simp add: filter_id_conv)
  have fe: "filter enemyKept0 (map advance es) = map advance es"
    using e by (simp add: filter_id_conv)
  show ?thesis
    unfolding beforeCollision0_def
    by (simp add: movePlayer0_idle fire0_idle spawnEnemy0_spawned)
       (simp add: idle0_def moveStars0_def moveBullets0_def moveEnemies0_def starsStep0_def fb fe)
qed

lemma update0_idle0:
  "update0 e (idle0 S t bs es) = playerHits0 (bulletHits0 (beforeCollision0 e (idle0 S t bs es)))"
  by (simp add: update0_def beforeCollision0_def idle0_def)

lemma enemyKept0_enemyAt: "enemyKept0 (enemyAt ex ey) = (ey < 594)"
  by (simp add: enemyKept0_def enemyAt_def createVector2_def GAME_HEIGHT_def ENEMY_SIZE_def)

lemma bulletKept0_bulletAt: "bulletKept0 (bulletAt bx by) = (- 20 < by \<and> by < 588)"
  by (simp add: bulletKept0_def bulletAt_def createVector2_def GAME_HEIGHT_def)

lemma hits_player_iff:
  "isColliding newPlayer0 (enemyAt ex ey) = ((160 - ex) * (160 - ex) + (508 - ey) * (508 - ey) < 324)"
  by (simp add: isColliding_iff newPlayer0_def enemyAt_def createVector2_def PLAYER_SIZE_def
        ENEMY_SIZE_def GAME_WIDTH_def GAME_HEIGHT_def power2_eq_square)

lemma hits_bullet_iff:
  "isColliding (bulletAt bx by) (enemyAt ex ey) = ((bx - ex) * (bx - ex) + (by - ey) * (by - ey) < 100)"
  by (simp add: isColliding_iff bulletAt_def enemyAt_def createVector2_def BULLET_SIZE_def
        ENEMY_SIZE_def power2_eq_square)

text \<open>An enemy that is above a point outside the player's reach is outside its reach.\<close>

lemma above_reach:
  assumes "ey \<le> c" and "c \<le> 508" and "324 \<le> (160 - ex) * (160 - ex) + (508 - c) * (508 - c)"
  shows "\<not> isColliding newPlayer0 (enemyAt ex ey)"
proof -
  have "(508 - c) * (508 - c) \<le> (508 - ey) * (508 - ey)"
    using assms(1,2) by (intro mult_mono) simp_all
  with assms(3) show ?thesis by (simp add: hits_player_iff)
qed

lemma below_bullet:
  assumes "c \<le> by - ey" and "0 \<le> c" and "100 \<le> (bx - ex) * (bx - ex) + c * c"
  shows "\<not> isColliding (bulletAt bx by) (enemyAt ex ey)"
proof -
  have "c * c \<le> (by - ey) * (by - ey)"
    using assms(1,2) by (intro mult_mono) simp_all
  with assms(3) show ?thesis by (simp add: hits_bullet_iff)
qed

lemma construct0_idle: "construct0 r = idle0 (initStars0 r) 0 [] []"
  by (simp add: construct0_def idle0_def)

subsection \<open>Session 1: four enemies reach the player on one tick\<close>

text \<open>Session 1, after the four spawns.\<close>

lemma session1_spawned:
  "run0 spawns1 (construct0 zeroDraws)
     = idle0 (fold starsStep0 spawns1 (initStars0 zeroDraws)) 0 []
         [enemyAt (589 / 4) (- 23 / 2), enemyAt 171 (- 13), enemyAt 152 (- 29 / 2), enemyAt (323 / 2) (- 16)]"
  unfolding spawns1_def construct0_idle
  by (simp add: update0_idle spawned0_spawning advance_enemyAt enemyKept0_enemyAt hits_player_iff)

lemma length_ticks [simp]: "length (ticks a n) = n"
  by (simp add: ticks_def)

lemma ticks_quiet: "\<forall>e \<in> set (ticks a n). spawned0 e = []"
  by (auto simp: ticks_def spawned0_quiet)

text \<open>The number of ticks gone by, as a real.\<close>

lemma tick_count: "k < n \<Longrightarrow> \<exists>t. t = real (Suc k) \<and> 0 \<le> t \<and> t \<le> real n"
  using of_nat_mono[of "Suc k" n, where 'a=real] by simp

lemma session1_descent:
  "run0 (ticks 5 337) (idle0 S 0 []
         [enemyAt (589 / 4) (- 23 / 2), enemyAt 171 (- 13), enemyAt 152 (- 29 / 2), enemyAt (323 / 2) (- 16)])
     = idle0 (fold starsStep0 (ticks 5 337) S) 0 []
         [enemyAt (589 / 4) 494, enemyAt 171 (985 / 2), enemyAt 152 491, enemyAt (323 / 2) (979 / 2)]"
proof -
  have a: "\<not> isColliding newPlayer0 (enemyAt (589 / 4) (- 23 / 2 + 3 / 2 * t))" if "t \<le> 337" for t :: real
    by (rule above_reach[where c = 494]) (use that in simp_all)
  have b: "\<not> isColliding newPlayer0 (enemyAt 171 (- 13 + 3 / 2 * t))" if "t \<le> 337" for t :: real
    by (rule above_reach[where c = "985 / 2"]) (use that in simp_all)
  have c: "\<not> isColliding newPlayer0 (enemyAt 152 (- 29 / 2 + 3 / 2 * t))" if "t \<le> 337" for t :: real
    by (rule above_reach[where c = 491]) (use that in simp_all)
  have d: "\<not> isColliding newPlayer0 (enemyAt (323 / 2) (- 16 + 3 / 2 * t))" if "t \<le> 337" for t :: real
    by (rule above_reach[where c = "979 / 2"]) (use that in simp_all)
  have "run0 (ticks 5 337) (idle0 S 0 []
         [enemyAt (589 / 4) (- 23 / 2), enemyAt 171 (- 13), enemyAt 152 (- 29 / 2), enemyAt (323 / 2) (- 16)])
     = idle0 (fold starsStep0 (ticks 5 337) S) 0 (map (advance ^^ length (ticks 5 337)) [])
         (map (advance ^^ length (ticks 5 337))
            [enemyAt (589 / 4) (- 23 / 2), enemyAt 171 (- 13), enemyAt 152 (- 29 / 2), enemyAt (323 / 2) (- 16)])"
  proof (rule run0_idle)
    show "\<forall>e\<in>set (ticks 5 337). spawned0 e = []" by (rule ticks_quiet)
    show "\<forall>k<length (ticks 5 337). \<forall>b\<in>set []. bulletKept0 ((advance ^^ Suc k) b)" by simp
    show "\<forall>k<length (ticks 5 337). \<forall>b\<in>set []. \<forall>x\<in>set [enemyAt (589 / 4) (- 23 / 2), enemyAt 171 (- 13),
            enemyAt 152 (- 29 / 2), enemyAt (323 / 2) (- 16)].
            \<not> isColliding ((advance ^^ Suc k) b) ((advance ^^ Suc k) x)" by simp
    show "\<forall>k<length (ticks 5 337). \<forall>x\<in>set [enemyAt (589 / 4) (- 23 / 2), enemyAt 171 (- 13),
            enemyAt 152 (- 29 / 2), enemyAt (323 / 2) (- 16)].
            enemyKept0 ((advance ^^ Suc k) x) \<and> \<not> isColliding newPlayer0 ((advance ^^ Suc k) x)"
    proof (intro allI impI)
      fix k assume "k < length (ticks 5 337)"
      then obtain t where t: "t = real (Suc k)" "0 \<le> t" "t \<le> 337"
        using tick_count[of k 337] by auto
      show "\<forall>x\<in>set [enemyAt (589 / 4) (- 23 / 2), enemyAt 171 (- 13),
            enemyAt 152 (- 29 / 2), enemyAt (323 / 2) (- 16)].
            enemyKept0 ((advance ^^ Suc k) x) \<and> \<not> isColliding newPlayer0 ((advance ^^ Suc k) x)"
        using a[OF t(3)] b[OF t(3)] c[OF t(3)] d[OF t(3)] t(2,3)
        by (simp add: enemyKept0_enemyAt advance_n_enemyAt t(1)[symmetric] del: funpow.simps of_nat_Suc)
    qed
  qed
  then show ?thesis by (simp add: advance_n_enemyAt)
qed

lemma session1_impact:
  "hp0 (update0 (quiet t) (idle0 S 0 []
          [enemyAt (589 / 4) 494, enemyAt 171 (985 / 2), enemyAt 152 491, enemyAt (323 / 2) (979 / 2)])) = - 1
   \<and> gameState0 (update0 (quiet t) (idle0 S 0 []
          [enemyAt (589 / 4) 494, enemyAt 171 (985 / 2), enemyAt 152 491, enemyAt (323 / 2) (979 / 2)])) = GameOver"
proof -
  let ?es = "[enemyAt (589 / 4) 494, enemyAt 171 (985 / 2), enemyAt 152 491, enemyAt (323 / 2) (979 / 2)]"
  let ?h = "idle0 (starsStep0 (quiet t) S) 0 []
              [enemyAt (589 / 4) (991 / 2), enemyAt 171 494, enemyAt 152 (985 / 2), enemyAt (323 / 2) 491]"
  have 1: "beforeCollision0 (quiet t) (idle0 S 0 [] ?es) = ?h"
    by (subst beforeCollision0_idle)
       (simp_all add: advance_enemyAt enemyKept0_enemyAt spawned0_quiet)
  have 2: "bulletHits0 ?h = ?h"
    by (rule bulletHits0_miss) (simp add: idle0_def)
  have 3: "player0 ?h = newPlayer0" "hp0 ?h = 3" "gameState0 ?h = Playing"
    "enemies0 ?h = [enemyAt (589 / 4) (991 / 2), enemyAt 171 494, enemyAt 152 (985 / 2), enemyAt (323 / 2) 491]"
    by (simp_all add: idle0_def)
  have 4: "hp0 (playerHits0 ?h) = - 1"
    by (simp add: 3 hits_player_iff)
  have 5: "gameState0 (playerHits0 ?h) = GameOver"
    unfolding playerHits0_state 4 by (simp add: 3 hits_player_iff)
  from 4 5 show ?thesis by (simp add: update0_idle0 1 2)
qed

lemma ticks_one: "ticks a 1 = [quiet (1000 + 17 * int a)]"
  by (simp add: ticks_def)

lemma spawns1_ok: "list_all env_ok spawns1"
  by (simp add: spawns1_def spawning_ok)

lemma session1_ok: "list_all env_ok session1"
  by (simp add: session1_def spawns1_ok ticks_ok)

lemma session1_end:
  "hp0 (run0 session1 (construct0 zeroDraws)) = - 1
   \<and> gameState0 (run0 session1 (construct0 zeroDraws)) = GameOver"
  unfolding session1_def run0_append session1_spawned session1_descent ticks_one
  using session1_impact by simp

subsection \<open>Session 2: one bullet meets two enemies\<close>

text \<open>Session 2: the tick that fires the bullet and spawns the first enemy.\<close>

lemma session2_fired_eq:
  "session2_fired\<lparr>input0 := initInput0\<rparr>
     = idle0 (starsStep0 (spawning 1017 (10 / 19)) (initStars0 zeroDraws)) 1017
             [bulletAt 160 501] [enemyAt 160 (- 16)]"
proof -
  let ?g = "(construct0 zeroDraws)\<lparr>input0 := shootHeld0\<rparr>"
  let ?e = "spawning 1017 (10 / 19)"
  have m: "movePlayer0 ?g = ?g"
    by (simp add: movePlayer0_def construct0_def Let_def targetVel0_def targetVelBy_def shootHeld0_def
          initInput0_def newPlayer0_def createVector2_def PLAYER_SIZE_def GAME_WIDTH_def
          GAME_HEIGHT_def)
  have f: "fire0 ?e ?g = ?g\<lparr>bullets0 := [bulletAt 160 508], lastFireTime0 := 1017\<rparr>"
    by (simp add: fire0_def fires0_def construct0_def shootHeld0_def spawning_def BULLET_FIRE_RATE_def
          bulletAt_def newPlayer0_def createVector2_def GAME_WIDTH_def GAME_HEIGHT_def)
  have b: "beforeCollision0 ?e ?g
             = (idle0 (starsStep0 ?e (initStars0 zeroDraws)) 1017 [bulletAt 160 501] [enemyAt 160 (- 16)])
               \<lparr>input0 := shootHeld0\<rparr>"
    unfolding beforeCollision0_def m f
    by (simp add: spawnEnemy0_spawned spawned0_spawning moveEnemies0_def moveBullets0_def
          moveStars0_def starsStep0_def idle0_def construct0_def advance_bulletAt
          bulletKept0_bulletAt)
  have h: "bulletHits0 (beforeCollision0 ?e ?g) = beforeCollision0 ?e ?g"
    by (rule bulletHits0_miss) (simp add: b idle0_def hits_bullet_iff)
  have p: "playerHits0 (beforeCollision0 ?e ?g) = beforeCollision0 ?e ?g"
    by (rule playerHits0_miss) (simp add: b idle0_def hits_player_iff)
  have "gameState0 ?g \<noteq> GameOver" by (simp add: construct0_def)
  then have "update0 ?e ?g = playerHits0 (bulletHits0 (beforeCollision0 ?e ?g))"
    by (simp add: update0_def beforeCollision0_def)
  then have "update0 ?e ?g = beforeCollision0 ?e ?g"
    by (simp only: h p)
  then show ?thesis
    by (simp add: session2_fired_def b idle0_def)
qed

lemma session2_before_eq:
  "session2_before
     = idle0 (fold starsStep0 (spawning 1034 (10 / 19) # ticks 3 58)
                (starsStep0 (spawning 1017 (10 / 19)) (initStars0 zeroDraws))) 1017
             [bulletAt 160 88] [enemyAt 160 (145 / 2), enemyAt 160 71]"
proof -
  let ?S = "starsStep0 (spawning 1017 (10 / 19)) (initStars0 zeroDraws)"
  let ?T = "starsStep0 (spawning 1034 (10 / 19)) ?S"
  have 1: "update0 (spawning 1034 (10 / 19)) (idle0 ?S 1017 [bulletAt 160 501] [enemyAt 160 (- 16)])
             = idle0 ?T 1017 [bulletAt 160 494] [enemyAt 160 (- 29 / 2), enemyAt 160 (- 16)]"
    by (simp add: update0_idle spawned0_spawning advance_enemyAt advance_bulletAt enemyKept0_enemyAt
          bulletKept0_bulletAt hits_player_iff hits_bullet_iff)
  have a: "\<not> isColliding newPlayer0 (enemyAt 160 (- 29 / 2 + 3 / 2 * t))" if "t \<le> 58" for t :: real
    by (rule above_reach[where c = "145 / 2"]) (use that in simp_all)
  have b: "\<not> isColliding newPlayer0 (enemyAt 160 (- 16 + 3 / 2 * t))" if "t \<le> 58" for t :: real
    by (rule above_reach[where c = 71]) (use that in simp_all)
  have c: "\<not> isColliding (bulletAt 160 (494 - 7 * t)) (enemyAt 160 (- 29 / 2 + 3 / 2 * t))" if "t \<le> 58" for t :: real
    by (rule below_bullet[where c = "31 / 2"]) (use that in simp_all)
  have d: "\<not> isColliding (bulletAt 160 (494 - 7 * t)) (enemyAt 160 (- 16 + 3 / 2 * t))" if "t \<le> 58" for t :: real
    by (rule below_bullet[where c = 17]) (use that in simp_all)
  have 2: "run0 (ticks 3 58) (idle0 ?T 1017 [bulletAt 160 494] [enemyAt 160 (- 29 / 2), enemyAt 160 (- 16)])
     = idle0 (fold starsStep0 (ticks 3 58) ?T) 1017
         (map (advance ^^ length (ticks 3 58)) [bulletAt 160 494])
         (map (advance ^^ length (ticks 3 58)) [enemyAt 160 (- 29 / 2), enemyAt 160 (- 16)])"
  proof (rule run0_idle)
    show "\<forall>e\<in>set (ticks 3 58). spawned0 e = []" by (rule ticks_quiet)
    show "\<forall>k<length (ticks 3 58). \<forall>b\<in>set [bulletAt 160 494]. bulletKept0 ((advance ^^ Suc k) b)"
    proof (intro allI impI)
      fix k assume "k < length (ticks 3 58)"
      then obtain t where t: "t = real (Suc k)" "0 \<le> t" "t \<le> 58"
        using tick_count[of k 58] by auto
      show "\<forall>b\<in>set [bulletAt 160 494]. bulletKept0 ((advance ^^ Suc k) b)"
        using t(2,3)
        by (simp add: bulletKept0_bulletAt advance_n_bulletAt t(1)[symmetric] del: funpow.simps of_nat_Suc)
    qed
    show "\<forall>k<length (ticks 3 58). \<forall>x\<in>set [enemyAt 160 (- 29 / 2), enemyAt 160 (- 16)].
            enemyKept0 ((advance ^^ Suc k) x) \<and> \<not> isColliding newPlayer0 ((advance ^^ Suc k) x)"
    proof (intro allI impI)
      fix k assume "k < length (ticks 3 58)"
      then obtain t where t: "t = real (Suc k)" "0 \<le> t" "t \<le> 58"
        using tick_count[of k 58] by auto
      show "\<forall>x\<in>set [enemyAt 160 (- 29 / 2), enemyAt 160 (- 16)].
            enemyKept0 ((advance ^^ Suc k) x) \<and> \<not> isColliding newPlayer0 ((advance ^^ Suc k) x)"
        using a[OF t(3)] b[OF t(3)] t(2,3)
        by (simp add: enemyKept0_enemyAt advance_n_enemyAt t(1)[symmetric] del: funpow.simps of_nat_Suc)
    qed
    show "\<forall>k<length (ticks 3 58). \<forall>b\<in>set [bulletAt 160 494].
            \<forall>x\<in>set [enemyAt 160 (- 29 / 2), enemyAt 160 (- 16)].
            \<not> isColliding ((advance ^^ Suc k) b) ((advance ^^ Suc k) x)"
    proof (intro allI impI)
      fix k assume "k < length (ticks 3 58)"
      then obtain t where t: "t = real (Suc k)" "0 \<le> t" "t \<le> 58"
        using tick_count[of k 58] by auto
      show "\<forall>b\<in>set [bulletAt 160 494]. \<forall>x\<in>set [enemyAt 160 (- 29 / 2), enemyAt 160 (- 16)].
            \<not> isColliding ((advance ^^ Suc k) b) ((advance ^^ Suc k) x)"
        using c[OF t(3)] d[OF t(3)]
        by (simp add: advance_n_enemyAt advance_n_bulletAt t(1)[symmetric] del: funpow.simps of_nat_Suc)
    qed
  qed
  show ?thesis
    unfolding session2_before_def session2_fired_eq run0.simps 1 2
    by (simp add: advance_n_enemyAt advance_n_bulletAt)
qed

text \<open>The next tick: the one bullet removes both enemies and scores twice.\<close>

lemma session2_double_kill:
  "bullets0 session2_before = [bulletAt 160 88]
   \<and> enemies0 session2_before = [enemyAt 160 (145 / 2), enemyAt 160 71]
   \<and> score0 session2_before = 0
   \<and> score0 (update0 (quiet 2037) session2_before) = 200
   \<and> bullets0 (update0 (quiet 2037) session2_before) = []
   \<and> enemies0 (update0 (quiet 2037) session2_before) = []"
proof -
  let ?S = "fold starsStep0 (spawning 1034 (10 / 19) # ticks 3 58)
                (starsStep0 (spawning 1017 (10 / 19)) (initStars0 zeroDraws))"
  let ?h = "idle0 (starsStep0 (quiet 2037) ?S) 1017 [bulletAt 160 81] [enemyAt 160 74, enemyAt 160 (145 / 2)]"
  have 1: "beforeCollision0 (quiet 2037) session2_before = ?h"
    unfolding session2_before_eq
    by (subst beforeCollision0_idle)
       (simp_all add: advance_enemyAt advance_bulletAt enemyKept0_enemyAt bulletKept0_bulletAt
          spawned0_quiet)
  have 2: "bulletHits0 ?h = ?h\<lparr>bullets0 := [], enemies0 := [], score0 := 200\<rparr>"
    by (simp add: bulletHits0_def idle0_def bulletPass0_Cons scanEnemies0_eq hits_bullet_iff
          bulletAt_def[of 160 81, THEN arg_cong[of _ _ owner]] Let_def del: bulletPass0.simps(2))
  have 3: "playerHits0 (?h\<lparr>bullets0 := [], enemies0 := [], score0 := 200\<rparr>)
             = ?h\<lparr>bullets0 := [], enemies0 := [], score0 := 200\<rparr>"
    by (rule playerHits0_miss) simp
  have "update0 (quiet 2037) session2_before = ?h\<lparr>bullets0 := [], enemies0 := [], score0 := 200\<rparr>"
    unfolding session2_before_eq update0_idle0
    using 1 2 3 by (simp add: session2_before_eq)
  then show ?thesis by (simp add: session2_before_eq idle0_def)
qed

lemma session2_reachable: "reachable0 session2_before"
proof -
  have 1: "reachable0 ((construct0 zeroDraws)\<lparr>input0 := shootHeld0\<rparr>)"
    by (rule r0_input[OF reachable0_construct0])
  have 2: "reachable0 session2_fired"
    unfolding session2_fired_def by (rule r0_tick[OF 1]) (simp add: spawning_ok)
  have 3: "reachable0 (session2_fired\<lparr>input0 := initInput0\<rparr>)"
    by (rule r0_input[OF 2])
  show ?thesis
    unfolding session2_before_def
    by (rule reachable0_run0[OF 3]) (simp add: spawning_ok ticks_ok)
qed

section \<open>Tracing concrete sessions of the entity-component implementation\<close>

lemma starsOK_filter:
  assumes "starsOK S"
  shows "filter (\<lambda>e. has e C_PLAYER \<and> P e) S = []" "filter (\<lambda>e. has e C_BULLET \<and> P e) S = []"
    "filter (\<lambda>e. has e C_ENEMY \<and> P e) S = []" "filter (\<lambda>e. has e C_INPUT \<and> P e) S = []"
  using assms by (auto simp: starsOK_def list_all_iff filter_empty_conv)

lemma foesOK_filter:
  assumes "foesOK E"
  shows "filter (\<lambda>e. has e C_PLAYER \<and> P e) E = []" "filter (\<lambda>e. has e C_INPUT \<and> P e) E = []"
  using assms by (auto simp: foesOK_def list_all_iff filter_empty_conv)

lemma findAllWith_arena:
  assumes "starsOK S" and "foesOK E"
  shows "findAllWith (arena n inp S E sc h st t) [C_INPUT] = [console inp]"
    "findAllWith (arena n inp S E sc h st t) [C_PLAYER, C_POSITION] = [pilot]"
    "findAllWith (arena n inp S E sc h st t) [C_PLAYER, C_POSITION, C_RENDER] = [pilot]"
    "findAllWith (arena n inp S E sc h st t) [C_ENEMY, C_POSITION, C_RENDER]
       = filter (\<lambda>e. has e C_ENEMY \<and> has e C_POSITION \<and> has e C_RENDER) E"
    "findAllWith (arena n inp S E sc h st t) [C_BULLET, C_POSITION, C_RENDER]
       = filter (\<lambda>e. has e C_BULLET \<and> has e C_POSITION \<and> has e C_RENDER) E"
proof -
  have p: "has pilot C_PLAYER" "has pilot C_POSITION" "has pilot C_RENDER" "\<not> has pilot C_INPUT"
    "\<not> has pilot C_ENEMY" "\<not> has pilot C_BULLET"
    "has (console inp) C_INPUT" "\<not> has (console inp) C_PLAYER" "\<not> has (console inp) C_ENEMY"
    "\<not> has (console inp) C_BULLET"
    by (simp_all add: pilot_def console_def blank_def)
  have e: "entities (arena n inp S E sc h st t) = pilot # console inp # S @ E"
    by (simp add: arena_def)
  show "findAllWith (arena n inp S E sc h st t) [C_INPUT] = [console inp]"
    using starsOK_filter(4)[OF assms(1), of "\<lambda>_. True"] foesOK_filter(2)[OF assms(2), of "\<lambda>_. True"]
    by (simp add: findAllWith_def e p del: has.simps)
  show "findAllWith (arena n inp S E sc h st t) [C_PLAYER, C_POSITION] = [pilot]"
    using starsOK_filter(1)[OF assms(1), of "\<lambda>e. has e C_POSITION"]
      foesOK_filter(1)[OF assms(2), of "\<lambda>e. has e C_POSITION"]
    by (simp add: findAllWith_def e p del: has.simps)
  show "findAllWith (arena n inp S E sc h st t) [C_PLAYER, C_POSITION, C_RENDER] = [pilot]"
    using starsOK_filter(1)[OF assms(1), of "\<lambda>e. has e C_POSITION \<and> has e C_RENDER"]
      foesOK_filter(1)[OF assms(2), of "\<lambda>e. has e C_POSITION \<and> has e C_RENDER"]
    by (simp add: findAllWith_def e p del: has.simps)
  show "findAllWith (arena n inp S E sc h st t) [C_ENEMY, C_POSITION, C_RENDER]
       = filter (\<lambda>e. has e C_ENEMY \<and> has e C_POSITION \<and> has e C_RENDER) E"
    using starsOK_filter(3)[OF assms(1), of "\<lambda>e. has e C_POSITION \<and> has e C_RENDER"]
    by (simp add: findAllWith_def e p del: has.simps)
  show "findAllWith (arena n inp S E sc h st t) [C_BULLET, C_POSITION, C_RENDER]
       = filter (\<lambda>e. has e C_BULLET \<and> has e C_POSITION \<and> has e C_RENDER) E"
    using starsOK_filter(2)[OF assms(1), of "\<lambda>e. has e C_POSITION \<and> has e C_RENDER"]
    by (simp add: findAllWith_def e p del: has.simps)
qed

lemma still_targetVel: "still inp \<Longrightarrow> targetVel inp pos = createVector2 (Fin 0) (Fin 0)"
  by (simp add: still_def targetVel_def targetVelBy_def Let_def)

lemma steer_pilot: "still inp \<Longrightarrow> steer inp pilot = pilot"
  by (simp add: steer_def pilot_def still_targetVel createVector2_def)

lemma starsOK_not_player:
  "starsOK S \<Longrightarrow> x \<in> set S \<Longrightarrow> \<not> has x C_PLAYER \<and> \<not> has x C_BULLET \<and> \<not> has x C_ENEMY
      \<and> \<not> has x C_LIFETIME \<and> \<not> has x C_INPUT \<and> 3 \<le> eid x \<and> eid x < 53"
  by (auto simp: starsOK_def list_all_iff)

lemma foesOK_not_player:
  "foesOK E \<Longrightarrow> x \<in> set E \<Longrightarrow> \<not> has x C_PLAYER \<and> \<not> has x C_INPUT \<and> c_star x = None \<and> 53 \<le> eid x"
  by (auto simp: foesOK_def list_all_iff)

lemma arena_fields [simp]:
  "nextId (arena n inp S E sc h st t) = n" "score (arena n inp S E sc h st t) = sc"
  "hp (arena n inp S E sc h st t) = h" "gameState (arena n inp S E sc h st t) = st"
  "lastFireTime (arena n inp S E sc h st t) = t" "width (arena n inp S E sc h st t) = GAME_WIDTH"
  "height (arena n inp S E sc h st t) = GAME_HEIGHT"
  "entities (arena n inp S E sc h st t) = pilot # console inp # S @ E"
  by (simp_all add: arena_def)

lemma arena_entities: "(arena n inp S E sc h st t)\<lparr>entities := pilot # console inp # S' @ E'\<rparr> = arena n inp S' E' sc h st t"
  by (simp add: arena_def)

lemma system_InputToPlayer_arena:
  assumes "still inp" and "starsOK S" and "foesOK E"
  shows "system_InputToPlayer (arena n inp S E sc h st t) = arena n inp S E sc h st t"
proof -
  define f where "f = (\<lambda>p. if list_all (has p) [C_PLAYER, C_POSITION, C_VELOCITY] then steer inp p else p)"
  have s: "map f S = S"
    using starsOK_not_player[OF assms(2)] by (intro map_idI) (simp add: f_def)
  have e: "map f E = E"
    using foesOK_not_player[OF assms(3)] by (intro map_idI) (simp add: f_def)
  have p: "f pilot = pilot" using steer_pilot[OF assms(1)] by (simp add: f_def)
  have c: "f (console inp) = console inp" by (simp add: f_def console_def blank_def)
  have "system_InputToPlayer (arena n inp S E sc h st t)
          = (arena n inp S E sc h st t)\<lparr>entities := map f (pilot # console inp # S @ E)\<rparr>"
    unfolding system_InputToPlayer_def findAllWith_arena(1)[OF assms(2,3)] f_def
    by (simp add: console_def)
  also have "\<dots> = arena n inp S E sc h st t"
    by (simp add: s e p c arena_entities)
  finally show ?thesis .
qed

lemma system_Shooting_arena:
  assumes "starsOK S" and "foesOK E"
  shows "system_Shooting env (arena n inp S E sc h st t)
           = arena (n + length (firedE env inp t n)) inp S (E @ firedE env inp t n) sc h st
               (if firedE env inp t n = [] then t else now env)"
proof -
  have f: "fires env (arena n inp S E sc h st t) = (shoot inp \<and> now env - t > BULLET_FIRE_RATE)"
    unfolding fires_def findAllWith_arena[OF assms]
    by (simp add: console_def arena_def)
  have b: "buildBullet (createVector2 (Fin 160) (Fin 508)) (blank n) = bulletE n 160 508 3000"
    by (simp add: buildBullet_def bulletE_def createVector2_def)
  show ?thesis
    unfolding system_Shooting_def f findAllWith_arena[OF assms]
    by (simp add: firedE_def pilot_def createEntity_def b)
qed

lemma system_EnemySpawn_arena:
  "system_EnemySpawn env (arena n inp S E sc h st t)
     = arena (n + length (spawnedE env n)) inp S (E @ spawnedE env n) sc h st t"
  by (simp add: system_EnemySpawn_def spawnedE_def createEntity_def buildEnemy_def enemyE_def
        arena_def GAME_WIDTH_def ENEMY_SIZE_def)

lemma moveEntity_glide: "c_star e = None \<Longrightarrow> moveEntity env dt GAME_WIDTH GAME_HEIGHT e = glide dt e"
  by (simp add: glide_def moveEntity_def Let_def split: option.splits)

lemma moveEntity_pilot: "moveEntity env dt w h pilot = pilot"
  by (simp add: moveEntity_def pilot_def Let_def blank_def createVector2_def)

lemma moveEntity_console: "moveEntity env dt w h (console inp) = console inp"
  by (simp add: moveEntity_def console_def Let_def blank_def)

lemma clampIf_pilot: "clampIf GAME_WIDTH GAME_HEIGHT pilot = pilot"
  by (simp add: clampIf_def clampPlayer_def pilot_def Let_def blank_def createVector2_def
        GAME_WIDTH_def GAME_HEIGHT_def PLAYER_SIZE_def)

lemma clampIf_other: "\<not> has e C_PLAYER \<Longrightarrow> clampIf w h e = e"
  by (simp add: clampIf_def)

lemma fold_destroy_none:
  "\<forall>e \<in> set xs. \<not> P e \<Longrightarrow> fold (\<lambda>e h. if P e then destroyEntity e h else h) xs g = g"
  by (induction xs arbitrary: g) simp_all

lemma starsOK_starsMove: "starsOK S \<Longrightarrow> starsOK (starsMove env dt S)"
  by (simp add: starsOK_def starsMove_def list_all_iff)

lemma foesOK_glide: "foesOK E \<Longrightarrow> foesOK (map (glide dt) E)"
  by (simp add: foesOK_def glide_def list_all_iff)

lemma system_Movement_arena:
  assumes "starsOK S" and "foesOK E" and "\<forall>x \<in> set E. \<not> expired (glide dt x)"
  shows "system_Movement env dt (arena n inp S E sc h st t)
           = arena n inp (starsMove env dt S) (map (glide dt) E) sc h st t"
proof -
  let ?mv = "moveEntity env dt GAME_WIDTH GAME_HEIGHT"
  let ?M = "pilot # console inp # starsMove env dt S @ map (glide dt) E"
  have e: "map ?mv E = map (glide dt) E"
    using foesOK_not_player[OF assms(2)] by (intro map_cong) (simp_all add: moveEntity_glide)
  have m: "map ?mv (pilot # console inp # S @ E) = ?M"
    by (simp add: moveEntity_pilot moveEntity_console starsMove_def e)
  have xs: "\<not> expired y" if "y \<in> set (starsMove env dt S)" for y
    using starsOK_not_player[OF starsOK_starsMove[OF assms(1)] that] by (simp add: expired_def)
  have xp: "\<not> expired pilot" "\<not> expired (console inp)"
    by (simp_all add: expired_def pilot_def console_def blank_def)
  have x: "\<forall>y \<in> set ?M. \<not> expired y"
    using assms(3) xs xp by auto
  have cs: "map (clampIf GAME_WIDTH GAME_HEIGHT) (starsMove env dt S) = starsMove env dt S"
    using starsOK_not_player[OF starsOK_starsMove[OF assms(1)]] by (intro map_idI clampIf_other) simp
  have "clampIf GAME_WIDTH GAME_HEIGHT y = y" if "y \<in> set (map (glide dt) E)" for y
    using foesOK_not_player[OF foesOK_glide[OF assms(2)] that] by (intro clampIf_other) simp
  then have ce: "map (clampIf GAME_WIDTH GAME_HEIGHT) (map (glide dt) E) = map (glide dt) E"
    by (intro map_idI)
  have cc: "clampIf GAME_WIDTH GAME_HEIGHT (console inp) = console inp"
    by (rule clampIf_other) (simp add: console_def blank_def)
  have c: "map (clampIf GAME_WIDTH GAME_HEIGHT) ?M = ?M"
    by (simp only: list.map map_append clampIf_pilot cc cs ce)
  have "entities (system_Movement env dt (arena n inp S E sc h st t)) = ?M"
    unfolding system_Movement_entities arena_fields m
    using x c by (simp only: list_ex_iff filter_id_conv) simp
  then show ?thesis
    by (intro Game.equality) (simp_all add: arena_def)
qed

lemma destroyEntity_arena:
  assumes "starsOK S" and "53 \<le> eid d"
  shows "destroyEntity d (arena n inp S E sc h st t)
           = arena n inp S (filter (\<lambda>x. eid x \<noteq> eid d) E) sc h st t"
proof -
  have "eid x \<noteq> eid d" if "x \<in> set S" for x
    using starsOK_not_player[OF assms(1) that] assms(2) by linarith
  then have "filter (\<lambda>x. eid x \<noteq> eid d) S = S"
    by (intro filter_True) simp
  then show ?thesis
    using assms(2) by (simp add: destroyEntity_def arena_def pilot_def console_def blank_def)
qed

lemma takeHit_arena:
  "takeHit (arena n inp S E sc h st t)
     = arena n inp S E sc (if h - 1 \<le> 0 then 0 else h - 1) (if h - 1 \<le> 0 then GameOver else st) t"
  by (simp add: takeHit_def arena_def Let_def)

lemma overlap_enemy_pilot:
  "overlap (enemyE i ex ey) pilot = ((ex - 160) * (ex - 160) + (ey - 508) * (ey - 508) < 324)"
  by (simp add: overlap_def enemyE_def pilot_def blank_def createVector2_def
        sqrt_less_iff ENEMY_SIZE_def PLAYER_SIZE_def power2_eq_square)

lemma overlap_bullet_enemy:
  "overlap (bulletE i bx by ttl) (enemyE j ex ey) = ((bx - ex) * (bx - ex) + (by - ey) * (by - ey) < 100)"
  by (simp add: overlap_def enemyE_def bulletE_def blank_def createVector2_def
        sqrt_less_iff ENEMY_SIZE_def BULLET_SIZE_def power2_eq_square)

text \<open>An enemy above a point outside the player's reach is outside its reach.\<close>

lemma enemy_above_reach:
  assumes "ey \<le> c" and "c \<le> 508" and "324 \<le> (ex - 160) * (ex - 160) + (c - 508) * (c - 508)"
  shows "\<not> overlap (enemyE i ex ey) pilot"
proof -
  have "(508 - c) * (508 - c) \<le> (508 - ey) * (508 - ey)"
    using assms(1,2) by (intro mult_mono) simp_all
  then have "(c - 508) * (c - 508) \<le> (ey - 508) * (ey - 508)"
    by (simp add: algebra_simps)
  with assms(3) show ?thesis by (simp add: overlap_enemy_pilot)
qed

lemma system_Collision_arena:
  assumes "starsOK S" and "foesOK E"
  shows "system_Collision (arena n inp S E sc h st t)
           = bulletLoop (filter (\<lambda>e. has e C_BULLET \<and> has e C_POSITION \<and> has e C_RENDER) E)
               (filter (\<lambda>e. has e C_ENEMY \<and> has e C_POSITION \<and> has e C_RENDER) E)
               (playerLoop (filter (\<lambda>e. has e C_ENEMY \<and> has e C_POSITION \<and> has e C_RENDER) E) [pilot]
                  (arena n inp S E sc h st t))"
  unfolding system_Collision_def Let_def findAllWith_arena[OF assms] ..

lemma playerLoop_miss:
  "\<forall>x \<in> set es. \<forall>p \<in> set ps. \<not> overlap x p \<Longrightarrow> playerLoop es ps g = g"
  unfolding playerLoop_def
proof (induction es arbitrary: g)
  case Nil
  show ?case by simp
next
  case (Cons en es)
  have "fold (\<lambda>player h. if overlap en player then takeHit (destroyEntity en h) else h) ps k = k" for k
    using Cons.prems by (induction ps arbitrary: k) simp_all
  with Cons show ?case by simp
qed

lemma scanEnemies_miss: "\<forall>x \<in> set es. \<not> overlap b x \<Longrightarrow> scanEnemies b es g = g"
  by (induction es) simp_all

lemma bulletLoop_miss:
  "\<forall>b \<in> set bs. \<forall>x \<in> set es. \<not> overlap b x \<Longrightarrow> bulletLoop bs es g = g"
  unfolding bulletLoop_def
  by (induction bs arbitrary: g) (simp_all add: scanEnemies_miss)

lemma system_Collision_miss:
  assumes "starsOK S" and "foesOK E"
    and "\<forall>x \<in> set E. has x C_ENEMY \<longrightarrow> \<not> overlap x pilot"
    and "\<forall>b \<in> set E. \<forall>x \<in> set E. has b C_BULLET \<longrightarrow> has x C_ENEMY \<longrightarrow> \<not> overlap b x"
  shows "system_Collision (arena n inp S E sc h st t) = arena n inp S E sc h st t"
  unfolding system_Collision_arena[OF assms(1,2)]
  using assms(3,4) by (subst playerLoop_miss, simp, subst bulletLoop_miss, simp, simp)

lemma outOfBounds_enemyE:
  "outOfBounds GAME_WIDTH GAME_HEIGHT (enemyE i ex ey) = (ey < - 36 \<or> 604 < ey \<or> ex < - 36 \<or> 356 < ex)"
  by (simp add: outOfBounds_def enemyE_def blank_def createVector2_def Let_def ENEMY_SIZE_def
        GAME_WIDTH_def GAME_HEIGHT_def)


lemma system_Cleanup_arena:
  assumes "starsOK S" and "\<forall>x \<in> set E. \<not> outOfBounds GAME_WIDTH GAME_HEIGHT x"
  shows "system_Cleanup (arena n inp S E sc h st t) = arena n inp S E sc h st t"
proof -
  have s: "\<not> outOfBounds GAME_WIDTH GAME_HEIGHT y" if "y \<in> set S" for y
    using starsOK_not_player[OF assms(1) that] by (simp add: outOfBounds_def)
  have p: "\<not> outOfBounds GAME_WIDTH GAME_HEIGHT pilot" "\<not> outOfBounds GAME_WIDTH GAME_HEIGHT (console inp)"
    by (simp_all add: outOfBounds_def pilot_def console_def blank_def)
  have "\<forall>y \<in> set (entities (arena n inp S E sc h st t)). \<not> outOfBounds GAME_WIDTH GAME_HEIGHT y"
    using assms(2) s p by auto
  then show ?thesis
    unfolding system_Cleanup_def arena_fields by (rule fold_destroy_none)
qed

lemma glide_enemyE: "glide dt (enemyE i ex ey) = enemyE i ex (ey + 3 / 2)"
  by (simp add: glide_def moveEntity_def enemyE_def blank_def Let_def createVector2_def ENEMY_SPEED_def)


lemma expired_enemyE: "\<not> expired (enemyE i ex ey)"
  by (simp add: expired_def enemyE_def blank_def)


lemma foesOK_simps:
  "foesOK []" "foesOK (enemyE i ex ey # E) = (53 \<le> i \<and> foesOK E)"
  "foesOK (bulletE i bx by ttl # E) = (53 \<le> i \<and> foesOK E)"
  "foesOK (E @ E') = (foesOK E \<and> foesOK E')"
  by (auto simp: foesOK_def enemyE_def bulletE_def blank_def)

lemma has_enemyE:
  "has (enemyE i ex ey) C_ENEMY" "\<not> has (enemyE i ex ey) C_BULLET"
  "has (enemyE i ex ey) C_POSITION" "has (enemyE i ex ey) C_RENDER" "eid (enemyE i ex ey) = i"
  by (simp_all add: enemyE_def blank_def)

lemma has_bulletE:
  "\<not> has (bulletE i bx by ttl) C_ENEMY" "has (bulletE i bx by ttl) C_BULLET"
  "has (bulletE i bx by ttl) C_POSITION" "has (bulletE i bx by ttl) C_RENDER"
  "eid (bulletE i bx by ttl) = i"
  by (simp_all add: bulletE_def blank_def)

lemma foesOK_fired: "53 \<le> n \<Longrightarrow> foesOK (firedE env inp t n)"
  by (simp add: firedE_def foesOK_simps)

lemma foesOK_spawned: "53 \<le> n \<Longrightarrow> foesOK (spawnedE env n)"
  by (simp add: spawnedE_def foesOK_simps)

text \<open>A playing tick on which nothing is hit, nothing expires and nothing leaves the playfield.\<close>

lemma tick_calm:
  assumes i: "still inp" and s: "starsOK S" and f: "foesOK E" and n: "53 \<le> n"
    and x: "\<forall>x \<in> set (map (glide dt) (E @ firedE env inp t n @ spawnedE env (n + length (firedE env inp t n)))).
              \<not> expired x"
    and o: "\<forall>x \<in> set (map (glide dt) (E @ firedE env inp t n @ spawnedE env (n + length (firedE env inp t n)))).
              \<not> outOfBounds GAME_WIDTH GAME_HEIGHT x"
    and p: "\<forall>x \<in> set (map (glide dt) (E @ firedE env inp t n @ spawnedE env (n + length (firedE env inp t n)))).
              has x C_ENEMY \<longrightarrow> \<not> overlap x pilot"
    and b: "\<forall>b \<in> set (map (glide dt) (E @ firedE env inp t n @ spawnedE env (n + length (firedE env inp t n)))).
            \<forall>x \<in> set (map (glide dt) (E @ firedE env inp t n @ spawnedE env (n + length (firedE env inp t n)))).
              has b C_BULLET \<longrightarrow> has x C_ENEMY \<longrightarrow> \<not> overlap b x"
  shows "updateAndRender env dt (arena n inp S E sc h Playing t)
           = arena (n + length (firedE env inp t n)
                      + length (spawnedE env (n + length (firedE env inp t n)))) inp
               (starsMove env dt S)
               (map (glide dt) (E @ firedE env inp t n @ spawnedE env (n + length (firedE env inp t n))))
               sc h Playing (if firedE env inp t n = [] then t else now env)"
proof -
  define F where "F = firedE env inp t n"
  define P where "P = spawnedE env (n + length F)"
  define E1 where "E1 = E @ F @ P"
  define E2 where "E2 = map (glide dt) E1"
  define t' where "t' = (if F = [] then t else now env)"
  define m where "m = n + length F + length P"
  have f1: "foesOK (E @ F)" using f foesOK_fired[OF n] by (simp add: foesOK_simps F_def)
  have "53 \<le> n + length F" using n by simp
  then have "foesOK P" unfolding P_def by (rule foesOK_spawned)
  with f1 have f2: "foesOK E1" by (simp add: foesOK_simps E1_def)
  have 0: "system_InputToPlayer (arena n inp S E sc h Playing t) = arena n inp S E sc h Playing t"
    by (rule system_InputToPlayer_arena[OF i s f])
  have 1: "system_Shooting env (arena n inp S E sc h Playing t)
             = arena (n + length F) inp S (E @ F) sc h Playing t'"
    unfolding F_def t'_def by (rule system_Shooting_arena[OF s f])
  have 2: "system_EnemySpawn env (arena (n + length F) inp S (E @ F) sc h Playing t')
             = arena m inp S E1 sc h Playing t'"
    unfolding m_def E1_def P_def by (simp add: system_EnemySpawn_arena)
  have x': "\<forall>x \<in> set E1. \<not> expired (glide dt x)"
    using x unfolding E1_def P_def F_def set_map by blast
  have 3: "system_Movement env dt (arena m inp S E1 sc h Playing t')
             = arena m inp (starsMove env dt S) E2 sc h Playing t'"
    unfolding E2_def by (rule system_Movement_arena[OF s f2 x'])
  have 4: "system_Collision (arena m inp (starsMove env dt S) E2 sc h Playing t')
             = arena m inp (starsMove env dt S) E2 sc h Playing t'"
    unfolding E2_def
  proof (rule system_Collision_miss[OF starsOK_starsMove[OF s] foesOK_glide[OF f2]])
    show "\<forall>x\<in>set (map (glide dt) E1). has x C_ENEMY \<longrightarrow> \<not> overlap x pilot"
      using p unfolding E1_def P_def F_def .
    show "\<forall>b\<in>set (map (glide dt) E1). \<forall>x\<in>set (map (glide dt) E1).
            has b C_BULLET \<longrightarrow> has x C_ENEMY \<longrightarrow> \<not> overlap b x"
      using b unfolding E1_def P_def F_def .
  qed
  have 5: "system_Cleanup (arena m inp (starsMove env dt S) E2 sc h Playing t')
             = arena m inp (starsMove env dt S) E2 sc h Playing t'"
    unfolding E2_def
  proof (rule system_Cleanup_arena[OF starsOK_starsMove[OF s]])
    show "\<forall>x\<in>set (map (glide dt) E1). \<not> outOfBounds GAME_WIDTH GAME_HEIGHT x"
      using o unfolding E1_def P_def F_def .
  qed
  have "gameState (arena n inp S E sc h Playing t) \<noteq> GameOver" by simp
  from updateAndRender_playing[OF this]
  have "updateAndRender env dt (arena n inp S E sc h Playing t)
          = arena m inp (starsMove env dt S) E2 sc h Playing t'"
    by (simp only: 0 1 2 3 4 5)
  then show ?thesis
    unfolding m_def E2_def E1_def P_def F_def t'_def .
qed

text \<open>A tick after the game is over: everything drifts on, nothing else happens.\<close>

lemma tick_over:
  assumes s: "starsOK S" and f: "foesOK E" and x: "\<forall>x \<in> set E. \<not> expired (glide dt x)"
  shows "updateAndRender env dt (arena n inp S E sc h GameOver t)
           = arena n inp (starsMove env dt S) (map (glide dt) E) sc h GameOver t"
proof -
  have "gameState (arena n inp S E sc h GameOver t) = GameOver" by simp
  from updateAndRender_gameOver[OF this] show ?thesis
    by (simp only: system_Movement_arena[OF s f x])
qed

lemma run_append: "run (xs @ ys) g = run ys (run xs g)"
  by (induction xs arbitrary: g) auto

lemma reachable_run: "reachable g \<Longrightarrow> list_all (\<lambda>(e, d). env_ok e) es \<Longrightarrow> reachable (run es g)"
  by (induction es arbitrary: g) (auto simp: r_tick)

lemma length_eticks [simp]: "length (eticks a n) = n"
  by (simp add: eticks_def)

lemma eticks_ok: "list_all (\<lambda>(e, d). env_ok e) (eticks a n)"
  by (simp add: eticks_def list_all_iff quiet_ok)

lemma eticks_quiet: "\<forall>(e, d) \<in> set (eticks a n). spawnedE e m = [] \<and> d = 17"
  by (auto simp: eticks_def spawnedE_def quiet_def ENEMY_SPAWN_RATE_def)

lemma firedE_idle: "\<not> shoot inp \<Longrightarrow> firedE env inp t n = []"
  by (simp add: firedE_def)

lemma starsRun_Cons: "starsRun ((e, d) # envs) S = starsRun envs (starsMove e d S)"
  by (simp add: starsRun_def)

lemma starsOK_starsRun: "starsOK S \<Longrightarrow> starsOK (starsRun envs S)"
  by (induction envs arbitrary: S) (auto simp: starsRun_def starsOK_starsMove)

text \<open>A stretch of playing ticks on which nothing spawns, nothing is hit and nothing leaves.\<close>

lemma run_calm:
  assumes "still inp" and "\<not> shoot inp" and "starsOK S" and "foesOK E" and "53 \<le> n"
    and "\<forall>(e, d) \<in> set envs. spawnedE e n = [] \<and> d = dt"
    and "\<forall>k < length envs. \<forall>x \<in> set E.
           \<not> expired ((glide dt ^^ Suc k) x)
           \<and> \<not> outOfBounds GAME_WIDTH GAME_HEIGHT ((glide dt ^^ Suc k) x)
           \<and> (has ((glide dt ^^ Suc k) x) C_ENEMY \<longrightarrow> \<not> overlap ((glide dt ^^ Suc k) x) pilot)"
    and "\<forall>k < length envs. \<forall>b \<in> set E. \<forall>x \<in> set E.
           has ((glide dt ^^ Suc k) b) C_BULLET \<longrightarrow> has ((glide dt ^^ Suc k) x) C_ENEMY
           \<longrightarrow> \<not> overlap ((glide dt ^^ Suc k) b) ((glide dt ^^ Suc k) x)"
  shows "run envs (arena n inp S E sc h Playing t)
           = arena n inp (starsRun envs S) (map (glide dt ^^ length envs) E) sc h Playing t"
  using assms(3,4,6,7,8)
proof (induction envs arbitrary: S E)
  case Nil
  show ?case by (simp add: starsRun_def)
next
  case (Cons a envs)
  obtain e d where a: "a = (e, d)" by (cases a)
  have sp: "spawnedE e n = []" and d: "d = dt" using Cons.prems(3) by (simp_all add: a)
  have fi: "firedE e inp t n = []" by (rule firedE_idle[OF assms(2)])
  have 0: "0 < length (a # envs)" by simp
  have step: "updateAndRender e dt (arena n inp S E sc h Playing t)
                = arena n inp (starsMove e dt S) (map (glide dt) E) sc h Playing t"
    using tick_calm[OF assms(1) Cons.prems(1,2) assms(5), of dt e t sc h]
      Cons.prems(4)[rule_format, OF 0] Cons.prems(5)[rule_format, OF 0]
    by (simp add: fi sp)
  have sh: "(glide dt ^^ Suc k) (glide dt z) = (glide dt ^^ Suc (Suc k)) z" for k z
    by (simp add: funpow_swap1)
  have "run envs (arena n inp (starsMove e dt S) (map (glide dt) E) sc h Playing t)
          = arena n inp (starsRun envs (starsMove e dt S))
              (map (glide dt ^^ length envs) (map (glide dt) E)) sc h Playing t"
  proof (rule Cons.IH)
    show "starsOK (starsMove e dt S)" by (rule starsOK_starsMove[OF Cons.prems(1)])
    show "foesOK (map (glide dt) E)" by (rule foesOK_glide[OF Cons.prems(2)])
    show "\<forall>(e, d)\<in>set envs. spawnedE e n = [] \<and> d = dt" using Cons.prems(3) by simp
    show "\<forall>k<length envs. \<forall>x\<in>set (map (glide dt) E).
            \<not> expired ((glide dt ^^ Suc k) x)
            \<and> \<not> outOfBounds GAME_WIDTH GAME_HEIGHT ((glide dt ^^ Suc k) x)
            \<and> (has ((glide dt ^^ Suc k) x) C_ENEMY \<longrightarrow> \<not> overlap ((glide dt ^^ Suc k) x) pilot)"
      using Cons.prems(4) by (auto simp: sh simp del: funpow.simps has.simps)
    show "\<forall>k<length envs. \<forall>b\<in>set (map (glide dt) E). \<forall>x\<in>set (map (glide dt) E).
            has ((glide dt ^^ Suc k) b) C_BULLET \<longrightarrow> has ((glide dt ^^ Suc k) x) C_ENEMY
            \<longrightarrow> \<not> overlap ((glide dt ^^ Suc k) b) ((glide dt ^^ Suc k) x)"
      using Cons.prems(5) by (auto simp: sh simp del: funpow.simps has.simps)
  qed
  then show ?case
    by (simp add: a d step starsRun_Cons funpow_swap1 comp_def)
qed

text \<open>A stretch of ticks after the game is over.\<close>

lemma run_over:
  assumes "starsOK S" and "foesOK E"
    and "\<forall>(e, d) \<in> set envs. d = dt"
    and "\<forall>k < length envs. \<forall>x \<in> set E. \<not> expired ((glide dt ^^ Suc k) x)"
  shows "run envs (arena n inp S E sc h GameOver t)
           = arena n inp (starsRun envs S) (map (glide dt ^^ length envs) E) sc h GameOver t"
  using assms
proof (induction envs arbitrary: S E)
  case Nil
  show ?case by (simp add: starsRun_def)
next
  case (Cons a envs)
  obtain e d where a: "a = (e, d)" by (cases a)
  have d: "d = dt" using Cons.prems(3) by (simp add: a)
  have 0: "0 < length (a # envs)" by simp
  have step: "updateAndRender e dt (arena n inp S E sc h GameOver t)
                = arena n inp (starsMove e dt S) (map (glide dt) E) sc h GameOver t"
    using tick_over[OF Cons.prems(1,2), of dt e n inp sc h t] Cons.prems(4)[rule_format, OF 0]
    by simp
  have sh: "(glide dt ^^ Suc k) (glide dt z) = (glide dt ^^ Suc (Suc k)) z" for k z
    by (simp add: funpow_swap1)
  have "run envs (arena n inp (starsMove e dt S) (map (glide dt) E) sc h GameOver t)
          = arena n inp (starsRun envs (starsMove e dt S))
              (map (glide dt ^^ length envs) (map (glide dt) E)) sc h GameOver t"
  proof (rule Cons.IH)
    show "starsOK (starsMove e dt S)" by (rule starsOK_starsMove[OF Cons.prems(1)])
    show "foesOK (map (glide dt) E)" by (rule foesOK_glide[OF Cons.prems(2)])
    show "\<forall>(e, d)\<in>set envs. d = dt" using Cons.prems(3) by simp
    show "\<forall>k<length envs. \<forall>x\<in>set (map (glide dt) E). \<not> expired ((glide dt ^^ Suc k) x)"
      using Cons.prems(4) by (auto simp: sh simp del: funpow.simps)
  qed
  then show ?case
    by (simp add: a d step starsRun_Cons funpow_swap1 comp_def)
qed

lemma glide_n_enemyE: "(glide dt ^^ k) (enemyE i ex ey) = enemyE i ex (ey + 3 / 2 * real k)"
proof (induction k)
  case 0
  show ?case by simp
next
  case (Suc k)
  have "(glide dt ^^ Suc k) (enemyE i ex ey) = enemyE i ex (ey + 3 / 2 * real k + 3 / 2)"
    using Suc by (simp add: glide_enemyE)
  also have "ey + 3 / 2 * real k + 3 / 2 = ey + 3 / 2 * real (Suc k)" by (simp add: algebra_simps)
  finally show ?case .
qed

lemma starsOK_starsOf: "starsOK (starsOf g r)"
  by (auto simp: starsOK_def starsOf_def list_all_iff buildStar_def blank_def STAR_COUNT_def)

lemma construct_arena:
  "construct r = arena 53 idleInput (firstStars r) [] 0 3 Playing (resetNow r)"
  by (simp add: construct_def reset_eq arena_def firstStars_def pilot_def console_def idleInput_def
        buildPlayer_def initInput_def STAR_COUNT_def GAME_WIDTH_def GAME_HEIGHT_def)

lemma still_idle: "still idleInput" "\<not> shoot idleInput"
  by (simp_all add: still_def idleInput_def)

text \<open>The state on which the collision system of a playing tick runs.\<close>

lemma beforeCollision_arena:
  assumes i: "still inp" and s: "starsOK S" and f: "foesOK E" and n: "53 \<le> n"
    and x: "\<forall>x \<in> set (map (glide dt) (E @ firedE env inp t n @ spawnedE env (n + length (firedE env inp t n)))).
              \<not> expired x"
  shows "beforeCollision env dt (arena n inp S E sc h st t)
           = arena (n + length (firedE env inp t n)
                      + length (spawnedE env (n + length (firedE env inp t n)))) inp
               (starsMove env dt S)
               (map (glide dt) (E @ firedE env inp t n @ spawnedE env (n + length (firedE env inp t n))))
               sc h st (if firedE env inp t n = [] then t else now env)"
proof -
  define F where "F = firedE env inp t n"
  define P where "P = spawnedE env (n + length F)"
  define E1 where "E1 = E @ F @ P"
  define t' where "t' = (if F = [] then t else now env)"
  define m where "m = n + length F + length P"
  have f1: "foesOK (E @ F)" using f foesOK_fired[OF n] by (simp add: foesOK_simps F_def)
  have "53 \<le> n + length F" using n by simp
  then have "foesOK P" unfolding P_def by (rule foesOK_spawned)
  with f1 have f2: "foesOK E1" by (simp add: foesOK_simps E1_def)
  have 0: "system_InputToPlayer (arena n inp S E sc h st t) = arena n inp S E sc h st t"
    by (rule system_InputToPlayer_arena[OF i s f])
  have 1: "system_Shooting env (arena n inp S E sc h st t) = arena (n + length F) inp S (E @ F) sc h st t'"
    unfolding F_def t'_def by (rule system_Shooting_arena[OF s f])
  have 2: "system_EnemySpawn env (arena (n + length F) inp S (E @ F) sc h st t') = arena m inp S E1 sc h st t'"
    unfolding m_def E1_def P_def by (simp add: system_EnemySpawn_arena)
  have x': "\<forall>x \<in> set E1. \<not> expired (glide dt x)"
    using x unfolding E1_def P_def F_def set_map by blast
  have 3: "system_Movement env dt (arena m inp S E1 sc h st t')
             = arena m inp (starsMove env dt S) (map (glide dt) E1) sc h st t'"
    by (rule system_Movement_arena[OF s f2 x'])
  have "beforeCollision env dt (arena n inp S E sc h st t)
          = arena m inp (starsMove env dt S) (map (glide dt) E1) sc h st t'"
    unfolding beforeCollision_def by (simp only: 0 1 2 3)
  then show ?thesis
    unfolding m_def E1_def P_def F_def t'_def .
qed

lemma updateAndRender_collide:
  "gameState g \<noteq> GameOver \<Longrightarrow>
     updateAndRender env dt g = system_Cleanup (system_Collision (beforeCollision env dt g))"
  by (simp add: updateAndRender_def beforeCollision_def)

lemma spawnedE_spawning: "spawnedE (spawning t r) n = [enemyE n (r * 304 + 8) (- 16)]"
  by (simp add: spawnedE_def spawning_def ENEMY_SPAWN_RATE_def)

lemma spawnedE_quiet: "spawnedE (quiet t) n = []"
  by (simp add: spawnedE_def quiet_def ENEMY_SPAWN_RATE_def)

text \<open>Session 3, after the four spawns.\<close>

lemma session3_spawned:
  assumes "starsOK S"
  shows "run spawns3 (arena 53 idleInput S [] 0 3 Playing 0)
           = arena 57 idleInput (starsRun spawns3 S)
               [enemyE 53 160 (- 10), enemyE 54 160 (- 23 / 2), enemyE 55 160 (- 13), enemyE 56 8 (- 29 / 2)]
               0 3 Playing 0"
proof -
  note ev = firedE_idle[OF still_idle(2)] spawnedE_spawning foesOK_simps glide_enemyE expired_enemyE
    outOfBounds_enemyE overlap_enemy_pilot has_enemyE
  let ?e1 = "spawning 1017 (1 / 2)" and ?e2 = "spawning 1034 (1 / 2)"
  let ?e3 = "spawning 1051 (1 / 2)" and ?e4 = "spawning 1068 0"
  let ?S1 = "starsMove ?e1 17 S"
  let ?S2 = "starsMove ?e2 17 ?S1"
  let ?S3 = "starsMove ?e3 17 ?S2"
  let ?S4 = "starsMove ?e4 17 ?S3"
  have s1: "starsOK ?S1" by (rule starsOK_starsMove[OF assms])
  have s2: "starsOK ?S2" by (rule starsOK_starsMove[OF s1])
  have s3: "starsOK ?S3" by (rule starsOK_starsMove[OF s2])
  have 1: "updateAndRender ?e1 17 (arena 53 idleInput S [] 0 3 Playing 0)
             = arena 54 idleInput ?S1 [enemyE 53 160 (- 29 / 2)] 0 3 Playing 0"
    by (subst tick_calm[OF still_idle(1) assms]) (simp_all add: ev del: has.simps)
  have 2: "updateAndRender ?e2 17 (arena 54 idleInput ?S1 [enemyE 53 160 (- 29 / 2)] 0 3 Playing 0)
             = arena 55 idleInput ?S2 [enemyE 53 160 (- 13), enemyE 54 160 (- 29 / 2)] 0 3 Playing 0"
    by (subst tick_calm[OF still_idle(1) s1]) (simp_all add: ev del: has.simps)
  have 3: "updateAndRender ?e3 17 (arena 55 idleInput ?S2 [enemyE 53 160 (- 13), enemyE 54 160 (- 29 / 2)] 0 3 Playing 0)
             = arena 56 idleInput ?S3 [enemyE 53 160 (- 23 / 2), enemyE 54 160 (- 13), enemyE 55 160 (- 29 / 2)]
                 0 3 Playing 0"
    by (subst tick_calm[OF still_idle(1) s2]) (simp_all add: ev del: has.simps)
  have 4: "updateAndRender ?e4 17 (arena 56 idleInput ?S3
               [enemyE 53 160 (- 23 / 2), enemyE 54 160 (- 13), enemyE 55 160 (- 29 / 2)] 0 3 Playing 0)
             = arena 57 idleInput ?S4
                 [enemyE 53 160 (- 10), enemyE 54 160 (- 23 / 2), enemyE 55 160 (- 13), enemyE 56 8 (- 29 / 2)]
                 0 3 Playing 0"
    by (subst tick_calm[OF still_idle(1) s3]) (simp_all add: ev del: has.simps)
  show ?thesis
    unfolding spawns3_def run.simps 1 2 3 4 by (simp add: starsRun_def)
qed


subsection \<open>Session 3: the game ends with an enemy still in the store\<close>

lemma session3_descent:
  assumes "starsOK S"
  shows "run (eticks 5 333) (arena 57 idleInput S
           [enemyE 53 160 (- 10), enemyE 54 160 (- 23 / 2), enemyE 55 160 (- 13), enemyE 56 8 (- 29 / 2)]
           0 3 Playing 0)
         = arena 57 idleInput (starsRun (eticks 5 333) S)
             [enemyE 53 160 (979 / 2), enemyE 54 160 488, enemyE 55 160 (973 / 2), enemyE 56 8 485]
             0 3 Playing 0"
proof -
  let ?E = "[enemyE 53 160 (- 10), enemyE 54 160 (- 23 / 2), enemyE 55 160 (- 13), enemyE 56 8 (- 29 / 2)]"
  have a: "\<not> overlap (enemyE i 160 (y + 3 / 2 * t)) pilot" if "y + 3 / 2 * t \<le> 979 / 2" for i and y t :: real
    by (rule enemy_above_reach[where c = "979 / 2"]) (use that in simp_all)
  have b: "\<not> overlap (enemyE i 8 (y + 3 / 2 * t)) pilot" if "y + 3 / 2 * t \<le> 979 / 2" for i and y t :: real
    by (rule enemy_above_reach[where c = "979 / 2"]) (use that in simp_all)
  have "run (eticks 5 333) (arena 57 idleInput S ?E 0 3 Playing 0)
          = arena 57 idleInput (starsRun (eticks 5 333) S)
              (map (glide 17 ^^ length (eticks 5 333)) ?E) 0 3 Playing 0"
  proof (rule run_calm[OF still_idle assms])
    show "foesOK ?E" by (simp add: foesOK_simps)
    show "53 \<le> (57::nat)" by simp
    show "\<forall>(e, d)\<in>set (eticks 5 333). spawnedE e 57 = [] \<and> d = 17" by (rule eticks_quiet)
    show "\<forall>k<length (eticks 5 333). \<forall>b\<in>set ?E. \<forall>x\<in>set ?E.
            has ((glide 17 ^^ Suc k) b) C_BULLET \<longrightarrow> has ((glide 17 ^^ Suc k) x) C_ENEMY
            \<longrightarrow> \<not> overlap ((glide 17 ^^ Suc k) b) ((glide 17 ^^ Suc k) x)"
      by (simp add: glide_n_enemyE has_enemyE del: funpow.simps has.simps of_nat_Suc)
    show "\<forall>k<length (eticks 5 333). \<forall>x\<in>set ?E.
            \<not> expired ((glide 17 ^^ Suc k) x)
            \<and> \<not> outOfBounds GAME_WIDTH GAME_HEIGHT ((glide 17 ^^ Suc k) x)
            \<and> (has ((glide 17 ^^ Suc k) x) C_ENEMY \<longrightarrow> \<not> overlap ((glide 17 ^^ Suc k) x) pilot)"
    proof (intro allI impI)
      fix k assume "k < length (eticks 5 333)"
      then obtain t where t: "t = real (Suc k)" "0 \<le> t" "t \<le> 333"
        using tick_count[of k 333] by auto
      have le: "- 10 + 3 / 2 * t \<le> 979 / 2" "- 23 / 2 + 3 / 2 * t \<le> 979 / 2"
        "- 13 + 3 / 2 * t \<le> 979 / 2" "- 29 / 2 + 3 / 2 * t \<le> 979 / 2"
        using t(3) by simp_all
      show "\<forall>x\<in>set ?E.
            \<not> expired ((glide 17 ^^ Suc k) x)
            \<and> \<not> outOfBounds GAME_WIDTH GAME_HEIGHT ((glide 17 ^^ Suc k) x)
            \<and> (has ((glide 17 ^^ Suc k) x) C_ENEMY \<longrightarrow> \<not> overlap ((glide 17 ^^ Suc k) x) pilot)"
        using a[OF le(1)] a[OF le(2)] a[OF le(3)] b[OF le(4)] t(2,3)
        by (simp add: glide_n_enemyE expired_enemyE outOfBounds_enemyE t(1)[symmetric]
              del: funpow.simps has.simps of_nat_Suc)
    qed
  qed
  then show ?thesis by (simp add: glide_n_enemyE)
qed

text \<open>A playing tick on which the first enemy in the store reaches the player and no other does.\<close>

lemma tick_head_hit:
  assumes s: "starsOK S" and i: "53 \<le> i" and f: "foesOK E"
    and d: "\<forall>x \<in> set E. eid x \<noteq> i"
    and h: "overlap (enemyE i ex (ey + 3 / 2)) pilot"
    and m: "\<forall>x \<in> set (map (glide dt) E). has x C_ENEMY \<and> \<not> has x C_BULLET \<and> \<not> expired x
              \<and> \<not> overlap x pilot \<and> \<not> outOfBounds GAME_WIDTH GAME_HEIGHT x"
    and n: "53 \<le> n"
  shows "updateAndRender (quiet t) dt (arena n idleInput S (enemyE i ex ey # E) sc hp' Playing lt)
           = arena n idleInput (starsMove (quiet t) dt S) (map (glide dt) E) sc
               (if hp' - 1 \<le> 0 then 0 else hp' - 1) (if hp' - 1 \<le> 0 then GameOver else Playing) lt"
proof -
  let ?S = "starsMove (quiet t) dt S"
  let ?E = "map (glide dt) E"
  let ?en = "enemyE i ex (ey + 3 / 2)"
  let ?hp = "if hp' - 1 \<le> 0 then 0 else hp' - 1"
  let ?st = "if hp' - 1 \<le> 0 then GameOver else Playing"
  have s': "starsOK ?S" by (rule starsOK_starsMove[OF s])
  have f': "foesOK (?en # ?E)" using foesOK_glide[OF f] i by (simp add: foesOK_simps)
  have f'': "foesOK ?E" by (rule foesOK_glide[OF f])
  have 1: "beforeCollision (quiet t) dt (arena n idleInput S (enemyE i ex ey # E) sc hp' Playing lt)
             = arena n idleInput ?S (?en # ?E) sc hp' Playing lt"
    using m i f
    by (subst beforeCollision_arena[OF still_idle(1) s _ n])
       (simp_all add: firedE_idle[OF still_idle(2)] spawnedE_quiet foesOK_simps glide_enemyE expired_enemyE)
  have bu: "filter (\<lambda>e. has e C_BULLET \<and> has e C_POSITION \<and> has e C_RENDER) (?en # ?E) = []"
    using m by (simp add: has_enemyE filter_empty_conv del: has.simps)
  have rest: "filter (\<lambda>x. eid x \<noteq> i) ?E = ?E"
    using d by (intro filter_True) (simp add: glide_def)
  have hit: "takeHit (destroyEntity ?en (arena n idleInput ?S (?en # ?E) sc hp' Playing lt))
               = arena n idleInput ?S ?E sc ?hp ?st lt"
    using i by (simp add: destroyEntity_arena[OF s'] has_enemyE rest takeHit_arena del: has.simps)
  have pl: "playerLoop (filter (\<lambda>e. has e C_ENEMY \<and> has e C_POSITION \<and> has e C_RENDER) ?E) [pilot] g = g" for g
    using m by (intro playerLoop_miss) auto
  have pc: "playerLoop (en # es) [p] g = playerLoop es [p] (if overlap en p then takeHit (destroyEntity en g) else g)"
    for en es p g
    by (simp add: playerLoop_def)
  have fl: "filter (\<lambda>e. has e C_ENEMY \<and> has e C_POSITION \<and> has e C_RENDER) (?en # ?E)
              = ?en # filter (\<lambda>e. has e C_ENEMY \<and> has e C_POSITION \<and> has e C_RENDER) ?E"
    by (simp add: has_enemyE del: has.simps)
  have 2: "system_Collision (arena n idleInput ?S (?en # ?E) sc hp' Playing lt)
             = arena n idleInput ?S ?E sc ?hp ?st lt"
    unfolding system_Collision_arena[OF s' f'] bu fl pc pl
    by (simp only: h if_True hit bulletLoop_def fold.simps id_apply)
  have 3: "system_Cleanup (arena n idleInput ?S ?E sc ?hp ?st lt) = arena n idleInput ?S ?E sc ?hp ?st lt"
    using m by (intro system_Cleanup_arena[OF s']) simp
  have "gameState (arena n idleInput S (enemyE i ex ey # E) sc hp' Playing lt) \<noteq> GameOver" by simp
  from updateAndRender_collide[OF this] show ?thesis
    by (simp only: 1 2 3)
qed

lemma eticks_3: "eticks a 3 = [(quiet (1000 + 17 * int a), 17), (quiet (1000 + 17 * int (a + 1)), 17),
                               (quiet (1000 + 17 * int (a + 2)), 17)]"
proof -
  have "[a ..< a + 3] = [a, a + 1, a + 2]"
    by (simp add: upt_rec[of a] upt_rec[of "Suc a"] upt_rec[of "Suc (Suc a)"])
  then show ?thesis by (simp add: eticks_def)
qed

text \<open>Session 3, ticks 338 to 340: the three enemies above the player reach it one by one.\<close>

lemma session3_hits:
  assumes "starsOK S"
  shows "run (eticks 338 3) (arena 57 idleInput S
           [enemyE 53 160 (979 / 2), enemyE 54 160 488, enemyE 55 160 (973 / 2), enemyE 56 8 485]
           0 3 Playing 0)
         = arena 57 idleInput (starsRun (eticks 338 3) S) [enemyE 56 8 (979 / 2)] 0 0 GameOver 0"
proof -
  note ev = foesOK_simps glide_enemyE expired_enemyE outOfBounds_enemyE overlap_enemy_pilot has_enemyE
  let ?q1 = "quiet (1000 + 17 * int 338)" and ?q2 = "quiet (1000 + 17 * int (338 + 1))"
  let ?q3 = "quiet (1000 + 17 * int (338 + 2))"
  let ?S1 = "starsMove ?q1 17 S"
  let ?S2 = "starsMove ?q2 17 ?S1"
  let ?S3 = "starsMove ?q3 17 ?S2"
  have s1: "starsOK ?S1" by (rule starsOK_starsMove[OF assms])
  have s2: "starsOK ?S2" by (rule starsOK_starsMove[OF s1])
  have 1: "updateAndRender ?q1 17 (arena 57 idleInput S
             [enemyE 53 160 (979 / 2), enemyE 54 160 488, enemyE 55 160 (973 / 2), enemyE 56 8 485] 0 3 Playing 0)
           = arena 57 idleInput ?S1 [enemyE 54 160 (979 / 2), enemyE 55 160 488, enemyE 56 8 (973 / 2)]
               0 2 Playing 0"
    by (subst tick_head_hit[OF assms]) (simp_all add: ev del: has.simps)
  have 2: "updateAndRender ?q2 17 (arena 57 idleInput ?S1
             [enemyE 54 160 (979 / 2), enemyE 55 160 488, enemyE 56 8 (973 / 2)] 0 2 Playing 0)
           = arena 57 idleInput ?S2 [enemyE 55 160 (979 / 2), enemyE 56 8 488] 0 1 Playing 0"
    by (subst tick_head_hit[OF s1]) (simp_all add: ev del: has.simps)
  have 3: "updateAndRender ?q3 17 (arena 57 idleInput ?S2
             [enemyE 55 160 (979 / 2), enemyE 56 8 488] 0 1 Playing 0)
           = arena 57 idleInput ?S3 [enemyE 56 8 (979 / 2)] 0 0 GameOver 0"
    by (subst tick_head_hit[OF s2]) (simp_all add: ev del: has.simps)
  show ?thesis
    unfolding eticks_3 run.simps 1 2 3 by (simp add: starsRun_def)
qed

text \<open>Session 3 after the game is over: the last enemy drifts out of the playfield.\<close>

lemma session3_drift:
  assumes "starsOK S"
  shows "run (eticks a k) (arena 57 idleInput S [enemyE 56 8 ey] 0 0 GameOver 0)
         = arena 57 idleInput (starsRun (eticks a k) S) [enemyE 56 8 (ey + 3 / 2 * real k)] 0 0 GameOver 0"
proof -
  have "run (eticks a k) (arena 57 idleInput S [enemyE 56 8 ey] 0 0 GameOver 0)
          = arena 57 idleInput (starsRun (eticks a k) S)
              (map (glide 17 ^^ length (eticks a k)) [enemyE 56 8 ey]) 0 0 GameOver 0"
  proof (rule run_over[OF assms])
    show "foesOK [enemyE 56 8 ey]" by (simp add: foesOK_simps)
    show "\<forall>(e, d)\<in>set (eticks a k). d = 17" using eticks_quiet[of a k 0] by auto
    show "\<forall>j<length (eticks a k). \<forall>x\<in>set [enemyE 56 8 ey]. \<not> expired ((glide 17 ^^ Suc j) x)"
      by (simp add: glide_n_enemyE expired_enemyE del: funpow.simps of_nat_Suc)
  qed
  then show ?thesis by (simp add: glide_n_enemyE)
qed

lemma session3_end:
  "run session3 (construct zeroDraws)
     = arena 57 idleInput
         (starsRun (eticks 341 77) (starsRun (eticks 338 3) (starsRun (eticks 5 333)
            (starsRun spawns3 (firstStars zeroDraws)))))
         [enemyE 56 8 605] 0 0 GameOver 0"
proof -
  have z: "resetNow zeroDraws = 0" by (simp add: zeroDraws_def)
  have s0: "starsOK (firstStars zeroDraws)" unfolding firstStars_def by (rule starsOK_starsOf)
  have s1: "starsOK (starsRun spawns3 (firstStars zeroDraws))" by (rule starsOK_starsRun[OF s0])
  have s2: "starsOK (starsRun (eticks 5 333) (starsRun spawns3 (firstStars zeroDraws)))"
    by (rule starsOK_starsRun[OF s1])
  have s3: "starsOK (starsRun (eticks 338 3) (starsRun (eticks 5 333) (starsRun spawns3 (firstStars zeroDraws))))"
    by (rule starsOK_starsRun[OF s2])
  show ?thesis
    unfolding session3_def run_append construct_arena z session3_spawned[OF s0] session3_descent[OF s1]
      session3_hits[OF s2] session3_drift[OF s3]
    by simp
qed

lemma session3_ok: "list_all (\<lambda>(e, d). env_ok e) session3"
  by (simp add: session3_def spawns3_def spawning_ok eticks_ok)

lemma session3_later:
  "run (eticks 418 2) (run session3 (construct zeroDraws))
     = arena 57 idleInput
         (starsRun (eticks 418 2) (starsRun (eticks 341 77) (starsRun (eticks 338 3)
            (starsRun (eticks 5 333) (starsRun spawns3 (firstStars zeroDraws))))))
         [enemyE 56 8 608] 0 0 GameOver 0"
proof -
  have s0: "starsOK (firstStars zeroDraws)" unfolding firstStars_def by (rule starsOK_starsOf)
  have s: "starsOK (starsRun (eticks 341 77) (starsRun (eticks 338 3) (starsRun (eticks 5 333)
            (starsRun spawns3 (firstStars zeroDraws)))))"
    by (intro starsOK_starsRun s0)
  show ?thesis
    unfolding session3_end session3_drift[OF s] by simp
qed

lemma findAllWith_enemies_arena:
  assumes "starsOK S" and "53 \<le> i"
  shows "findAllWith (arena n inp S [enemyE i ex ey] sc h st t) [C_ENEMY, C_POSITION, C_RENDER]
           = [enemyE i ex ey]"
proof -
  have f: "foesOK [enemyE i ex ey]" using assms(2) by (simp add: foesOK_simps)
  show ?thesis
    unfolding findAllWith_arena(4)[OF assms(1) f] by (simp add: has_enemyE del: has.simps)
qed


subsection \<open>Session 4: the shoot key held for thirty ticks\<close>









lemma starsOK_firstStars: "starsOK (firstStars r)"
  unfolding firstStars_def by (rule starsOK_starsOf)




section \<open>Firing and the cooldown\<close>












lemma bulletHits0_lastFire [simp]: "lastFireTime0 (bulletHits0 g) = lastFireTime0 g"
  by (simp add: bulletHits0_alt)







section \<open>The player in sessions with finite pointer positions\<close>

lemma finiteVec_Fin [simp]: "finiteVec \<lparr>vec_x = Fin a, vec_y = Fin b\<rparr>"
  by (simp add: finiteVec_def)




subsection \<open>The flat implementation\<close>







subsection \<open>The entity-component implementation\<close>
















section \<open>The player's entity through a playing tick\<close>





section \<open>Sessions 5 and 6: a pointer event on a collapsed and on a natural canvas\<close>












section \<open>What the bullet passes score\<close>

lemma length_filter_disj:
  "length (filter (\<lambda>x. P x \<or> Q x) xs)
     = length (filter P xs) + length (filter Q (filter (\<lambda>x. \<not> P x) xs))"
  by (induction xs) auto

text \<open>
  The outer loop of the flat version in closed form: an enemy goes, and scores, exactly
  when some bullet of the player overlaps it.
\<close>

lemma bulletPass0_struck:
  "enemies0 (snd (bulletPass0 bs g))
     = filter (\<lambda>e. \<not> list_ex (\<lambda>b. owner b = OwnerPlayer \<and> isColliding b e) bs) (enemies0 g)
   \<and> score0 (snd (bulletPass0 bs g))
     = score0 g + 100 * int (length (filter (\<lambda>e. list_ex (\<lambda>b. owner b = OwnerPlayer \<and> isColliding b e) bs)
                                           (enemies0 g)))"
proof (induction bs arbitrary: g)
  case Nil
  show ?case by simp
next
  case (Cons b bs)
  let ?P = "\<lambda>e. list_ex (\<lambda>b. owner b = OwnerPlayer \<and> isColliding b e) bs"
  show ?case
  proof (cases "owner b = OwnerPlayer")
    case True
    let ?g1 = "g\<lparr>enemies0 := filter (\<lambda>e. \<not> isColliding b e) (enemies0 g),
                 score0 := score0 g + 100 * int (length (filter (isColliding b) (enemies0 g)))\<rparr>"
    have eq: "snd (bulletPass0 (b # bs) g) = snd (bulletPass0 bs ?g1)"
      using True by (simp add: bulletPass0_Cons Let_def del: bulletPass0.simps(2))
    have l: "length (filter (\<lambda>e. isColliding b e \<or> ?P e) (enemies0 g))
             = length (filter (isColliding b) (enemies0 g))
               + length (filter ?P (filter (\<lambda>e. \<not> isColliding b e) (enemies0 g)))"
      by (rule length_filter_disj)
    have f: "filter (\<lambda>e. \<not> ?P e) (filter (\<lambda>e. \<not> isColliding b e) (enemies0 g))
             = filter (\<lambda>e. \<not> (isColliding b e \<or> ?P e)) (enemies0 g)"
      by (auto intro: filter_cong)
    show ?thesis
      unfolding eq using Cons.IH[of ?g1] True l f by simp
  next
    case False
    then have eq: "snd (bulletPass0 (b # bs) g) = snd (bulletPass0 bs g)"
      by (simp add: bulletPass0_Cons del: bulletPass0.simps(2))
    show ?thesis unfolding eq using Cons.IH[of g] False by simp
  qed
qed

lemma bulletHits0_struck:
  "score0 (bulletHits0 g) = score0 g + 100 * int (length (struck0 g))"
  "enemies0 (bulletHits0 g) = spared0 g"
  using bulletPass0_struck[of "bullets0 g" g] by (simp_all add: bulletHits0_alt struck0_def spared0_def)

lemma update0_struck:
  "score0 (update0 env g)
     = score0 g + (if gameState0 g = GameOver then 0
                   else 100 * int (length (struck0 (beforeCollision0 env g))))"
proof -
  have "score0 (beforeCollision0 env g) = score0 g" by (simp add: beforeCollision0_def)
  then show ?thesis
    using bulletHits0_struck(1)[of "beforeCollision0 env g"]
    by (simp add: update0_def beforeCollision0_def)
qed

text \<open>One bullet two units above one enemy: the pass removes both and adds 100.\<close>

lemma bulletHits0_pair:
  "bulletHits0 ((idle0 S t [bulletAt x 10] [enemyAt x 12])\<lparr>score0 := sc\<rparr>)
     = (idle0 S t [] [])\<lparr>score0 := sc + 100\<rparr>"
  by (simp add: bulletHits0_def idle0_def bulletPass0_Cons scanEnemies0_eq hits_bullet_iff
        bulletAt_def[of x 10, THEN arg_cong[of _ _ owner]] Let_def del: bulletPass0.simps(2))

lemma system_Collision_pair:
  assumes "starsOK S"
  shows "system_Collision (arena 55 inp S [bulletE 53 x 10 ttl, enemyE 54 x 12] sc h st t)
           = arena 55 inp S [] (sc + 100) h st t"
proof -
  let ?b = "bulletE 53 x 10 ttl" and ?e = "enemyE 54 x 12"
  have f: "foesOK [?b, ?e]" by (simp add: foesOK_simps)
  have "\<not> overlap ?e pilot"
    by (simp add: overlap_enemy_pilot not_less add_nonneg_nonneg)
  then have p [simp]: "playerLoop [?e] [pilot] g = g" for g
    by (intro playerLoop_miss) simp
  have s: "(arena 55 inp S [?b, ?e] sc h st t)\<lparr>score := sc + 100\<rparr> = arena 55 inp S [?b, ?e] (sc + 100) h st t"
    by (simp add: arena_def)
  show ?thesis
    unfolding system_Collision_arena[OF assms f]
    by (simp add: has_bulletE has_enemyE bulletLoop_def overlap_bullet_enemy s
          destroyEntity_arena[OF assms] del: has.simps)
qed

text \<open>
  Two bullets over one enemy: the enemy stays in the array that the loop over the
  bullets scans, so both bullets find it and both score.
\<close>

lemma system_Collision_two_bullets:
  assumes "starsOK S"
  shows "system_Collision (arena 56 inp S [bulletE 53 x 10 ttl, bulletE 54 x 11 ttl, enemyE 55 x 12] sc h st t)
           = arena 56 inp S [] (sc + 200) h st t"
proof -
  let ?a = "bulletE 53 x 10 ttl" and ?b = "bulletE 54 x 11 ttl" and ?e = "enemyE 55 x 12"
  have f: "foesOK [?a, ?b, ?e]" by (simp add: foesOK_simps)
  have "\<not> overlap ?e pilot"
    by (simp add: overlap_enemy_pilot not_less add_nonneg_nonneg)
  then have p [simp]: "playerLoop [?e] [pilot] g = g" for g
    by (intro playerLoop_miss) simp
  have s: "(arena 56 inp S E c h st t)\<lparr>score := c'\<rparr> = arena 56 inp S E c' h st t" for E c c'
    by (simp add: arena_def)
  show ?thesis
    unfolding system_Collision_arena[OF assms f]
    by (simp add: has_bulletE has_enemyE bulletLoop_def overlap_bullet_enemy s
          destroyEntity_arena[OF assms] del: has.simps)
qed

section \<open>The states in which sessions 1, 2 and 3 end\<close>

lemma session1_over:
  "reachable0 (run0 session1 (construct0 zeroDraws))"
  "hp0 (run0 session1 (construct0 zeroDraws)) = - 1"
  "gameState0 (run0 session1 (construct0 zeroDraws)) = GameOver"
  using reachable0_run0[OF reachable0_construct0 session1_ok] session1_end by simp_all

lemma session2_scored:
  "reachable0 (update0 (quiet 2037) session2_before)"
  "score0 (update0 (quiet 2037) session2_before) = 200"
  using r0_tick[OF session2_reachable quiet_ok, of 2037] session2_double_kill by simp_all

lemma session3_over:
  "reachable (run session3 (construct zeroDraws))"
  "hp (run session3 (construct zeroDraws)) = 0"
  "gameState (run session3 (construct zeroDraws)) = GameOver"
  "nextId (run session3 (construct zeroDraws)) = 57"
  "width (run session3 (construct zeroDraws)) = GAME_WIDTH"
  "height (run session3 (construct zeroDraws)) = GAME_HEIGHT"
proof -
  show "reachable (run session3 (construct zeroDraws))"
    by (rule reachable_run[OF reachable_construct session3_ok])
  show "hp (run session3 (construct zeroDraws)) = 0"
    "gameState (run session3 (construct zeroDraws)) = GameOver"
    "nextId (run session3 (construct zeroDraws)) = 57"
    "width (run session3 (construct zeroDraws)) = GAME_WIDTH"
    "height (run session3 (construct zeroDraws)) = GAME_HEIGHT"
    unfolding session3_end by simp_all
qed

section \<open>Sessions 7 and 8: an enemy leaves the playfield\<close>

lemma far_left0: "\<not> isColliding newPlayer0 (enemyAt 0 ey)"
proof -
  have "0 \<le> (508 - ey) * (508 - ey)" by simp
  then have "\<not> 25600 + (508 - ey) * (508 - ey) < (324 :: real)" by linarith
  then show ?thesis by (simp add: hits_player_iff)
qed

lemma session8_end:
  "run0 session8 (construct0 zeroDraws)
     = idle0 (fold starsStep0 session8 (initStars0 zeroDraws)) 0 [] [enemyAt 0 593]"
proof -
  let ?S = "starsStep0 (spawning 1017 0) (initStars0 zeroDraws)"
  have 1: "update0 (spawning 1017 0) (idle0 (initStars0 zeroDraws) 0 [] []) = idle0 ?S 0 [] [enemyAt 0 (- 16)]"
    by (simp add: update0_idle spawned0_spawning far_left0)
  have 2: "run0 (ticks 2 406) (idle0 ?S 0 [] [enemyAt 0 (- 16)])
             = idle0 (fold starsStep0 (ticks 2 406) ?S) 0 (map (advance ^^ length (ticks 2 406)) [])
                 (map (advance ^^ length (ticks 2 406)) [enemyAt 0 (- 16)])"
  proof (rule run0_idle)
    show "\<forall>e\<in>set (ticks 2 406). spawned0 e = []" by (rule ticks_quiet)
    show "\<forall>k<length (ticks 2 406). \<forall>b\<in>set []. bulletKept0 ((advance ^^ Suc k) b)" by simp
    show "\<forall>k<length (ticks 2 406). \<forall>b\<in>set []. \<forall>x\<in>set [enemyAt 0 (- 16)].
            \<not> isColliding ((advance ^^ Suc k) b) ((advance ^^ Suc k) x)" by simp
    show "\<forall>k<length (ticks 2 406). \<forall>x\<in>set [enemyAt 0 (- 16)].
            enemyKept0 ((advance ^^ Suc k) x) \<and> \<not> isColliding newPlayer0 ((advance ^^ Suc k) x)"
    proof (intro allI impI)
      fix k assume "k < length (ticks 2 406)"
      then obtain t where t: "t = real (Suc k)" "0 \<le> t" "t \<le> 406"
        using tick_count[of k 406] by auto
      show "\<forall>x\<in>set [enemyAt 0 (- 16)].
            enemyKept0 ((advance ^^ Suc k) x) \<and> \<not> isColliding newPlayer0 ((advance ^^ Suc k) x)"
        using t(2,3)
        by (simp add: enemyKept0_enemyAt advance_n_enemyAt far_left0 t(1)[symmetric]
              del: funpow.simps of_nat_Suc)
    qed
  qed
  show ?thesis
    unfolding session8_def run0.simps construct0_idle 1 2
    by (simp add: advance_n_enemyAt)
qed

lemma session8_ok: "list_all env_ok session8"
  by (simp add: session8_def spawning_ok ticks_ok)

text \<open>The next tick of session 8 moves the enemy to y = 594.5, and the filter drops it.\<close>

lemma session8_eviction:
  "update0 (quiet 7936) (idle0 S 0 [] [enemyAt 0 593]) = idle0 (starsStep0 (quiet 7936) S) 0 [] []"
proof -
  let ?h = "idle0 (starsStep0 (quiet 7936) S) 0 [] []"
  have 1: "beforeCollision0 (quiet 7936) (idle0 S 0 [] [enemyAt 0 593]) = ?h"
    unfolding beforeCollision0_def
    by (simp add: movePlayer0_idle fire0_idle spawnEnemy0_spawned spawned0_quiet)
       (simp add: idle0_def moveStars0_def moveBullets0_def moveEnemies0_def starsStep0_def
          advance_enemyAt enemyKept0_enemyAt)
  have 2: "bulletHits0 ?h = ?h" by (rule bulletHits0_miss) (simp add: idle0_def)
  have 3: "playerHits0 ?h = ?h" by (rule playerHits0_miss) (simp add: idle0_def)
  show ?thesis by (simp add: update0_idle0 1 2 3)
qed

lemma far_left: "\<not> overlap (enemyE i 8 ey) pilot"
proof -
  have "0 \<le> (ey - 508) * (ey - 508)" by simp
  then have "\<not> 23104 + (ey - 508) * (ey - 508) < (324 :: real)" by linarith
  then show ?thesis by (simp add: overlap_enemy_pilot)
qed

lemma session7_end:
  "run session7 (construct zeroDraws)
     = arena 54 idleInput (starsRun session7 (firstStars zeroDraws)) [enemyE 53 8 (1207 / 2)] 0 3 Playing 0"
proof -
  have z: "resetNow zeroDraws = 0" by (simp add: zeroDraws_def)
  have s0: "starsOK (firstStars zeroDraws)" by (rule starsOK_firstStars)
  let ?S = "starsMove (spawning 1017 0) 17 (firstStars zeroDraws)"
  have s1: "starsOK ?S" by (rule starsOK_starsMove[OF s0])
  have 1: "updateAndRender (spawning 1017 0) 17 (arena 53 idleInput (firstStars zeroDraws) [] 0 3 Playing 0)
             = arena 54 idleInput ?S [enemyE 53 8 (- 29 / 2)] 0 3 Playing 0"
    by (subst tick_calm[OF still_idle(1) s0])
       (simp_all add: firedE_idle[OF still_idle(2)] spawnedE_spawning foesOK_simps glide_enemyE
          expired_enemyE outOfBounds_enemyE far_left has_enemyE del: has.simps)
  have 2: "run (eticks 2 412) (arena 54 idleInput ?S [enemyE 53 8 (- 29 / 2)] 0 3 Playing 0)
          = arena 54 idleInput (starsRun (eticks 2 412) ?S)
              (map (glide 17 ^^ length (eticks 2 412)) [enemyE 53 8 (- 29 / 2)]) 0 3 Playing 0"
  proof (rule run_calm[OF still_idle s1])
    show "foesOK [enemyE 53 8 (- 29 / 2)]" by (simp add: foesOK_simps)
    show "53 \<le> (54::nat)" by simp
    show "\<forall>(e, d)\<in>set (eticks 2 412). spawnedE e 54 = [] \<and> d = 17" by (rule eticks_quiet)
    show "\<forall>k<length (eticks 2 412). \<forall>b\<in>set [enemyE 53 8 (- 29 / 2)]. \<forall>x\<in>set [enemyE 53 8 (- 29 / 2)].
            has ((glide 17 ^^ Suc k) b) C_BULLET \<longrightarrow> has ((glide 17 ^^ Suc k) x) C_ENEMY
            \<longrightarrow> \<not> overlap ((glide 17 ^^ Suc k) b) ((glide 17 ^^ Suc k) x)"
      by (simp add: glide_n_enemyE has_enemyE del: funpow.simps has.simps of_nat_Suc)
    show "\<forall>k<length (eticks 2 412). \<forall>x\<in>set [enemyE 53 8 (- 29 / 2)].
            \<not> expired ((glide 17 ^^ Suc k) x)
            \<and> \<not> outOfBounds GAME_WIDTH GAME_HEIGHT ((glide 17 ^^ Suc k) x)
            \<and> (has ((glide 17 ^^ Suc k) x) C_ENEMY \<longrightarrow> \<not> overlap ((glide 17 ^^ Suc k) x) pilot)"
    proof (intro allI impI)
      fix k assume "k < length (eticks 2 412)"
      then obtain t where t: "t = real (Suc k)" "0 \<le> t" "t \<le> 412"
        using tick_count[of k 412] by auto
      show "\<forall>x\<in>set [enemyE 53 8 (- 29 / 2)].
            \<not> expired ((glide 17 ^^ Suc k) x)
            \<and> \<not> outOfBounds GAME_WIDTH GAME_HEIGHT ((glide 17 ^^ Suc k) x)
            \<and> (has ((glide 17 ^^ Suc k) x) C_ENEMY \<longrightarrow> \<not> overlap ((glide 17 ^^ Suc k) x) pilot)"
        using t(2,3)
        by (simp add: glide_n_enemyE expired_enemyE outOfBounds_enemyE far_left t(1)[symmetric]
              del: funpow.simps has.simps of_nat_Suc)
    qed
  qed
  show ?thesis
    unfolding session7_def run.simps construct_arena z 1 2
    by (simp add: glide_n_enemyE starsRun_Cons)
qed

lemma session7_ok: "list_all (\<lambda>(e, d). env_ok e) session7"
  by (simp add: session7_def spawning_ok eticks_ok)

text \<open>The cleanup system on a store in which only later-created entities can be out of bounds.\<close>

lemma system_Cleanup_arena_filter:
  assumes "starsOK S" and "foesOK E"
  shows "system_Cleanup (arena n inp S E sc h st t)
           = arena n inp S (filter (\<lambda>x. \<not> list_ex (\<lambda>e. outOfBounds GAME_WIDTH GAME_HEIGHT e \<and> eid x = eid e) E) E)
               sc h st t"
proof -
  let ?O = "\<lambda>x. list_ex (\<lambda>e. outOfBounds GAME_WIDTH GAME_HEIGHT e \<and> eid x = eid e) (pilot # console inp # S @ E)"
  let ?Q = "\<lambda>x. list_ex (\<lambda>e. outOfBounds GAME_WIDTH GAME_HEIGHT e \<and> eid x = eid e) E"
  have s: "\<not> outOfBounds GAME_WIDTH GAME_HEIGHT y" if "y \<in> set S" for y
    using starsOK_not_player[OF assms(1) that] by (simp add: outOfBounds_def)
  have p: "\<not> outOfBounds GAME_WIDTH GAME_HEIGHT pilot" "\<not> outOfBounds GAME_WIDTH GAME_HEIGHT (console inp)"
    by (simp_all add: outOfBounds_def pilot_def console_def blank_def)
  have oq: "?O x = ?Q x" for x
    using s p by (auto simp: list_ex_iff)
  have low: "\<not> ?Q x" if "eid x < 53" for x
    using foesOK_not_player[OF assms(2)] that by (fastforce simp: list_ex_iff)
  have i: "eid pilot < 53" "eid (console inp) < 53" by (simp_all add: pilot_def console_def blank_def)
  have fs: "filter (\<lambda>x. \<not> ?Q x) S = S"
    using starsOK_not_player[OF assms(1)] low by (intro filter_True) blast
  have "entities (system_Cleanup (arena n inp S E sc h st t))
          = filter (\<lambda>x. \<not> ?O x) (pilot # console inp # S @ E)"
    unfolding system_Cleanup_eq by (simp del: list_ex_Cons_iff list_ex_append)
  also have "\<dots> = filter (\<lambda>x. \<not> ?Q x) (pilot # console inp # S @ E)"
    by (simp only: oq)
  also have "\<dots> = pilot # console inp # S @ filter (\<lambda>x. \<not> ?Q x) E"
    using low[OF i(1)] low[OF i(2)] fs by simp
  finally show ?thesis
    by (intro Game.equality) (simp_all add: arena_def)
qed

text \<open>The next tick of session 7 moves the enemy to y = 605, and the cleanup system deletes it.\<close>

lemma session7_eviction:
  assumes "starsOK S"
  shows "updateAndRender (quiet 8038) 17 (arena 54 idleInput S [enemyE 53 8 (1207 / 2)] 0 3 Playing 0)
           = arena 54 idleInput (starsMove (quiet 8038) 17 S) [] 0 3 Playing 0"
proof -
  let ?g = "arena 54 idleInput S [enemyE 53 8 (1207 / 2)] 0 3 Playing 0"
  let ?S = "starsMove (quiet 8038) 17 S"
  have s': "starsOK ?S" by (rule starsOK_starsMove[OF assms])
  have f: "foesOK [enemyE 53 8 605]" by (simp add: foesOK_simps)
  have 1: "beforeCollision (quiet 8038) 17 ?g = arena 54 idleInput ?S [enemyE 53 8 605] 0 3 Playing 0"
    by (subst beforeCollision_arena[OF still_idle(1) assms])
       (simp_all add: firedE_idle[OF still_idle(2)] spawnedE_quiet foesOK_simps glide_enemyE
          expired_enemyE)
  have 2: "system_Collision (arena 54 idleInput ?S [enemyE 53 8 605] 0 3 Playing 0)
             = arena 54 idleInput ?S [enemyE 53 8 605] 0 3 Playing 0"
    by (rule system_Collision_miss[OF s' f]) (simp_all add: far_left has_enemyE del: has.simps)
  have 3: "system_Cleanup (arena 54 idleInput ?S [enemyE 53 8 605] 0 3 Playing 0)
             = arena 54 idleInput ?S [] 0 3 Playing 0"
    unfolding system_Cleanup_arena_filter[OF s' f]
    by (simp add: outOfBounds_enemyE)
  have "gameState ?g \<noteq> GameOver" by simp
  from updateAndRender_playing[OF this]
  have "updateAndRender (quiet 8038) 17 ?g = system_Cleanup (system_Collision (beforeCollision (quiet 8038) 17 ?g))"
    by (simp add: beforeCollision_def)
  then show ?thesis by (simp only: 1 2 3)
qed

lemma session7_last:
  "gameState (run session7 (construct zeroDraws)) = Playing"
  "width (run session7 (construct zeroDraws)) = GAME_WIDTH"
  "height (run session7 (construct zeroDraws)) = GAME_HEIGHT"
  "findAllWith (run session7 (construct zeroDraws)) [C_ENEMY, C_POSITION, C_RENDER]
     = [enemyE 53 8 (1207 / 2)]"
  "findAllWith (updateAndRender (quiet 8038) 17 (run session7 (construct zeroDraws)))
     [C_ENEMY, C_POSITION, C_RENDER] = []"
proof -
  have s: "starsOK (starsRun session7 (firstStars zeroDraws))"
    by (rule starsOK_starsRun[OF starsOK_firstStars])
  show "gameState (run session7 (construct zeroDraws)) = Playing"
    "width (run session7 (construct zeroDraws)) = GAME_WIDTH"
    "height (run session7 (construct zeroDraws)) = GAME_HEIGHT"
    unfolding session7_end by simp_all
  show "findAllWith (run session7 (construct zeroDraws)) [C_ENEMY, C_POSITION, C_RENDER]
     = [enemyE 53 8 (1207 / 2)]"
    unfolding session7_end by (rule findAllWith_enemies_arena[OF s]) simp
  show "findAllWith (updateAndRender (quiet 8038) 17 (run session7 (construct zeroDraws)))
     [C_ENEMY, C_POSITION, C_RENDER] = []"
    unfolding session7_end session7_eviction[OF s]
    by (subst findAllWith_arena(4)[OF starsOK_starsMove[OF s]]) (simp_all add: foesOK_simps)
qed

lemma session8_last:
  "reachable0 (run0 session8 (construct0 zeroDraws))"
  "enemies0 (run0 session8 (construct0 zeroDraws)) = [enemyAt 0 593]"
  "enemies0 (update0 (quiet 7936) (run0 session8 (construct0 zeroDraws))) = []"
proof -
  show "reachable0 (run0 session8 (construct0 zeroDraws))"
    by (rule reachable0_run0[OF reachable0_construct0 session8_ok])
  show "enemies0 (run0 session8 (construct0 zeroDraws)) = [enemyAt 0 593]"
    unfolding session8_end by (simp add: idle0_def)
  show "enemies0 (update0 (quiet 7936) (run0 session8 (construct0 zeroDraws))) = []"
    unfolding session8_end session8_eviction by (simp add: idle0_def)
qed

section \<open>The claims\<close>

text \<open>
  C10. In every reachable state of either implementation the score is a non-negative
  multiple of 100; it is 0 after the constructor and after a reset.
\<close>

theorem score_multiple_of_100:
  "(reachable g \<longrightarrow> 0 \<le> score g \<and> 100 dvd score g)
   \<and> (reachable0 g0 \<longrightarrow> 0 \<le> score0 g0 \<and> 100 dvd score0 g0)
   \<and> score (construct r) = 0 \<and> score0 (construct0 r) = 0
   \<and> score (reset False r g) = 0 \<and> score0 (reset0 r g0) = 0"
  using reachable_scalars[of g] reachable0_inv0[of g0]
  by (simp add: inv0_def construct0_def reset0_def)

theorem score_multiple_of_100_witness:
  "reachable (updateAndRender (quiet 1000) 16 (construct zeroDraws))
   \<and> reachable0 (update0 (quiet 1000) (construct0 zeroDraws))
   \<and> 100 dvd score (updateAndRender (quiet 1000) 16 (construct zeroDraws))
   \<and> 100 dvd score0 (update0 (quiet 1000) (construct0 zeroDraws))
   \<and> reachable0 (update0 (quiet 2037) session2_before)
   \<and> score0 (update0 (quiet 2037) session2_before) = 200
   \<and> 100 dvd score0 (update0 (quiet 2037) session2_before)"
  using score_multiple_of_100[of "updateAndRender (quiet 1000) 16 (construct zeroDraws)"
          "update0 (quiet 1000) (construct0 zeroDraws)" zeroDraws]
        score_multiple_of_100[of "updateAndRender (quiet 1000) 16 (construct zeroDraws)"
          "update0 (quiet 2037) session2_before" zeroDraws]
        r_tick[OF reachable_construct quiet_ok, of 1000 16]
        r0_tick[OF reachable0_construct0 quiet_ok, of 1000]
        session2_scored
  by simp

text \<open>
  C9. Across the ticks of a session the hit points never go up, in either
  implementation; an input event leaves them alone, and a reset sets them to 3.
\<close>

theorem hp_never_increases:
  assumes "reachable g" and "reachable0 g0"
  shows "hp (updateAndRender env dt g) \<le> hp g \<and> hp (run es g) \<le> hp g
         \<and> hp (setInput u g) = hp g \<and> hp (reset False r g) = 3
         \<and> hp0 (update0 env g0) \<le> hp0 g0 \<and> hp0 (run0 es0 g0) \<le> hp0 g0
         \<and> hp0 (g0\<lparr>input0 := i\<rparr>) = hp0 g0 \<and> hp0 (reset0 r g0) = 3"
proof -
  have ok: "hpOK g" using reachable_scalars[OF assms(1)] by simp
  then have "0 \<le> hp g" by (simp add: hpOK_def)
  then have "hp (updateAndRender env dt g) \<le> hp g" by (rule updateAndRender_hp_le)
  moreover have "hp (run es g) \<le> hp g" using run_hpOK[OF ok] by simp
  ultimately show ?thesis
    using update0_hp[of env g0] run0_hp[of es0 g0] by (simp add: reset0_def)
qed

theorem hp_never_increases_witness:
  "reachable (construct zeroDraws) \<and> reachable0 (construct0 zeroDraws)
   \<and> hp (updateAndRender (quiet 1000) 16 (construct zeroDraws)) \<le> hp (construct zeroDraws)
   \<and> hp0 (update0 (quiet 1000) (construct0 zeroDraws)) \<le> hp0 (construct0 zeroDraws)
   \<and> hp (run session3 (construct zeroDraws)) \<le> hp (construct zeroDraws)
   \<and> hp (run session3 (construct zeroDraws)) = 0
   \<and> hp0 (run0 session1 (construct0 zeroDraws)) \<le> hp0 (construct0 zeroDraws)
   \<and> hp0 (run0 session1 (construct0 zeroDraws)) = - 1"
  using hp_never_increases[OF reachable_construct reachable0_construct0,
          where env = "quiet 1000" and dt = 16 and es = session3 and ?es0.0 = session1]
        reachable_construct reachable0_construct0 session3_over(2) session1_over(2)
  by simp

text \<open>
  C2. The score never goes down over a run of ticks. In the entity-component version the
  collision system adds exactly 100 for every bullet that overlaps an enemy of the array
  taken before its loops; in the flat version the bullet pass removes exactly the enemies
  that a bullet of the player overlaps and adds exactly 100 for each of them; nothing else
  in a tick touches the score. A bullet at (x, 10) and an enemy at (x, 12) overlap: in
  both versions the pass removes the two and adds 100. In the entity-component version an
  enemy that a bullet has hit stays in the array that the later bullets scan, so two
  bullets over one enemy are two collisions and add 200.
\<close>

theorem score_monotone_100_per_hit:
  "score g \<le> score (run es g) \<and> score0 g0 \<le> score0 (run0 es0 g0)
   \<and> score (system_Collision g) = score g + 100 * int (hits g)
   \<and> score (updateAndRender env dt g)
       = score g + (if gameState g = GameOver then 0 else 100 * int (hits (beforeCollision env dt g)))
   \<and> score0 (bulletHits0 g0) = score0 g0 + 100 * int (length (struck0 g0))
   \<and> enemies0 (bulletHits0 g0) = spared0 g0
   \<and> score0 (update0 env g0)
       = score0 g0 + (if gameState0 g0 = GameOver then 0
                      else 100 * int (length (struck0 (beforeCollision0 env g0))))
   \<and> bulletHits0 ((idle0 S t0 [bulletAt x 10] [enemyAt x 12])\<lparr>score0 := sc\<rparr>)
       = (idle0 S t0 [] [])\<lparr>score0 := sc + 100\<rparr>
   \<and> system_Collision (arena 55 inp (firstStars zeroDraws) [bulletE 53 x 10 ttl, enemyE 54 x 12] sc h st t)
       = arena 55 inp (firstStars zeroDraws) [] (sc + 100) h st t
   \<and> system_Collision (arena 56 inp (firstStars zeroDraws)
                          [bulletE 53 x 10 ttl, bulletE 54 x 11 ttl, enemyE 55 x 12] sc h st t)
       = arena 56 inp (firstStars zeroDraws) [] (sc + 200) h st t"
proof -
  have a: "score (updateAndRender env dt g)
       = score g + (if gameState g = GameOver then 0 else 100 * int (hits (beforeCollision env dt g)))"
    by (simp add: updateAndRender_def system_Collision_score hits_def beforeCollision_def)
  have b: "score (system_Collision g) = score g + 100 * int (hits g)"
    by (simp add: system_Collision_score hits_def)
  show ?thesis
    using run_score[of g es] run0_score[of g0 es0] a b bulletHits0_struck[of g0]
      update0_struck[of env g0]
    by (simp add: bulletHits0_pair system_Collision_pair[OF starsOK_firstStars]
          system_Collision_two_bullets[OF starsOK_firstStars])
qed

text \<open>
  C6. From any state of the class (whose \<^verbatim>\<open>width\<close> and \<^verbatim>\<open>height\<close> fields are never
  assigned after their initialisers), \<^verbatim>\<open>reset()\<close> yields score 0, hp 3, phase playing,
  exactly one player, at (160, 508), no bullet, no enemy, and 50 stars; in both
  implementations.
\<close>

theorem reset_fresh_session:
  assumes "width g = GAME_WIDTH" and "height g = GAME_HEIGHT"
  shows "score (reset False r g) = 0 \<and> hp (reset False r g) = 3
         \<and> gameState (reset False r g) = Playing
         \<and> map c_position (findAllWith (reset False r g) [C_PLAYER]) = [Some (createVector2 (Fin 160) (Fin 508))]
         \<and> findAllWith (reset False r g) [C_BULLET] = []
         \<and> findAllWith (reset False r g) [C_ENEMY] = []
         \<and> length (findAllWith (reset False r g) [C_STAR]) = 50
         \<and> score0 (reset0 r g0) = 0 \<and> hp0 (reset0 r g0) = 3 \<and> gameState0 (reset0 r g0) = Playing
         \<and> position (player0 (reset0 r g0)) = createVector2 (Fin 160) (Fin 508)
         \<and> bullets0 (reset0 r g0) = [] \<and> enemies0 (reset0 r g0) = []
         \<and> length (stars0 (reset0 r g0)) = 50"
proof -
  have p: "map c_position (findAllWith (reset False r g) [C_PLAYER]) = [Some (createVector2 (Fin 160) (Fin 508))]"
    using assms
    by (simp add: findAllWith_def entities_reset filter_starsOf[simplified] buildPlayer_def blank_def
          GAME_WIDTH_def GAME_HEIGHT_def)
  have b: "findAllWith (reset False r g) [C_BULLET] = []" "findAllWith (reset False r g) [C_ENEMY] = []"
    by (simp_all add: findAllWith_def entities_reset filter_starsOf[simplified] buildPlayer_def blank_def)
  have s: "length (findAllWith (reset False r g) [C_STAR]) = 50"
    by (simp add: findAllWith_def entities_reset filter_starsOf[simplified] buildPlayer_def blank_def
          length_starsOf STAR_COUNT_def)
  have f: "position (player0 (reset0 r g0)) = createVector2 (Fin 160) (Fin 508)"
    "length (stars0 (reset0 r g0)) = 50"
    by (simp_all add: reset0_def newPlayer0_def GAME_WIDTH_def GAME_HEIGHT_def length_initStars0
          STAR_COUNT_def)
  from p b s f show ?thesis by (simp add: reset0_def)
qed

theorem reset_fresh_session_witness:
  "width (construct zeroDraws) = GAME_WIDTH \<and> height (construct zeroDraws) = GAME_HEIGHT
   \<and> hp (reset False zeroDraws (construct zeroDraws)) = 3
   \<and> length (findAllWith (reset False zeroDraws (construct zeroDraws)) [C_STAR]) = 50
   \<and> length (stars0 (reset0 zeroDraws (construct0 zeroDraws))) = 50
   \<and> width (run session3 (construct zeroDraws)) = GAME_WIDTH
   \<and> height (run session3 (construct zeroDraws)) = GAME_HEIGHT
   \<and> hp (run session3 (construct zeroDraws)) = 0
   \<and> gameState (run session3 (construct zeroDraws)) = GameOver
   \<and> hp (reset False zeroDraws (run session3 (construct zeroDraws))) = 3
   \<and> gameState (reset False zeroDraws (run session3 (construct zeroDraws))) = Playing
   \<and> findAllWith (reset False zeroDraws (run session3 (construct zeroDraws))) [C_ENEMY] = []
   \<and> hp0 (run0 session1 (construct0 zeroDraws)) = - 1
   \<and> hp0 (reset0 zeroDraws (run0 session1 (construct0 zeroDraws))) = 3
   \<and> gameState0 (reset0 zeroDraws (run0 session1 (construct0 zeroDraws))) = Playing
   \<and> enemies0 (reset0 zeroDraws (run0 session1 (construct0 zeroDraws))) = []"
  using reset_fresh_session[of "construct zeroDraws" zeroDraws "construct0 zeroDraws"]
    reset_fresh_session[OF session3_over(5,6), of zeroDraws "run0 session1 (construct0 zeroDraws)"]
    session3_over session1_over
  by simp

text \<open>
  C8. While the phase is game over, a tick of the flat version changes nothing at all.
  A tick of the entity-component version leaves score, hp, phase and fire time alone,
  creates no entity (the id counter stands still and no new id appears), and an entity
  leaves the store only when an entity under its key has used up its lifetime; what
  remains is the passive motion of the movement system.
\<close>

theorem gameOver_tick_is_passive:
  assumes "gameState g = GameOver" and "gameState0 g0 = GameOver"
  shows "update0 env g0 = g0
         \<and> score (updateAndRender env dt g) = score g \<and> hp (updateAndRender env dt g) = hp g
         \<and> gameState (updateAndRender env dt g) = GameOver
         \<and> lastFireTime (updateAndRender env dt g) = lastFireTime g
         \<and> nextId (updateAndRender env dt g) = nextId g
         \<and> eid ` set (entities (updateAndRender env dt g)) \<subseteq> eid ` set (entities g)
         \<and> (\<forall>x \<in> set (entities g).
               (\<forall>y \<in> set (entities g). eid y = eid x \<longrightarrow>
                  (case c_lifetime y of None \<Rightarrow> True | Some t \<Rightarrow> 0 < t - dt))
               \<longrightarrow> clampIf (width g) (height g) (moveEntity env dt (width g) (height g) x)
                     \<in> set (entities (updateAndRender env dt g)))"
  using assms system_Movement_ids[of env dt g] system_Movement_survivor[of _ g dt env]
  by (simp add: update0_gameOver updateAndRender_gameOver)

theorem gameOver_tick_is_passive_witness:
  "gameState ((construct zeroDraws)\<lparr>hp := 0, gameState := GameOver\<rparr>) = GameOver
   \<and> gameState0 ((construct0 zeroDraws)\<lparr>hp0 := 0, gameState0 := GameOver\<rparr>) = GameOver
   \<and> update0 (quiet 1000) ((construct0 zeroDraws)\<lparr>hp0 := 0, gameState0 := GameOver\<rparr>)
       = (construct0 zeroDraws)\<lparr>hp0 := 0, gameState0 := GameOver\<rparr>
   \<and> nextId (updateAndRender (quiet 1000) 16 ((construct zeroDraws)\<lparr>hp := 0, gameState := GameOver\<rparr>))
       = nextId ((construct zeroDraws)\<lparr>hp := 0, gameState := GameOver\<rparr>)
   \<and> hp (updateAndRender (quiet 1000) 16 ((construct zeroDraws)\<lparr>hp := 0, gameState := GameOver\<rparr>)) = 0
   \<and> reachable (run session3 (construct zeroDraws))
   \<and> gameState (run session3 (construct zeroDraws)) = GameOver
   \<and> reachable0 (run0 session1 (construct0 zeroDraws))
   \<and> gameState0 (run0 session1 (construct0 zeroDraws)) = GameOver
   \<and> update0 (spawning 9000 (1 / 2)) (run0 session1 (construct0 zeroDraws))
       = run0 session1 (construct0 zeroDraws)
   \<and> hp (updateAndRender (spawning 9000 (1 / 2)) 17 (run session3 (construct zeroDraws))) = 0
   \<and> gameState (updateAndRender (spawning 9000 (1 / 2)) 17 (run session3 (construct zeroDraws))) = GameOver
   \<and> nextId (updateAndRender (spawning 9000 (1 / 2)) 17 (run session3 (construct zeroDraws))) = 57"
proof -
  have a: "gameState ((construct zeroDraws)\<lparr>hp := 0, gameState := GameOver\<rparr>) = GameOver"
    and b: "gameState0 ((construct0 zeroDraws)\<lparr>hp0 := 0, gameState0 := GameOver\<rparr>) = GameOver"
    by simp_all
  from gameOver_tick_is_passive[OF a b, of "quiet 1000" 16]
    gameOver_tick_is_passive[OF session3_over(3) session1_over(3), of "spawning 9000 (1 / 2)" 17]
    a b session3_over session1_over
  show ?thesis by simp
qed




text \<open>
  C1. In the entity-component version every reachable state has 0 <= hp <= 3, with
  hp = 0 exactly in phase game over (lemma \<open>reachable_scalars\<close>). The flat version
  decrements \<^verbatim>\<open>hp\<close> once per enemy that overlaps the player and never floors it: in
  session 1 four enemies reach the idle player on tick 342, and the state after that
  tick, which is reachable, has hp = -1.
\<close>

theorem flat_hp_below_zero:
  "reachable0 (run0 session1 (construct0 zeroDraws))
   \<and> hp0 (run0 session1 (construct0 zeroDraws)) = - 1
   \<and> gameState0 (run0 session1 (construct0 zeroDraws)) = GameOver"
  using reachable0_run0[OF reachable0_construct0 session1_ok] session1_end by simp

text \<open>
  C4. In the entity-component version the scan of a bullet stops at the first enemy it
  overlaps and scores once (lemmas \<open>scanEnemies_first\<close>, \<open>scanEnemies_at_most_once\<close>).
  The flat version filters the whole enemy list for every bullet: in the reachable state
  \<open>session2_before\<close> the one bullet in flight is about to overlap two enemies, and
  the next tick removes both and adds 200 to the score.
\<close>

theorem flat_bullet_scores_twice:
  "reachable0 session2_before
   \<and> bullets0 session2_before = [bulletAt 160 88]
   \<and> enemies0 session2_before = [enemyAt 160 (145 / 2), enemyAt 160 71]
   \<and> score0 (update0 (quiet 2037) session2_before) = score0 session2_before + 200
   \<and> enemies0 (update0 (quiet 2037) session2_before) = []"
  using session2_reachable session2_double_kill by simp




text \<open>
  C5, as amended. In the entity-component version a tick that starts in phase playing
  ends with no bullet or enemy in the store beyond the playfield by more than its margin
  (render size plus 20), and a tick in either phase ends with no entity in the store
  whose lifetime is used up. In the flat version every reachable state after a tick
  holds only bullets with -20 < y < 588 and enemies with y < 568 + size + 10. (Once the
  phase is game over the entity-component version still moves bullets and enemies but
  no longer evicts them by position.)
\<close>

theorem eviction_while_playing:
  "(gameState g \<noteq> GameOver \<longrightarrow>
      (\<forall>x \<in> set (entities (updateAndRender env dt g)). \<not> outOfBounds (width g) (height g) x))
   \<and> (\<forall>x \<in> set (entities (updateAndRender env dt g)). \<not> expired x)
   \<and> (reachable0 g0 \<longrightarrow> list_all bulletKept0 (bullets0 (update0 env g0))
                         \<and> list_all enemyKept0 (enemies0 (update0 env g0)))"
  using updateAndRender_clean[of g _ env dt] updateAndRender_alive[of _ env dt g]
    inv0_update0[OF reachable0_inv0, of g0 env]
  by (auto simp: inv0_def)

theorem eviction_while_playing_witness:
  "gameState (construct zeroDraws) \<noteq> GameOver
   \<and> list_all (\<lambda>x. \<not> outOfBounds (width (construct zeroDraws)) (height (construct zeroDraws)) x)
        (entities (updateAndRender (spawning 1017 (1 / 2)) 17 (construct zeroDraws)))
   \<and> list_all (\<lambda>x. \<not> expired x) (entities (updateAndRender (spawning 1017 (1 / 2)) 17 (construct zeroDraws)))
   \<and> reachable0 (construct0 zeroDraws)
   \<and> list_all bulletKept0 (bullets0 (update0 (spawning 1017 (1 / 2)) (construct0 zeroDraws)))
   \<and> list_all enemyKept0 (enemies0 (update0 (spawning 1017 (1 / 2)) (construct0 zeroDraws)))
   \<and> gameState (run session7 (construct zeroDraws)) \<noteq> GameOver
   \<and> findAllWith (run session7 (construct zeroDraws)) [C_ENEMY, C_POSITION, C_RENDER]
       = [enemyE 53 8 (1207 / 2)]
   \<and> list_all (\<lambda>x. \<not> outOfBounds GAME_WIDTH GAME_HEIGHT x)
        (entities (updateAndRender (quiet 8038) 17 (run session7 (construct zeroDraws))))
   \<and> findAllWith (updateAndRender (quiet 8038) 17 (run session7 (construct zeroDraws)))
        [C_ENEMY, C_POSITION, C_RENDER] = []
   \<and> reachable0 (run0 session8 (construct0 zeroDraws))
   \<and> enemies0 (run0 session8 (construct0 zeroDraws)) = [enemyAt 0 593]
   \<and> list_all enemyKept0 (enemies0 (update0 (quiet 7936) (run0 session8 (construct0 zeroDraws))))
   \<and> enemies0 (update0 (quiet 7936) (run0 session8 (construct0 zeroDraws))) = []"
  using eviction_while_playing[of "construct zeroDraws" "spawning 1017 (1 / 2)" 17 "construct0 zeroDraws"]
    eviction_while_playing[of "run session7 (construct zeroDraws)" "quiet 8038" 17
      "run0 session8 (construct0 zeroDraws)"]
    eviction_while_playing[of "run session7 (construct zeroDraws)" "quiet 7936" 17
      "run0 session8 (construct0 zeroDraws)"]
    reachable0_construct0 session7_last session8_last
  by (simp add: list_all_iff)

text \<open>
  C5, the counterexample. Session 3 ends the game on tick 340 with one enemy left in
  the store. In phase game over the movement system still moves it; after tick 417 it is
  at y = 605, more than its margin of 36 below the playfield of height 568, and two ticks
  later it is still in the store, at y = 608.
\<close>

theorem gameOver_enemy_never_evicted:
  "reachable (run session3 (construct zeroDraws))
   \<and> gameState (run session3 (construct zeroDraws)) = GameOver
   \<and> findAllWith (run session3 (construct zeroDraws)) [C_ENEMY, C_POSITION, C_RENDER]
       = [enemyE 56 8 605]
   \<and> outOfBounds GAME_WIDTH GAME_HEIGHT (enemyE 56 8 605)
   \<and> findAllWith (run (eticks 418 2) (run session3 (construct zeroDraws))) [C_ENEMY, C_POSITION, C_RENDER]
       = [enemyE 56 8 608]
   \<and> outOfBounds GAME_WIDTH GAME_HEIGHT (enemyE 56 8 608)"
proof -
  have s0: "starsOK (firstStars zeroDraws)" by (rule starsOK_firstStars)
  have r: "reachable (run session3 (construct zeroDraws))"
    by (rule reachable_run[OF reachable_construct session3_ok])
  have 1: "findAllWith (run session3 (construct zeroDraws)) [C_ENEMY, C_POSITION, C_RENDER]
       = [enemyE 56 8 605]"
    unfolding session3_end by (intro findAllWith_enemies_arena starsOK_starsRun s0) simp
  have 2: "findAllWith (run (eticks 418 2) (run session3 (construct zeroDraws))) [C_ENEMY, C_POSITION, C_RENDER]
       = [enemyE 56 8 608]"
    unfolding session3_later by (intro findAllWith_enemies_arena starsOK_starsRun s0) simp
  have 3: "gameState (run session3 (construct zeroDraws)) = GameOver"
    unfolding session3_end by simp
  from r 1 2 3 show ?thesis by (simp add: outOfBounds_enemyE)
qed

end
